theory Spec2Isabelle
  imports Main "HOL-Library.Sublist" "HOL-Library.AList"
begin

section \<open>Python strings\<close>

text \<open>
  Strings are \<^typ>\<open>string\<close>, lists of 8-bit characters that stand for the code points
  \<open>0 .. 255\<close>.
  \<open>name in s\<close> on two strings is contiguous containment, the library's
  \<^const>\<open>sublist\<close>: \<open>sublist xs ys = (\<exists>ps ss. ys = ps @ xs @ ss)\<close>.
\<close>

text \<open>\<open>s.split(c)\<close> for a one-character separator: never empty, one more field than
  separators.\<close>

fun split_on :: "char \<Rightarrow> string \<Rightarrow> string list" where
  "split_on c [] = [[]]"
| "split_on c (x # xs) =
     (if x = c then [] # split_on c xs
      else (case split_on c xs of
              [] \<Rightarrow> [[x]]
            | w # ws \<Rightarrow> (x # w) # ws))"

text \<open>\<open>s.replace(old, new)\<close>: occurrences are replaced left to right without overlap;
  an empty \<open>old\<close> matches before every character and at the end.\<close>

function replace :: "string \<Rightarrow> string \<Rightarrow> string \<Rightarrow> string" where
  "replace old new s =
     (if old = [] then new @ concat (map (\<lambda>c. c # new) s)
      else if s = [] then []
      else if prefix old s then new @ replace old new (drop (length old) s)
      else hd s # replace old new (tl s))"
  by pat_completeness auto
termination
  by (relation "measure (\<lambda>(old, new, s). length s)") auto

declare replace.simps [simp del]

text \<open>\<open>str(n)\<close> for an integer.\<close>

definition digit_char :: "nat \<Rightarrow> char" where
  "digit_char d = char_of (48 + d)"

function nat_digits :: "nat \<Rightarrow> string" where
  "nat_digits n = (if n < 10 then [digit_char n] else nat_digits (n div 10) @ [digit_char (n mod 10)])"
  by pat_completeness auto
termination
  by (relation "measure id") auto

declare nat_digits.simps [simp del]

definition str_int :: "int \<Rightarrow> string" where
  "str_int i = (if i < 0 then CHR ''-'' # nat_digits (nat (- i)) else nat_digits (nat i))"

text \<open>\<open>int(s)\<close> on a string: surrounding whitespace is stripped, one sign is allowed, then
  at least one decimal digit must follow and nothing else. The whitespace of \<open>int\<close> is
  tab, line feed, vertical tab, form feed, carriage return and space (the characters
  \<open>9 .. 13\<close> and \<open>32\<close>), and beyond ASCII the next-line character \<open>133\<close> and the
  no-break space \<open>160\<close>; the separators \<open>28 .. 31\<close>, which \<open>str.strip\<close> removes, are
  not. (Underscores between digits, which \<open>int\<close> also accepts, cannot occur in a field of
  \<open>split('_')\<close>; the bound that recent interpreters put on the number of digits is left
  out.) \<open>None\<close> stands for the \<open>ValueError\<close>.\<close>

definition is_space :: "char \<Rightarrow> bool" where
  "is_space c = (let n = (of_char c :: nat) in (9 \<le> n \<and> n \<le> 13) \<or> n = 32 \<or> n = 133 \<or> n = 160)"

definition is_digit :: "char \<Rightarrow> bool" where
  "is_digit c = (let n = (of_char c :: nat) in 48 \<le> n \<and> n \<le> 57)"

definition strip :: "string \<Rightarrow> string" where
  "strip s = rev (dropWhile is_space (rev (dropWhile is_space s)))"

definition digits_value :: "string \<Rightarrow> int option" where
  "digits_value ds =
     (if ds \<noteq> [] \<and> list_all is_digit ds
      then Some (foldl (\<lambda>a c. 10 * a + (int (of_char c) - 48)) 0 ds)
      else None)"

definition py_int :: "string \<Rightarrow> int option" where
  "py_int s =
     (case strip s of
        [] \<Rightarrow> None
      | c # r \<Rightarrow>
          if c = CHR ''-'' then map_option uminus (digits_value r)
          else if c = CHR ''+'' then digits_value r
          else digits_value (c # r))"

text \<open>\<open>max(ids)\<close> on a non-empty list of integers.\<close>

definition py_max :: "int list \<Rightarrow> int" where
  "py_max ids = foldl max (hd ids) (tl ids)"

section \<open>Errors\<close>

datatype error =
    NameError string
  | TypeError
  | ValueError
  | KeyError
  | AttributeError
  | FileNotFoundError
  | FileExistsError
  | NotADirectoryError
  | IsADirectoryError
  | Unmodelled

text \<open>
  \<open>Unmodelled\<close> is no Python exception: it marks an input on which the model does not
  say what the code does (a record section of a type the class does not document, as a
  list where a table is expected).
\<close>

section \<open>The file system\<close>

text \<open>
  A directory tree whose root is the working directory. A directory keeps its entries in
  the order \<open>listdir\<close> reports them. Paths are \<open>/\<close>-separated and relative to the root;
  empty components are skipped, \<open>.\<close> and \<open>..\<close> are not interpreted.
\<close>

datatype 'c node = File 'c | Dir "(string \<times> 'c node) list"

definition components :: "string \<Rightarrow> string list" where
  "components p = filter (\<lambda>s. s \<noteq> []) (split_on CHR ''/'' p)"

fun lookup :: "'c node \<Rightarrow> string list \<Rightarrow> 'c node option" where
  "lookup n [] = Some n"
| "lookup (File _) (c # cs) = None"
| "lookup (Dir es) (c # cs) = (case map_of es c of None \<Rightarrow> None | Some n \<Rightarrow> lookup n cs)"

text \<open>\<open>os.listdir(path)\<close>.\<close>

definition listdir :: "'c node \<Rightarrow> string \<Rightarrow> error + string list" where
  "listdir fs path =
     (if path = [] then Inl FileNotFoundError
      else case lookup fs (components path) of
             None \<Rightarrow> Inl FileNotFoundError
           | Some (File _) \<Rightarrow> Inl NotADirectoryError
           | Some (Dir es) \<Rightarrow> Inr (map fst es))"

text \<open>\<open>os.listdir()\<close>: the working directory.\<close>

definition listdir_cwd :: "'c node \<Rightarrow> string list" where
  "listdir_cwd fs = (case fs of Dir es \<Rightarrow> map fst es | File _ \<Rightarrow> [])"

section \<open>Experiment ids\<close>

text \<open>
  \<^verbatim>\<open>
  def _last_exp_id(name, path):
      exp_id = 0
      output_dirs = listdir(path)
      exp_dirs = [s for s in output_dirs if name in s]
      if exp_dirs:
          ids = [int(s.split('_')[-1]) for s in exp_dirs]
          exp_id = max(ids)
      return exp_id
  \<close>
  The list comprehension over \<open>int\<close> raises at the first field that is not an integer.
\<close>

fun parse_all :: "string list \<Rightarrow> error + int list" where
  "parse_all [] = Inr []"
| "parse_all (s # ss) =
     (case py_int (last (split_on CHR ''_'' s)) of
        None \<Rightarrow> Inl ValueError
      | Some i \<Rightarrow> (case parse_all ss of Inl e \<Rightarrow> Inl e | Inr is \<Rightarrow> Inr (i # is)))"

definition last_exp_id :: "'c node \<Rightarrow> string \<Rightarrow> string \<Rightarrow> error + int" where
  "last_exp_id fs name path =
     (case listdir fs path of
        Inl e \<Rightarrow> Inl e
      | Inr output_dirs \<Rightarrow>
          (let exp_dirs = filter (\<lambda>s. sublist name s) output_dirs in
           if exp_dirs \<noteq> [] then
             (case parse_all exp_dirs of
                Inl e \<Rightarrow> Inl e
              | Inr ids \<Rightarrow> Inr (py_max ids))
           else Inr 0))"

section \<open>Python values\<close>

text \<open>
  The values a record holds. A table (\<open>pandas.DataFrame\<close>) is a mutable object: a value
  refers to it through its address in the store, so that two references to one table see
  each other's updates. The three mapping classes of the package are one constructor with
  a tag: \<open>DataDict\<close> extends \<open>AttrDict\<close>, which extends \<open>dict\<close>. Mapping keys are strings
  and mappings keep their insertion order. Floating-point numbers are not modelled.
\<close>

type_synonym ref = nat

datatype dict_kind = PlainDict | AttrDict | DataDict

datatype obj =
    PNone
  | PBool bool
  | PInt int
  | PStr string
  | PList "obj list"
  | PTuple "obj list"
  | PDict dict_kind "(string \<times> obj) list"
  | PFrame ref

type_synonym items = "(string \<times> obj) list"

section \<open>Tables\<close>

text \<open>
  A table has index levels (\<open>df.index.names\<close>, \<open>None\<close> for an unnamed level), each with
  its dtype, one index tuple per row, and its columns in order, each with its dtype and one
  cell per row. The dtypes are \<open>int64\<close>, \<open>bool\<close> and \<open>object\<close> (strings, \<open>None\<close>,
  containers, and whatever a column of Python objects holds); there are no floating-point
  columns, as there are no floating-point numbers.
\<close>

datatype dtype = Int64 | Bool | Object

type_synonym column = "dtype \<times> obj list"

record frame =
  index_names :: "string option list"
  index_dtypes :: "dtype list"
  index_rows :: "obj list list"
  data :: "(string \<times> column) list"

record store =
  frames :: "ref \<Rightarrow> frame"
  lim :: ref

text \<open>
  JSON values, and what a file holds: the CSV text \<open>to_csv\<close> writes for a table, the
  JSON text of a value, or the beginning of a JSON text whose writing was cut short.
\<close>

datatype json =
    JNull
  | JBool bool
  | JInt int
  | JStr string
  | JArr "json list"
  | JObj "(string \<times> json) list"

datatype content = CsvOf frame | JsonOf json | Partial

text \<open>
  Operations of the table library whose result the source only passes on are parameters
  of the model: every theorem holds for whatever they return.
\<close>

record pandas =
  concat_rows :: "frame list \<Rightarrow> error + frame"
  concat_keys :: "(string \<times> frame) list \<Rightarrow> error + frame"
  concat_columns_unaligned :: "frame \<Rightarrow> frame \<Rightarrow> error + frame"
  reindex_level :: "frame \<Rightarrow> frame \<Rightarrow> string \<Rightarrow> error + frame"
  setitem_other :: "frame \<Rightarrow> string \<Rightarrow> obj \<Rightarrow> error + frame"
  make_column :: "obj list \<Rightarrow> error + column"
  convert_objects :: "obj list \<Rightarrow> error + column"
  series_getitem :: "frame \<Rightarrow> obj list \<Rightarrow> int \<Rightarrow> error + obj"
  read_csv :: "content \<Rightarrow> error + frame"
  json_load_other :: "content \<Rightarrow> error + obj"

text \<open>Computations that read and update a state (the store of tables, or the file
  system) and may raise; what was written before an exception stays written.\<close>

type_synonym ('a, 's) act = "'s \<Rightarrow> (error + 'a) \<times> 's"

type_synonym 'a action = "('a, store) act"

definition ret :: "'a \<Rightarrow> ('a, 's) act" where
  "ret x = (\<lambda>s. (Inr x, s))"

definition raise :: "error \<Rightarrow> ('a, 's) act" where
  "raise e = (\<lambda>s. (Inl e, s))"

definition lift :: "error + 'a \<Rightarrow> ('a, 's) act" where
  "lift r = (\<lambda>s. (r, s))"

definition andthen :: "('a, 's) act \<Rightarrow> ('a \<Rightarrow> ('b, 's) act) \<Rightarrow> ('b, 's) act" where
  "andthen m f = (\<lambda>s. case m s of (Inl e, s') \<Rightarrow> (Inl e, s') | (Inr x, s') \<Rightarrow> f x s')"

definition new_frame :: "frame \<Rightarrow> obj action" where
  "new_frame f = (\<lambda>s. (Inr (PFrame (lim s)), s\<lparr>frames := (frames s)(lim s := f), lim := Suc (lim s)\<rparr>))"

definition update_frame :: "obj \<Rightarrow> (frame \<Rightarrow> error + frame) \<Rightarrow> unit action" where
  "update_frame v g =
     (\<lambda>s. case v of
            PFrame r \<Rightarrow>
              (case g (frames s r) of
                 Inl e \<Rightarrow> (Inl e, s)
               | Inr f \<Rightarrow> (Inr (), s\<lparr>frames := (frames s)(r := f)\<rparr>))
          | _ \<Rightarrow> (Inl Unmodelled, s))"

definition get_frame :: "obj \<Rightarrow> frame action" where
  "get_frame v = (\<lambda>s. case v of PFrame r \<Rightarrow> (Inr (frames s r), s) | _ \<Rightarrow> (Inl Unmodelled, s))"

definition df_len :: "frame \<Rightarrow> nat" where
  "df_len f = length (index_rows f)"

definition df_shape :: "frame \<Rightarrow> nat \<times> nat" where
  "df_shape f = (length (index_rows f), length (data f))"

definition column_names :: "frame \<Rightarrow> string list" where
  "column_names f = map fst (data f)"

text \<open>\<open>pd.DataFrame()\<close>: no rows, no columns, an unnamed empty index.\<close>

definition empty_frame :: frame where
  "empty_frame = \<lparr>index_names = [None], index_dtypes = [Object], index_rows = [], data = []\<rparr>"

text \<open>Writing a whole column: an existing name keeps its place, a new one goes last.\<close>

definition set_column :: "frame \<Rightarrow> string \<Rightarrow> column \<Rightarrow> frame" where
  "set_column f k col =
     f\<lparr>data := (if k \<in> set (column_names f)
                then map (\<lambda>(c, old). if c = k then (c, col) else (c, old)) (data f)
                else data f @ [(k, col)])\<rparr>"

text \<open>
  The dtype the library gives a column made of Python values. A scalar that is broadcast
  gives \<open>int64\<close> for an integer of 64 bits, \<open>bool\<close> for a boolean, \<open>object\<close> for a
  string or \<open>None\<close>. A non-empty list gives \<open>int64\<close> when all its elements are such
  integers, \<open>bool\<close> when all are booleans, \<open>object\<close> when all are strings or \<open>None\<close>.
  Everything else (an empty list, mixed or nested elements, larger integers) is left to
  the library.
\<close>

definition int64 :: "int \<Rightarrow> bool" where
  "int64 i \<longleftrightarrow> - (2 ^ 63) \<le> i \<and> i < 2 ^ 63"

definition scalar_dtype :: "obj \<Rightarrow> dtype option" where
  "scalar_dtype v =
     (case v of
        PNone \<Rightarrow> Some Object
      | PBool _ \<Rightarrow> Some Bool
      | PInt i \<Rightarrow> if int64 i then Some Int64 else None
      | PStr _ \<Rightarrow> Some Object
      | _ \<Rightarrow> None)"

definition list_dtype :: "obj list \<Rightarrow> dtype option" where
  "list_dtype xs =
     (if xs = [] then None
      else if list_all (\<lambda>x. scalar_dtype x = Some Int64) xs then Some Int64
      else if list_all (\<lambda>x. scalar_dtype x = Some Bool) xs then Some Bool
      else if list_all (\<lambda>x. scalar_dtype x = Some Object) xs then Some Object
      else None)"

text \<open>\<open>pd.DataFrame({k: xs})\<close> makes of the list \<open>xs\<close> a column.\<close>

definition column_of_list :: "pandas \<Rightarrow> obj list \<Rightarrow> error + column" where
  "column_of_list P xs = (case list_dtype xs of Some t \<Rightarrow> Inr (t, xs) | None \<Rightarrow> make_column P xs)"

text \<open>The columns of a table are made one after the other; the first error is raised.\<close>

fun collect :: "(string \<times> (error + 'a)) list \<Rightarrow> error + (string \<times> 'a) list" where
  "collect [] = Inr []"
| "collect ((k, r) # d) =
     (case r of
        Inl e \<Rightarrow> Inl e
      | Inr x \<Rightarrow> (case collect d of Inl e \<Rightarrow> Inl e | Inr xs \<Rightarrow> Inr ((k, x) # xs)))"

text \<open>
  \<open>df[k] = v\<close>. A scalar is broadcast to every row. A list or tuple is taken as the
  column itself: on a table with rows its length must match the number of rows
  (\<open>ValueError\<close> otherwise). Mappings, tables, sequences on a table without rows, and
  values whose dtype is the library's, are left to the library.
\<close>

definition setitem_list :: "pandas \<Rightarrow> frame \<Rightarrow> string \<Rightarrow> obj \<Rightarrow> obj list \<Rightarrow> error + frame" where
  "setitem_list P f k v xs =
     (if length xs = df_len f then
        (case list_dtype xs of
           Some t \<Rightarrow> Inr (set_column f k (t, xs))
         | None \<Rightarrow> setitem_other P f k v)
      else if df_len f = 0 then setitem_other P f k v
      else Inl ValueError)"

definition setitem :: "pandas \<Rightarrow> frame \<Rightarrow> string \<Rightarrow> obj \<Rightarrow> error + frame" where
  "setitem P f k v =
     (case v of
        PList xs \<Rightarrow> setitem_list P f k v xs
      | PTuple xs \<Rightarrow> setitem_list P f k v xs
      | PDict _ _ \<Rightarrow> setitem_other P f k v
      | PFrame _ \<Rightarrow> setitem_other P f k v
      | _ \<Rightarrow>
          (case scalar_dtype v of
             Some t \<Rightarrow> Inr (set_column f k (t, replicate (df_len f) v))
           | None \<Rightarrow> setitem_other P f k v))"

text \<open>The labels \<open>reset_index\<close> gives the index levels as columns.\<close>

definition level_labels :: "frame \<Rightarrow> string list" where
  "level_labels f =
     (case index_names f of
        [None] \<Rightarrow> [if ''index'' \<in> set (column_names f) then ''level_0'' else ''index'']
      | ns \<Rightarrow> map (\<lambda>(i, n). case n of Some s \<Rightarrow> s | None \<Rightarrow> ''level_'' @ str_int (int i))
                 (enumerate 0 ns))"

definition range_index :: "nat \<Rightarrow> obj list list" where
  "range_index n = map (\<lambda>i. [PInt (int i)]) [0..<n]"

text \<open>
  \<open>df.reset_index()\<close>: the index levels become the first columns and the index becomes
  \<open>0 .. n-1\<close>; a label that is already there is a \<open>ValueError\<close>. A level of dtype
  \<open>int64\<close> or \<open>bool\<close> gives a column of that dtype. The labels of a level of dtype
  \<open>object\<close> are converted: without labels the column is \<open>object\<close>, otherwise it has the
  dtype of the list of the labels.
\<close>

definition level_column :: "pandas \<Rightarrow> dtype \<Rightarrow> obj list \<Rightarrow> error + column" where
  "level_column P t xs =
     (if t \<noteq> Object \<or> xs = [] then Inr (t, xs)
      else case list_dtype xs of Some t' \<Rightarrow> Inr (t', xs) | None \<Rightarrow> convert_objects P xs)"

definition reset_index :: "pandas \<Rightarrow> frame \<Rightarrow> error + frame" where
  "reset_index P f =
     (let labels = level_labels f in
      if distinct labels \<and> set labels \<inter> set (column_names f) = {}
      then (case collect (map (\<lambda>(j, l, t). (l, level_column P t (map (\<lambda>row. row ! j) (index_rows f))))
                            (enumerate 0 (zip labels (index_dtypes f)))) of
              Inl e \<Rightarrow> Inl e
            | Inr cols \<Rightarrow>
                Inr \<lparr>index_names = [None],
                     index_dtypes = [Int64],
                     index_rows = range_index (df_len f),
                     data = cols @ data f\<rparr>)
      else Inl ValueError)"

text \<open>\<open>df.set_index(keys)\<close>: the named columns leave the columns and become the index
  levels, with their dtypes; a key that is no column (so also \<open>None\<close>) is a \<open>KeyError\<close>.\<close>

definition set_index :: "frame \<Rightarrow> string option list \<Rightarrow> error + frame" where
  "set_index f keys =
     (if keys = [] then Inl ValueError
      else if list_all (\<lambda>k. case k of None \<Rightarrow> False | Some c \<Rightarrow> c \<in> set (column_names f)) keys
      then Inr \<lparr>index_names = keys,
                index_dtypes = map (\<lambda>k. fst (the (map_of (data f) (the k)))) keys,
                index_rows = map (\<lambda>i. map (\<lambda>k. snd (the (map_of (data f) (the k))) ! i) keys)
                                 [0..<df_len f],
                data = filter (\<lambda>(c, _). Some c \<notin> set keys) (data f)\<rparr>
      else Inl KeyError)"

text \<open>\<open>df[keys]\<close> with a list of column names.\<close>

definition select_columns :: "frame \<Rightarrow> string list \<Rightarrow> error + frame" where
  "select_columns f keys =
     (if list_all (\<lambda>k. k \<in> set (column_names f)) keys
      then Inr (f\<lparr>data := concat (map (\<lambda>k. filter (\<lambda>(c, _). c = k) (data f)) keys)\<rparr>)
      else Inl KeyError)"

text \<open>\<open>pd.concat([f, g], axis=1)\<close>: with one and the same index the columns are put side
  by side; aligning different indexes is left to the library.\<close>

definition concat_columns :: "pandas \<Rightarrow> frame \<Rightarrow> frame \<Rightarrow> error + frame" where
  "concat_columns P f g =
     (if index_names f = index_names g \<and> index_dtypes f = index_dtypes g \<and>
         index_rows f = index_rows g
      then Inr (f\<lparr>data := data f @ data g\<rparr>)
      else concat_columns_unaligned P f g)"

text \<open>\<open>v[0]\<close> on a column of a table: the cell at index label \<open>0\<close>.\<close>

definition getitem_0 :: "pandas \<Rightarrow> frame \<Rightarrow> obj list \<Rightarrow> error + obj" where
  "getitem_0 P f col =
     (if index_rows f = [[PInt 0]] \<and> length col = 1 then Inr (hd col)
      else series_getitem P f col 0)"

section \<open>Records\<close>

text \<open>
  A record (\<open>DataDict\<close>) is a mapping from keys to values; \<open>self.key\<close> reads the entry
  \<open>key\<close> (an \<open>AttributeError\<close> when it is missing).
\<close>

definition getattr :: "items \<Rightarrow> string \<Rightarrow> error + obj" where
  "getattr d k = (case map_of d k of None \<Rightarrow> Inl AttributeError | Some v \<Rightarrow> Inr v)"

subsection \<open>Equality\<close>

text \<open>
  \<^verbatim>\<open>
  def __eq__(self, other):
      if not isinstance(other, DataDict):
          return False
      for key, item in self.items():
          if key not in other:
              return False
          if isinstance(item, pd.DataFrame):
              if not self[key].equals(other[key]):
                  return False
          elif not self[key] == other[key]:
              return False
      return True
  \<close>
  \<open>py_eq\<close> is \<open>a == b\<close> taken as a truth value. Comparing a table with \<open>==\<close> gives a
  table, whose truth value is a \<open>ValueError\<close>. Inside a list, tuple or plain mapping
  Python compares two elements by identity first (\<open>py_eq_item\<close>): a table equals itself.
  A plain mapping never equals a \<open>DataDict\<close>: the subclass's \<open>__eq__\<close> is asked first
  and answers \<open>False\<close>.
\<close>

definition int_of_obj :: "obj \<Rightarrow> int option" where
  "int_of_obj v = (case v of PInt i \<Rightarrow> Some i | PBool b \<Rightarrow> Some (if b then 1 else 0) | _ \<Rightarrow> None)"

text \<open>The loops take every element with its comparison \<open>\<lambda>b. x == b\<close>; \<open>E r r'\<close> is
  \<open>equals\<close> on the tables at two addresses.\<close>

type_synonym cmp = "obj \<Rightarrow> error + bool"

type_synonym table_cmp = "ref \<Rightarrow> ref \<Rightarrow> error + bool"

definition py_eq_item :: "obj \<Rightarrow> cmp \<Rightarrow> obj \<Rightarrow> error + bool" where
  "py_eq_item x c y = (case x of PFrame r \<Rightarrow> if y = PFrame r then Inr True else Inl ValueError | _ \<Rightarrow> c y)"

fun seq_eq :: "(obj \<times> cmp) list \<Rightarrow> obj list \<Rightarrow> error + bool" where
  "seq_eq [] ys = Inr (ys = [])"
| "seq_eq ((x, c) # xs) [] = Inr False"
| "seq_eq ((x, c) # xs) (y # ys) =
     (case py_eq_item x c y of
        Inl e \<Rightarrow> Inl e
      | Inr t \<Rightarrow> if t then seq_eq xs ys else Inr False)"

fun dict_eq :: "((string \<times> obj) \<times> (string \<times> cmp)) list \<Rightarrow> items \<Rightarrow> error + bool" where
  "dict_eq [] b = Inr True"
| "dict_eq (((key, item), (_, c)) # a) b =
     (case map_of b key of
        None \<Rightarrow> Inr False
      | Some w \<Rightarrow>
          (case py_eq_item item c w of
             Inl e \<Rightarrow> Inl e
           | Inr t \<Rightarrow> if t then dict_eq a b else Inr False))"

fun datadict_eq :: "table_cmp \<Rightarrow> ((string \<times> obj) \<times> (string \<times> cmp)) list \<Rightarrow> items \<Rightarrow> error + bool" where
  "datadict_eq E [] other = Inr True"
| "datadict_eq E (((key, item), (_, c)) # self) other =
     (case map_of other key of
        None \<Rightarrow> Inr False
      | Some w \<Rightarrow>
          (case item of
             PFrame r \<Rightarrow>
               (case w of
                  PFrame r' \<Rightarrow>
                    (case E r r' of
                       Inl e \<Rightarrow> Inl e
                     | Inr t \<Rightarrow> if t then datadict_eq E self other else Inr False)
                | _ \<Rightarrow> Inr False)
           | _ \<Rightarrow>
               (case c w of
                  Inl e \<Rightarrow> Inl e
                | Inr t \<Rightarrow> if t then datadict_eq E self other else Inr False)))"

primrec py_eq_with :: "table_cmp \<Rightarrow> obj \<Rightarrow> cmp" where
  "py_eq_with E (PFrame r) = (\<lambda>b. Inl ValueError)"
| "py_eq_with E (PDict k a) = (\<lambda>b.
     case b of
        PDict k' b' \<Rightarrow>
          if k = DataDict
          then (if k' = DataDict then datadict_eq E (zip a (map (map_prod id (py_eq_with E)) a)) b'
                else Inr False)
          else if k' = DataDict then Inr False
          else if length a \<noteq> length b' then Inr False
          else dict_eq (zip a (map (map_prod id (py_eq_with E)) a)) b'
      | PFrame _ \<Rightarrow> (if k = DataDict then Inr False else Inl ValueError)
      | _ \<Rightarrow> Inr False)"
| "py_eq_with E (PList xs) = (\<lambda>b.
     case b of
        PList ys \<Rightarrow> if length xs \<noteq> length ys then Inr False else seq_eq (zip xs (map (py_eq_with E) xs)) ys
      | PFrame _ \<Rightarrow> Inl ValueError
      | _ \<Rightarrow> Inr False)"
| "py_eq_with E (PTuple xs) = (\<lambda>b.
     case b of
        PTuple ys \<Rightarrow> seq_eq (zip xs (map (py_eq_with E) xs)) ys
      | PFrame _ \<Rightarrow> Inl ValueError
      | _ \<Rightarrow> Inr False)"
| "py_eq_with E PNone = (\<lambda>b. case b of PNone \<Rightarrow> Inr True | PFrame _ \<Rightarrow> Inl ValueError | _ \<Rightarrow> Inr False)"
| "py_eq_with E (PStr x) = (\<lambda>b. case b of PStr y \<Rightarrow> Inr (x = y) | PFrame _ \<Rightarrow> Inl ValueError | _ \<Rightarrow> Inr False)"
| "py_eq_with E (PInt i) = (\<lambda>b.
     case b of PFrame _ \<Rightarrow> Inl ValueError | _ \<Rightarrow> Inr (int_of_obj b = Some i))"
| "py_eq_with E (PBool x) = (\<lambda>b.
     case b of PFrame _ \<Rightarrow> Inl ValueError | _ \<Rightarrow> Inr (int_of_obj b = Some (if x then 1 else 0)))"

text \<open>
  \<open>df.equals(other)\<close> on two tables: the same shape, the same column labels, for every
  column the same dtype, and equal index labels and cells. Two labels or cells are
  compared as Python objects, by identity first and then with \<open>==\<close> (so in two columns
  of dtype \<open>object\<close> the cell \<open>1\<close> equals the cell \<open>True\<close>). The names and the dtypes of
  the index levels are not compared. A record in a cell that itself holds tables is not
  modelled, nor is the comparison of two indexes with different numbers of levels when
  labels are tuples.
\<close>

definition cell_cmp :: "obj \<Rightarrow> cmp" where
  "cell_cmp = py_eq_with (\<lambda>r r'. Inl Unmodelled)"

definition cells_eq :: "obj list \<Rightarrow> obj list \<Rightarrow> error + bool" where
  "cells_eq xs ys = seq_eq (zip xs (map cell_cmp xs)) ys"

fun rows_eq :: "obj list list \<Rightarrow> obj list list \<Rightarrow> error + bool" where
  "rows_eq [] yss = Inr (yss = [])"
| "rows_eq (xs # xss) [] = Inr False"
| "rows_eq (xs # xss) (ys # yss) =
     (case cells_eq xs ys of
        Inl e \<Rightarrow> Inl e
      | Inr t \<Rightarrow> if t then rows_eq xss yss else Inr False)"

definition column_dtypes :: "frame \<Rightarrow> dtype list" where
  "column_dtypes f = map (\<lambda>(c, t, xs). t) (data f)"

definition column_cells :: "frame \<Rightarrow> obj list list" where
  "column_cells f = map (\<lambda>(c, t, xs). xs) (data f)"

definition is_tuple :: "obj \<Rightarrow> bool" where
  "is_tuple v = (case v of PTuple _ \<Rightarrow> True | _ \<Rightarrow> False)"

definition frame_equals :: "frame \<Rightarrow> frame \<Rightarrow> error + bool" where
  "frame_equals f g =
     (if length (index_names f) \<noteq> length (index_names g) \<and>
         list_ex is_tuple (concat (index_rows f) @ concat (index_rows g))
      then Inl Unmodelled
      else if length (index_names f) = length (index_names g) \<and> df_len f = df_len g \<and>
         column_names f = column_names g \<and> column_dtypes f = column_dtypes g
      then (case rows_eq (index_rows f) (index_rows g) of
              Inl e \<Rightarrow> Inl e
            | Inr t \<Rightarrow> if t then rows_eq (column_cells f) (column_cells g) else Inr False)
      else Inr False)"

definition table_equals :: "store \<Rightarrow> table_cmp" where
  "table_equals s r r' = frame_equals (frames s r) (frames s r')"

definition py_eq :: "store \<Rightarrow> obj \<Rightarrow> cmp" where
  "py_eq s = py_eq_with (table_equals s)"

text \<open>\<open>a == b\<close> for a record \<open>a\<close> and any value \<open>b\<close>; \<open>a != b\<close> is its negation.\<close>

definition eq :: "store \<Rightarrow> items \<Rightarrow> obj \<Rightarrow> error + bool" where
  "eq s self other =
     (case other of
        PDict DataDict other' \<Rightarrow>
          datadict_eq (table_equals s) (zip self (map (map_prod id (py_eq s)) self)) other'
      | _ \<Rightarrow> Inr False)"

definition ne :: "store \<Rightarrow> items \<Rightarrow> obj \<Rightarrow> error + bool" where
  "ne s self other = (case eq s self other of Inl e \<Rightarrow> Inl e | Inr c \<Rightarrow> Inr (\<not> c))"

subsection \<open>Combining the variables\<close>

text \<open>
  The arguments \<open>obj_types\<close> and \<open>var_keys\<close> are \<open>True\<close> (\<open>All\<close>) or a selection
  \<open>Only keys\<close>, where \<open>keys\<close> is what \<open>make_list\<close> makes of the argument (a name alone
  becomes the list of that name).
\<close>

datatype filter_arg = All | Only "string list"

text \<open>\<open>any(x in v.columns for x in keys)\<close>: with no keys, \<open>v.columns\<close> is never read. A
  value that is no table has no attribute \<open>columns\<close>; an \<open>AttrDict\<close> or \<open>DataDict\<close> with
  an entry of that name is not modelled.\<close>

definition any_column :: "store \<Rightarrow> string list \<Rightarrow> obj \<Rightarrow> error + bool" where
  "any_column s keys v =
     (if keys = [] then Inr False
      else case v of
             PFrame r \<Rightarrow> Inr (list_ex (\<lambda>x. x \<in> set (column_names (frames s r))) keys)
           | PDict k d \<Rightarrow>
               if k \<noteq> PlainDict \<and> map_of d ''columns'' \<noteq> None then Inl Unmodelled
               else Inl AttributeError
           | _ \<Rightarrow> Inl AttributeError)"

fun filter_var_keys :: "store \<Rightarrow> string list \<Rightarrow> items \<Rightarrow> error + items" where
  "filter_var_keys s keys [] = Inr []"
| "filter_var_keys s keys ((k, v) # d) =
     (case any_column s keys v of
        Inl e \<Rightarrow> Inl e
      | Inr c \<Rightarrow>
          (case filter_var_keys s keys d of
             Inl e \<Rightarrow> Inl e
           | Inr d' \<Rightarrow> Inr (if c then (k, v) # d' else d')))"

text \<open>\<open>self.log['model_type']\<close>.\<close>

definition log_model_type :: "items \<Rightarrow> error + obj" where
  "log_model_type self =
     (case getattr self ''log'' of
        Inl e \<Rightarrow> Inl e
      | Inr (PDict _ lg) \<Rightarrow> (case map_of lg ''model_type'' of None \<Rightarrow> Inl KeyError | Some m \<Rightarrow> Inr m)
      | Inr (PFrame _) \<Rightarrow> Inl Unmodelled
      | Inr _ \<Rightarrow> Inl TypeError)"

text \<open>The tables of a mapping, for \<open>pd.concat\<close>.\<close>

fun frames_of :: "store \<Rightarrow> items \<Rightarrow> (string \<times> frame) list option" where
  "frames_of s [] = Some []"
| "frames_of s ((k, v) # d) =
     (case v of
        PFrame r \<Rightarrow> map_option (\<lambda>fs. (k, frames s r) # fs) (frames_of s d)
      | _ \<Rightarrow> None)"

text \<open>
  \<^verbatim>\<open>
  model_type = self.log['model_type']
  if model_type in list(df_dict.keys()):
      df = df_dict[model_type]
      df['obj_id'] = 0
      indexes = list(df.index.names)
      indexes.insert(-1, 'obj_id')
      df = df.reset_index()
      df = df.set_index(indexes)
      df_dict[model_type] = df
  \<close>
  \<open>df_dict\<close> is a new mapping, but its values are the tables of \<open>self.variables\<close>
  themselves: \<open>df['obj_id'] = 0\<close> writes to the table the record holds, while
  \<open>reset_index\<close> and \<open>set_index\<close> make new tables.
\<close>

definition insert_before_last :: "'a \<Rightarrow> 'a list \<Rightarrow> 'a list" where
  "insert_before_last x xs = (if xs = [] then [x] else butlast xs @ [x, last xs])"

definition add_obj_id :: "pandas \<Rightarrow> obj \<Rightarrow> items \<Rightarrow> items action" where
  "add_obj_id P model_type df_dict =
     (case model_type of
        PStr m \<Rightarrow>
          (case map_of df_dict m of
             None \<Rightarrow> ret df_dict
           | Some (PFrame r) \<Rightarrow>
               andthen (update_frame (PFrame r) (\<lambda>f. setitem P f ''obj_id'' (PInt 0))) (\<lambda>_.
               andthen (get_frame (PFrame r)) (\<lambda>f1.
               andthen (lift (reset_index P f1)) (\<lambda>f2.
               andthen (new_frame f2) (\<lambda>_.
               andthen (lift (set_index f2 (insert_before_last (Some ''obj_id'') (index_names f1)))) (\<lambda>f3.
               andthen (new_frame f3) (\<lambda>df.
               ret (AList.update m df df_dict)))))))
           | Some _ \<Rightarrow> raise Unmodelled)
      | PFrame _ \<Rightarrow> (if df_dict = [] then ret df_dict else raise ValueError)
      | _ \<Rightarrow> ret df_dict)"

text \<open>
  \<^verbatim>\<open>
  def _combine_vars(self, obj_types=True, var_keys=True):
      if 'variables' in self:
          vs = self['variables']
      else:
          return None
      if isinstance(vs, pd.DataFrame):
          return vs  # Return df if vs is already a df
      elif isinstance(vs, DataDict) and len(vs.keys()) == 1:
          return list(vs.values())[0]  # Return df if vs has only one entry
      elif isinstance(vs, (dict, DataDict)):
          df_dict = dict(vs)  # Convert to dict if vs is DataDict
      else:
          raise TypeError(...)
      if var_keys is not True:
          df_dict = {k: v for k, v in df_dict.items()
                     if any(x in v.columns for x in make_list(var_keys))}
      if obj_types is not True:
          df_dict = {k: v for k, v in df_dict.items()
                     if k in make_list(obj_types)}
      (the model table gets its obj_id, above)
      if df_dict == {}:
          return None
      df = pd.concat(df_dict)  # Dict keys (obj_type) will be added to index
      df.index = df.index.set_names('obj_type', level=0)  # Rename new index
      if var_keys is not True:
          df = df[make_list(var_keys)]
      return df
  \<close>
\<close>

definition combine_vars_dict :: "pandas \<Rightarrow> items \<Rightarrow> items \<Rightarrow> filter_arg \<Rightarrow> filter_arg \<Rightarrow> obj action" where
  "combine_vars_dict P self vs obj_types var_keys =
     andthen (\<lambda>s. (case var_keys of All \<Rightarrow> Inr vs | Only keys \<Rightarrow> filter_var_keys s keys vs, s)) (\<lambda>d1.
     andthen (ret (case obj_types of All \<Rightarrow> d1 | Only ts \<Rightarrow> filter (\<lambda>(k, v). k \<in> set ts) d1)) (\<lambda>d2.
     andthen (lift (log_model_type self)) (\<lambda>model_type.
     andthen (add_obj_id P model_type d2) (\<lambda>df_dict.
     if df_dict = [] then ret PNone
     else
       andthen (\<lambda>s. (case frames_of s df_dict of None \<Rightarrow> Inl Unmodelled | Some fs \<Rightarrow> concat_keys P fs, s)) (\<lambda>f.
       andthen (new_frame (f\<lparr>index_names := (index_names f)[0 := Some ''obj_type'']\<rparr>)) (\<lambda>df.
       case var_keys of
         All \<Rightarrow> ret df
       | Only keys \<Rightarrow>
           andthen (get_frame df) (\<lambda>g.
           andthen (lift (select_columns g keys)) new_frame)))))))"

definition combine_vars :: "pandas \<Rightarrow> items \<Rightarrow> filter_arg \<Rightarrow> filter_arg \<Rightarrow> obj action" where
  "combine_vars P self obj_types var_keys =
     (case map_of self ''variables'' of
        None \<Rightarrow> ret PNone
      | Some (PFrame r) \<Rightarrow> ret (PFrame r)
      | Some (PDict k vs) \<Rightarrow>
          if k = DataDict \<and> length vs = 1 then ret (snd (hd vs))
          else combine_vars_dict P self vs obj_types var_keys
      | Some _ \<Rightarrow> raise TypeError)"

subsection \<open>Combining the parameters\<close>

text \<open>
  \<^verbatim>\<open>
  def _dict_pars_to_df(self, dict_pars):
      n = self.log['sample_size'] if 'sample_size' in self.log else 1
      d = {k: [v] * n for k, v in dict_pars.items()}
      i = pd.Index(list(range(n)), name='sample_id')
      return pd.DataFrame(d, index=i)
  \<close>
  A negative \<open>n\<close> gives no rows; a \<open>sample_size\<close> that is no integer is a \<open>TypeError\<close>.
  The index is \<open>int64\<close> when it has labels and \<open>object\<close> when it is empty.
\<close>

definition log_sample_size :: "items \<Rightarrow> error + int" where
  "log_sample_size self =
     (case getattr self ''log'' of
        Inl e \<Rightarrow> Inl e
      | Inr (PDict _ lg) \<Rightarrow>
          (case map_of lg ''sample_size'' of
             None \<Rightarrow> Inr 1
           | Some v \<Rightarrow> (case int_of_obj v of None \<Rightarrow> Inl TypeError | Some n \<Rightarrow> Inr n))
      | Inr _ \<Rightarrow> Inl Unmodelled)"

definition mapping_items :: "obj \<Rightarrow> error + items" where
  "mapping_items v =
     (case v of
        PDict _ d \<Rightarrow> Inr d
      | PFrame _ \<Rightarrow> Inl Unmodelled
      | _ \<Rightarrow> Inl AttributeError)"

definition dict_pars_to_df :: "pandas \<Rightarrow> items \<Rightarrow> obj \<Rightarrow> obj action" where
  "dict_pars_to_df P self dict_pars =
     andthen (lift (log_sample_size self)) (\<lambda>n.
     andthen (lift (mapping_items dict_pars)) (\<lambda>d.
     andthen (lift (collect (map (\<lambda>(k, v). (k, column_of_list P (replicate (nat n) v))) d))) (\<lambda>cols.
     new_frame \<lparr>index_names = [Some ''sample_id''],
                index_dtypes = [if 0 < n then Int64 else Object],
                index_rows = range_index (nat n),
                data = cols\<rparr>)))"

text \<open>\<open>for k, v in constants.items(): dfp[k] = v\<close>.\<close>

fun add_constants :: "pandas \<Rightarrow> obj \<Rightarrow> items \<Rightarrow> unit action" where
  "add_constants P dfp [] = ret ()"
| "add_constants P dfp ((k, v) # cs) =
     andthen (update_frame dfp (\<lambda>f. setitem P f k v)) (\<lambda>_. add_constants P dfp cs)"

text \<open>
  \<^verbatim>\<open>
  def _combine_pars(self, sample=True, constants=True):
      if 'parameters' not in self:
          return None
      dfp = pd.DataFrame()
      if isinstance(self.parameters, DataDict):
          if sample and 'sample' in self.parameters:
              dfp = self.parameters.sample.copy()
              if constants and 'constants' in self.parameters:
                  for k, v in self.parameters.constants.items():
                      dfp[k] = v
          elif constants and 'constants' in self.parameters:
              dfp = self._dict_pars_to_df(self.parameters.constants)
      elif isinstance(self.parameters, dict) and constants:
          dfp = self._dict_pars_to_df(self.parameters)
      else:
          raise TypeError("DataDict.parameters must be a dict or DataDict.")
      if dfp is None or dfp.shape == (0, 0):
          return None
      return dfp
  \<close>
\<close>

definition none_if_empty :: "obj \<Rightarrow> obj action" where
  "none_if_empty dfp =
     andthen (get_frame dfp) (\<lambda>f. ret (if df_shape f = (0, 0) then PNone else dfp))"

definition combine_pars :: "pandas \<Rightarrow> items \<Rightarrow> bool \<Rightarrow> bool \<Rightarrow> obj action" where
  "combine_pars P self sample constants =
     (case map_of self ''parameters'' of
        None \<Rightarrow> ret PNone
      | Some parameters \<Rightarrow>
          andthen (new_frame empty_frame) (\<lambda>dfp0.
          case parameters of
            PDict DataDict ps \<Rightarrow>
              if sample \<and> map_of ps ''sample'' \<noteq> None then
                andthen (get_frame (the (map_of ps ''sample''))) (\<lambda>f.
                andthen (new_frame f) (\<lambda>dfp.
                andthen (if constants \<and> map_of ps ''constants'' \<noteq> None
                         then andthen (lift (mapping_items (the (map_of ps ''constants''))))
                                (add_constants P dfp)
                         else ret ()) (\<lambda>_.
                none_if_empty dfp)))
              else if constants \<and> map_of ps ''constants'' \<noteq> None then
                andthen (dict_pars_to_df P self (the (map_of ps ''constants''))) none_if_empty
              else none_if_empty dfp0
          | PDict _ d \<Rightarrow>
              if constants then andthen (dict_pars_to_df P self parameters) none_if_empty
              else raise TypeError
          | _ \<Rightarrow> raise TypeError))"

subsection \<open>Arranging\<close>

text \<open>
  The arguments \<open>variables\<close>, \<open>reporters\<close> and \<open>parameters\<close> are \<open>False\<close>, \<open>True\<close> or
  a selection of keys (again what \<open>make_list\<close> makes of the argument).
  \<^verbatim>\<open>
  def arrange(self, variables=False, reporters=False, parameters=False,
              obj_types=True, index=False):
      dfv = dfm = dfp = df = None
      if variables is not False:
          dfv = self._combine_vars(obj_types, variables)
      if reporters is not False:
          dfm = self.reporters
          if reporters is not True:  # Select reporter keys
              dfm = dfm[make_list(reporters)]
      if parameters is True:
          dfp = self._combine_pars(constants=False)
      elif parameters is not False:
          dfp = self._combine_pars()
          dfp = dfp[make_list(parameters)]
      if dfv is not None and dfm is not None:
          index_keys = dfv.index.names
          dfm = dfm.reset_index()
          dfv = dfv.reset_index()
          df = pd.concat([dfm, dfv])
          df = df.set_index(index_keys)
      elif dfv is not None:
          df = dfv
      elif dfm is not None:
          df = dfm
      if dfp is not None:
          if df is None:
              df = dfp
          else:  # Combine df with parameters
              if len(dfp) > 1:  # If multi run, add parameters by sample_id
                  if df is not None and isinstance(df.index, pd.MultiIndex):
                      dfp = dfp.reindex(df.index, level='sample_id')
                  df = pd.concat([df, dfp], axis=1)
              else:  # Elif single run, add parameters as columns
                  for k, v in dfp.items():
                      df[k] = v[0]
      if df is None:
          return None
      if not index:
          df = df.reset_index()
      return df
  \<close>
\<close>

datatype selector = SelFalse | SelTrue | SelKeys "string list"

text \<open>\<open>v[keys]\<close> on a value: a table gives a new table; \<open>None[keys]\<close> is a \<open>TypeError\<close>.\<close>

definition getitem_columns :: "obj \<Rightarrow> string list \<Rightarrow> obj action" where
  "getitem_columns v keys =
     (case v of
        PNone \<Rightarrow> raise TypeError
      | _ \<Rightarrow> andthen (get_frame v) (\<lambda>f. andthen (lift (select_columns f keys)) new_frame))"

text \<open>\<open>for k, v in dfp.items(): df[k] = v[0]\<close>, over the columns of \<open>dfp\<close>.\<close>

fun add_single_run :: "pandas \<Rightarrow> frame \<Rightarrow> obj \<Rightarrow> (string \<times> column) list \<Rightarrow> unit action" where
  "add_single_run P fp df [] = ret ()"
| "add_single_run P fp df ((k, t, col) # cols) =
     andthen (lift (getitem_0 P fp col)) (\<lambda>v0.
     andthen (update_frame df (\<lambda>f. setitem P f k v0)) (\<lambda>_.
     add_single_run P fp df cols))"

definition combine_with_vars :: "pandas \<Rightarrow> obj \<Rightarrow> obj \<Rightarrow> obj action" where
  "combine_with_vars P dfv dfm =
     (if dfv \<noteq> PNone \<and> dfm \<noteq> PNone then
        andthen (get_frame dfv) (\<lambda>fv.
        andthen (get_frame dfm) (\<lambda>fm.
        andthen (lift (reset_index P fm)) (\<lambda>fm'.
        andthen (new_frame fm') (\<lambda>_.
        andthen (lift (reset_index P fv)) (\<lambda>fv'.
        andthen (new_frame fv') (\<lambda>_.
        andthen (lift (concat_rows P [fm', fv'])) (\<lambda>f.
        andthen (new_frame f) (\<lambda>_.
        andthen (lift (set_index f (index_names fv))) new_frame))))))))
      else if dfv \<noteq> PNone then ret dfv
      else if dfm \<noteq> PNone then ret dfm
      else ret PNone)"

definition combine_with_pars :: "pandas \<Rightarrow> obj \<Rightarrow> obj \<Rightarrow> obj action" where
  "combine_with_pars P df dfp =
     (if dfp \<noteq> PNone then
        if df = PNone then ret dfp
        else
          andthen (get_frame dfp) (\<lambda>fp.
          if df_len fp > 1 then
            andthen (get_frame df) (\<lambda>f.
            andthen (if length (index_names f) > 1
                     then andthen (lift (reindex_level P fp f ''sample_id'')) (\<lambda>fp'.
                          andthen (new_frame fp') (\<lambda>_. ret fp'))
                     else ret fp) (\<lambda>fp'.
            andthen (lift (concat_columns P f fp')) new_frame))
          else
            andthen (add_single_run P fp df (data fp)) (\<lambda>_. ret df))
      else ret df)"

definition arrange ::
  "pandas \<Rightarrow> items \<Rightarrow> selector \<Rightarrow> selector \<Rightarrow> selector \<Rightarrow> filter_arg \<Rightarrow> bool \<Rightarrow> obj action" where
  "arrange P self variables reporters parameters obj_types index =
     andthen (case variables of
                SelFalse \<Rightarrow> ret PNone
              | SelTrue \<Rightarrow> combine_vars P self obj_types All
              | SelKeys keys \<Rightarrow> combine_vars P self obj_types (Only keys)) (\<lambda>dfv.
     andthen (case reporters of
                SelFalse \<Rightarrow> ret PNone
              | SelTrue \<Rightarrow> lift (getattr self ''reporters'')
              | SelKeys keys \<Rightarrow>
                  andthen (lift (getattr self ''reporters'')) (\<lambda>dfm. getitem_columns dfm keys)) (\<lambda>dfm.
     andthen (case parameters of
                SelTrue \<Rightarrow> combine_pars P self True False
              | SelFalse \<Rightarrow> ret PNone
              | SelKeys keys \<Rightarrow>
                  andthen (combine_pars P self True True) (\<lambda>dfp. getitem_columns dfp keys)) (\<lambda>dfp.
     andthen (combine_with_vars P dfv dfm) (\<lambda>df.
     andthen (combine_with_pars P df dfp) (\<lambda>df.
     if df = PNone then ret PNone
     else if \<not> index then andthen (get_frame df) (\<lambda>f. andthen (lift (reset_index P f)) new_frame)
     else ret df)))))"

text \<open>
  \<^verbatim>\<open>
  def arrange_reporters(self):
      return self.arrange(variables=False, reporters=True, parameters=True)
  def arrange_variables(self):
      return self.arrange(variables=True, reporters=False, parameters=True)
  \<close>
\<close>

definition arrange_reporters :: "pandas \<Rightarrow> items \<Rightarrow> obj action" where
  "arrange_reporters P self = arrange P self SelFalse SelTrue SelTrue All False"

definition arrange_variables :: "pandas \<Rightarrow> items \<Rightarrow> obj action" where
  "arrange_variables P self = arrange P self SelTrue SelFalse SelTrue All False"

section \<open>Sensitivity analysis\<close>

text \<open>
  A function body reads a name that is not one of its local variables from the globals of
  its module (then from the builtins); a name bound in neither is a \<open>NameError\<close>. A name
  bound in a class body is an attribute of the class, not a global. The module
  \<open>datadict.py\<close> binds, by its imports and definitions:
  \<^verbatim>\<open>
  import pandas as pd
  import os
  from os import listdir, makedirs
  from os.path import getmtime, join
  from .tools import AttrDict, make_list, AgentpyError
  import json
  import numpy as np
  class NpEncoder(json.JSONEncoder): ...
  def _last_exp_id(name, path): ...
  class DataDict(AttrDict): ...
  def load(exp_name=None, exp_id=None, path='ap_output', display=True): ...
  \<close>
\<close>

definition module_globals :: "string list" where
  "module_globals =
     [''pd'', ''os'', ''listdir'', ''makedirs'', ''getmtime'', ''join'', ''AttrDict'',
      ''make_list'', ''AgentpyError'', ''json'', ''np'', ''NpEncoder'', ''_last_exp_id'',
      ''DataDict'', ''load'']"

definition global_ref :: "string list \<Rightarrow> string \<Rightarrow> (unit, 's) act" where
  "global_ref G name = (if name \<in> set G then ret () else raise (NameError name))"

text \<open>
  What the names \<open>param_tuples_to_salib\<close>, \<open>sobol.analyze\<close> and \<open>output\<close> stand for in a
  module that binds them, and the tables of the second-order indices (their column labels
  are numbers and pairs, which the table model does not cover), are parameters.
\<close>

record salib =
  param_tuples_to_salib :: "items \<Rightarrow> obj"
  analyze :: "obj \<Rightarrow> column \<Rightarrow> bool \<Rightarrow> error + (string \<times> column) list"
  global_output :: items
  second_order_table :: "(string \<times> column) list \<Rightarrow> string \<Rightarrow> string list \<Rightarrow> string \<Rightarrow> error + frame"
  second_order_columns :: "frame \<Rightarrow> frame \<Rightarrow> string list \<Rightarrow> error + frame"

text \<open>\<open>pd.DataFrame(s)\<close> for a mapping of column names to arrays of one length; an
  array has its dtype.\<close>

definition frame_of_columns :: "(string \<times> column) list \<Rightarrow> error + frame" where
  "frame_of_columns cols =
     (case cols of
        [] \<Rightarrow> Inr empty_frame
      | (k, t, xs) # rest \<Rightarrow>
          if list_all (\<lambda>(k', t', ys). length ys = length xs) rest
          then Inr \<lparr>index_names = [None], index_dtypes = [Int64],
                    index_rows = range_index (length xs), data = cols\<rparr>
          else Inl ValueError)"

text \<open>
  \<^verbatim>\<open>
  def _sobol_set_df_index(df, p_keys, reporter):
      df['parameter'] = p_keys
      df['reporter'] = reporter
      df.set_index(['reporter', 'parameter'], inplace=True)
  \<close>
  It stands in the body of the class.
\<close>

definition sobol_set_df_index :: "pandas \<Rightarrow> frame \<Rightarrow> string list \<Rightarrow> string \<Rightarrow> error + frame" where
  "sobol_set_df_index P df p_keys reporter =
     (case setitem P df ''parameter'' (PList (map PStr p_keys)) of
        Inl e \<Rightarrow> Inl e
      | Inr df1 \<Rightarrow>
          (case setitem P df1 ''reporter'' (PStr reporter) of
             Inl e \<Rightarrow> Inl e
           | Inr df2 \<Rightarrow> set_index df2 [Some ''reporter'', Some ''parameter'']))"

text \<open>\<open>{k[0:2]: v for k, v in si.items() if k in keys}\<close>.\<close>

definition select_indices :: "string list \<Rightarrow> (string \<times> column) list \<Rightarrow> (string \<times> column) list" where
  "select_indices keys si =
     foldl (\<lambda>d (k, v). AList.update (take 2 k) v d) [] (filter (\<lambda>(k, v). k \<in> set keys) si)"

text \<open>
  \<^verbatim>\<open>
  for keys, dfs in zip(keyss, dfs_list[0:2]):
      s = {k[0:2]: v for k, v in si.items() if k in keys}
      df = pd.DataFrame(s)
      _sobol_set_df_index(df, p_keys, reporter)
      dfs.append(df)
  \<close>
\<close>

definition first_order_table ::
  "string list \<Rightarrow> pandas \<Rightarrow> (string \<times> column) list \<Rightarrow> string list \<Rightarrow> string list \<Rightarrow> string
     \<Rightarrow> (frame, 's) act" where
  "first_order_table G P si keys p_keys reporter =
     andthen (global_ref G ''pd'') (\<lambda>_.
     andthen (lift (frame_of_columns (select_indices keys si))) (\<lambda>df.
     andthen (global_ref G ''_sobol_set_df_index'') (\<lambda>_.
     lift (sobol_set_df_index P df p_keys reporter))))"

text \<open>The body of the loop over the reporters; the four lists of tables are \<open>dfs_list\<close>.
  \<^verbatim>\<open>
  for reporter in reporters:
      y = np.array(output.reporters[reporter])
      si = sobol.analyze(param_ranges_salib, y, calc_second_order, **kwargs)
      keyss = [['S1', 'ST'], ['S1_conf', 'ST_conf']]
      (the loop over keyss, above)
      if calc_second_order:
          for key, dfs in zip(['S2', 'S2_conf'], dfs_list[2:4]):
              df = pd.DataFrame(si[key])
              _sobol_set_df_index(df, p_keys, reporter)
              dfs.append(df)
  \<close>
\<close>

type_synonym dfs_list = "frame list \<times> frame list \<times> frame list \<times> frame list"

definition reporter_column :: "store \<Rightarrow> items \<Rightarrow> string \<Rightarrow> error + column" where
  "reporter_column s out reporter =
     (case getattr out ''reporters'' of
        Inl e \<Rightarrow> Inl e
      | Inr (PFrame r) \<Rightarrow>
          (case map_of (data (frames s r)) reporter of None \<Rightarrow> Inl KeyError | Some y \<Rightarrow> Inr y)
      | Inr _ \<Rightarrow> Inl Unmodelled)"

definition sobol_reporter ::
  "string list \<Rightarrow> salib \<Rightarrow> pandas \<Rightarrow> obj \<Rightarrow> bool \<Rightarrow> string list \<Rightarrow> dfs_list \<Rightarrow> string \<Rightarrow> dfs_list action" where
  "sobol_reporter G L P param_ranges_salib calc_second_order p_keys dfs reporter =
     andthen (global_ref G ''np'') (\<lambda>_.
     andthen (global_ref G ''output'') (\<lambda>_.
     andthen (\<lambda>s. (reporter_column s (global_output L) reporter, s)) (\<lambda>y.
     andthen (global_ref G ''sobol'') (\<lambda>_.
     andthen (lift (analyze L param_ranges_salib y calc_second_order)) (\<lambda>si.
     andthen (first_order_table G P si [''S1'', ''ST''] p_keys reporter) (\<lambda>df0.
     andthen (first_order_table G P si [''S1_conf'', ''ST_conf''] p_keys reporter) (\<lambda>df1.
     case dfs of (dfs0, dfs1, dfs2, dfs3) \<Rightarrow>
       if calc_second_order then
         andthen (lift (second_order_table L si ''S2'' p_keys reporter)) (\<lambda>df2.
         andthen (lift (second_order_table L si ''S2_conf'' p_keys reporter)) (\<lambda>df3.
         ret (dfs0 @ [df0], dfs1 @ [df1], dfs2 @ [df2], dfs3 @ [df3])))
       else ret (dfs0 @ [df0], dfs1 @ [df1], dfs2, dfs3))))))))"

fun sobol_reporters ::
  "string list \<Rightarrow> salib \<Rightarrow> pandas \<Rightarrow> obj \<Rightarrow> bool \<Rightarrow> string list \<Rightarrow> dfs_list \<Rightarrow> string list \<Rightarrow> dfs_list action" where
  "sobol_reporters G L P problem calc_second_order p_keys dfs [] = ret dfs"
| "sobol_reporters G L P problem calc_second_order p_keys dfs (reporter # reporters) =
     andthen (sobol_reporter G L P problem calc_second_order p_keys dfs reporter) (\<lambda>dfs'.
     sobol_reporters G L P problem calc_second_order p_keys dfs' reporters)"

text \<open>
  \<^verbatim>\<open>
  def calc_sobol(self, param_ranges, reporters=None,
                       calc_second_order=False, **kwargs):
      # STEP 1 - Convert param_ranges to SALib Format
      param_ranges_tuples = {k: v for k, v in param_ranges.items()
                             if isinstance(v, tuple)}
      param_ranges_salib = param_tuples_to_salib(param_ranges_tuples)
      # STEP 2 - Calculate Sobol Sensitivity Indices
      if reporters is None:
          reporters = output.reporters.columns
      if isinstance(reporters, str):
          reporters = [reporters]
      p_keys = output._combine_pars(sample=True, constants=False).keys()
      dfs_list = [[] for _ in range(4 if calc_second_order else 2)]
      for reporter in reporters:
          (the body above)
      # Combine dataframes for each reporter
      output['sensitivity'] = pd.concat(dfs_list[0])
      output['sensitivity_conf'] = pd.concat(dfs_list[1])
      if calc_second_order:
          dfs_si = [output['sensitivity'], pd.concat(dfs_list[2])]
          dfs_si_conf = [output['sensitivity_conf'], pd.concat(dfs_list[3])]
          output['sensitivity'] = pd.concat(dfs_si, axis=1)
          output['sensitivity_conf'] = pd.concat(dfs_si_conf, axis=1)
          (the column labels become pairs of order and parameter)
      return output
  \<close>
  \<open>G\<close> are the names the module binds. The method never reads \<open>self\<close>: the record it
  works on is the global \<open>output\<close>.
\<close>

definition reporter_names :: "string list \<Rightarrow> salib \<Rightarrow> obj \<Rightarrow> string list action" where
  "reporter_names G L reporters =
     (case reporters of
        PNone \<Rightarrow>
          andthen (global_ref G ''output'') (\<lambda>_.
          andthen (lift (getattr (global_output L) ''reporters'')) (\<lambda>v.
          andthen (get_frame v) (\<lambda>f. ret (column_names f))))
      | PStr r \<Rightarrow> ret [r]
      | PList rs \<Rightarrow>
          if list_all (\<lambda>v. case v of PStr _ \<Rightarrow> True | _ \<Rightarrow> False) rs
          then ret (map (\<lambda>v. case v of PStr r \<Rightarrow> r | _ \<Rightarrow> []) rs)
          else raise Unmodelled
      | _ \<Rightarrow> raise Unmodelled)"

definition parameter_keys :: "pandas \<Rightarrow> salib \<Rightarrow> string list action" where
  "parameter_keys P L =
     andthen (combine_pars P (global_output L) True False) (\<lambda>dfp.
     case dfp of
       PNone \<Rightarrow> raise AttributeError
     | _ \<Rightarrow> andthen (get_frame dfp) (\<lambda>f. ret (column_names f)))"

definition calc_sobol ::
  "string list \<Rightarrow> salib \<Rightarrow> pandas \<Rightarrow> items \<Rightarrow> items \<Rightarrow> obj \<Rightarrow> bool \<Rightarrow> items action" where
  "calc_sobol G L P self param_ranges reporters calc_second_order =
     andthen (global_ref G ''param_tuples_to_salib'') (\<lambda>_.
     andthen (reporter_names G L reporters) (\<lambda>reporters'.
     andthen (global_ref G ''output'') (\<lambda>_.
     andthen (parameter_keys P L) (\<lambda>p_keys.
     andthen (sobol_reporters G L P
                (param_tuples_to_salib L (filter (\<lambda>(k, v). is_tuple v) param_ranges))
                calc_second_order p_keys ([], [], [], []) reporters') (\<lambda>dfs.
     case dfs of (dfs0, dfs1, dfs2, dfs3) \<Rightarrow>
       andthen (global_ref G ''pd'') (\<lambda>_.
       andthen (lift (concat_rows P dfs0)) (\<lambda>sens.
       andthen (lift (concat_rows P dfs1)) (\<lambda>conf.
       andthen (if calc_second_order
                then andthen (lift (concat_rows P dfs2)) (\<lambda>s2.
                     andthen (lift (concat_rows P dfs3)) (\<lambda>s2_conf.
                     andthen (lift (second_order_columns L sens s2 p_keys)) (\<lambda>sens'.
                     andthen (lift (second_order_columns L conf s2_conf p_keys)) (\<lambda>conf'.
                     ret (sens', conf')))))
                else ret (sens, conf)) (\<lambda>(sens', conf').
       andthen (new_frame sens') (\<lambda>sensitivity.
       andthen (new_frame conf') (\<lambda>sensitivity_conf.
       ret (AList.update ''sensitivity_conf'' sensitivity_conf
              (AList.update ''sensitivity'' sensitivity (global_output L))))))))))))))"

section \<open>Saving and loading\<close>

subsection \<open>Writing and reading files\<close>

fun empty_dirs :: "string list \<Rightarrow> 'c node" where
  "empty_dirs [] = Dir []"
| "empty_dirs (c # cs) = Dir [(c, empty_dirs cs)]"

text \<open>\<open>os.makedirs(path)\<close>: the directory and the missing ones above it are created; a
  path that exists is a \<open>FileExistsError\<close>.\<close>

fun mkdirs :: "'c node \<Rightarrow> string list \<Rightarrow> error + 'c node" where
  "mkdirs n [] = Inl FileExistsError"
| "mkdirs (File _) (c # cs) = Inl NotADirectoryError"
| "mkdirs (Dir es) (c # cs) =
     (case map_of es c of
        None \<Rightarrow> Inr (Dir (es @ [(c, empty_dirs cs)]))
      | Some n \<Rightarrow>
          (case mkdirs n cs of
             Inl e \<Rightarrow> Inl e
           | Inr n' \<Rightarrow> Inr (Dir (AList.update c n' es))))"

definition makedirs :: "string \<Rightarrow> (unit, 'c node) act" where
  "makedirs path =
     (\<lambda>fs. if path = [] then (Inl FileNotFoundError, fs)
           else case mkdirs fs (components path) of
                  Inl e \<Rightarrow> (Inl e, fs)
                | Inr fs' \<Rightarrow> (Inr (), fs'))"

text \<open>Opening a file for writing and writing \<open>c\<close>: the directory must exist; the file is
  created, or replaced where it stands.\<close>

fun write_at :: "'c node \<Rightarrow> string list \<Rightarrow> 'c \<Rightarrow> error + 'c node" where
  "write_at n [] c = Inl IsADirectoryError"
| "write_at (File _) (x # xs) c = Inl NotADirectoryError"
| "write_at (Dir es) [x] c =
     (case map_of es x of
        Some (Dir _) \<Rightarrow> Inl IsADirectoryError
      | _ \<Rightarrow> Inr (Dir (AList.update x (File c) es)))"
| "write_at (Dir es) (x # y # ys) c =
     (case map_of es x of
        None \<Rightarrow> Inl FileNotFoundError
      | Some n \<Rightarrow>
          (case write_at n (y # ys) c of
             Inl e \<Rightarrow> Inl e
           | Inr n' \<Rightarrow> Inr (Dir (AList.update x n' es))))"

definition write_file :: "string \<Rightarrow> 'c \<Rightarrow> (unit, 'c node) act" where
  "write_file path c =
     (\<lambda>fs. if path = [] then (Inl FileNotFoundError, fs)
           else case write_at fs (components path) c of
                  Inl e \<Rightarrow> (Inl e, fs)
                | Inr fs' \<Rightarrow> (Inr (), fs'))"

text \<open>\<open>os.remove(path)\<close>.\<close>

fun remove_at :: "'c node \<Rightarrow> string list \<Rightarrow> error + 'c node" where
  "remove_at n [] = Inl IsADirectoryError"
| "remove_at (File _) (x # xs) = Inl NotADirectoryError"
| "remove_at (Dir es) [x] =
     (case map_of es x of
        None \<Rightarrow> Inl FileNotFoundError
      | Some (Dir _) \<Rightarrow> Inl IsADirectoryError
      | Some (File _) \<Rightarrow> Inr (Dir (AList.delete x es)))"
| "remove_at (Dir es) (x # y # ys) =
     (case map_of es x of
        None \<Rightarrow> Inl FileNotFoundError
      | Some n \<Rightarrow>
          (case remove_at n (y # ys) of
             Inl e \<Rightarrow> Inl e
           | Inr n' \<Rightarrow> Inr (Dir (AList.update x n' es))))"

definition remove_file :: "string \<Rightarrow> (unit, 'c node) act" where
  "remove_file path =
     (\<lambda>fs. if path = [] then (Inl FileNotFoundError, fs)
           else case remove_at fs (components path) of
                  Inl e \<Rightarrow> (Inl e, fs)
                | Inr fs' \<Rightarrow> (Inr (), fs'))"

definition read_file :: "'c node \<Rightarrow> string \<Rightarrow> error + 'c" where
  "read_file fs path =
     (if path = [] then Inl FileNotFoundError
      else case lookup fs (components path) of
             None \<Rightarrow> Inl FileNotFoundError
           | Some (Dir _) \<Rightarrow> Inl IsADirectoryError
           | Some (File c) \<Rightarrow> Inr c)"

subsection \<open>JSON\<close>

text \<open>
  \<open>json.dump(o, fp, cls=NpEncoder)\<close>: tuples are written as arrays like lists, every
  mapping as an object; a table is not serialisable (\<open>None\<close> stands for the \<open>TypeError\<close>).
  \<open>json.load\<close> reads arrays as lists and objects as plain mappings.
\<close>

definition those_items :: "(string \<times> 'a option) list \<Rightarrow> (string \<times> 'a) list option" where
  "those_items d = those (map (\<lambda>(k, v). map_option (Pair k) v) d)"

primrec to_json :: "obj \<Rightarrow> json option" where
  "to_json PNone = Some JNull"
| "to_json (PBool b) = Some (JBool b)"
| "to_json (PInt i) = Some (JInt i)"
| "to_json (PStr x) = Some (JStr x)"
| "to_json (PList xs) = map_option JArr (those (map to_json xs))"
| "to_json (PTuple xs) = map_option JArr (those (map to_json xs))"
| "to_json (PDict k d) = map_option JObj (those_items (map (map_prod id to_json) d))"
| "to_json (PFrame r) = None"

primrec of_json :: "json \<Rightarrow> obj" where
  "of_json JNull = PNone"
| "of_json (JBool b) = PBool b"
| "of_json (JInt i) = PInt i"
| "of_json (JStr x) = PStr x"
| "of_json (JArr js) = PList (map of_json js)"
| "of_json (JObj d) = PDict PlainDict (map (map_prod id of_json) d)"

text \<open>\<open>with open(path, 'w') as fp: json.dump(o, fp, cls=NpEncoder)\<close>: when the value is
  not serialisable, the file is left with what was written before the \<open>TypeError\<close>.\<close>

definition dump_json :: "string \<Rightarrow> obj \<Rightarrow> (unit, content node) act" where
  "dump_json path v =
     (case to_json v of
        Some j \<Rightarrow> write_file path (JsonOf j)
      | None \<Rightarrow> andthen (write_file path Partial) (\<lambda>_. raise TypeError))"

subsection \<open>Saving\<close>

text \<open>
  \<^verbatim>\<open>
  def save(self, exp_name=None, exp_id=None, path='ap_output', display=True):
      # Create output directory if it doesn't exist
      if path not in listdir():
          makedirs(path)
      if exp_name is None:
          if 'log' in self and 'model_type' in self.log:
              exp_name = self.log['model_type']
          else:
              exp_name = 'Unnamed'
      exp_name = exp_name.replace(" ", "_")
      if exp_id is None:
          exp_id = _last_exp_id(exp_name, path) + 1
      path = f'{path}/{exp_name}_{exp_id}'
      makedirs(path)
      for key, output in self.items():
          if isinstance(output, pd.DataFrame):
              output.to_csv(f'{path}/{key}.csv')
          elif isinstance(output, DataDict):
              for k, o in output.items():
                  if isinstance(o, pd.DataFrame):
                      o.to_csv(f'{path}/{key}_{k}.csv')
                  elif isinstance(o, dict):
                      with open(f'{path}/{key}_{k}.json', 'w') as fp:
                          json.dump(o, fp, cls=NpEncoder)
          else:  # Use JSON for other object types
              try:
                  with open(f'{path}/{key}.json', 'w') as fp:
                      json.dump(output, fp, cls=NpEncoder)
              except TypeError as e:
                  print(...)
                  os.remove(f'{path}/{key}.json')
  \<close>
  Printing is left out.
\<close>

definition default_exp_name :: "items \<Rightarrow> error + string" where
  "default_exp_name self =
     (case map_of self ''log'' of
        None \<Rightarrow> Inr ''Unnamed''
      | Some (PDict _ lg) \<Rightarrow>
          (case map_of lg ''model_type'' of
             None \<Rightarrow> Inr ''Unnamed''
           | Some (PStr m) \<Rightarrow> Inr m
           | Some (PFrame _) \<Rightarrow> Inl Unmodelled
           | Some _ \<Rightarrow> Inl AttributeError)
      | Some _ \<Rightarrow> Inl Unmodelled)"

definition exp_dir :: "string \<Rightarrow> string \<Rightarrow> int \<Rightarrow> string" where
  "exp_dir path exp_name exp_id = path @ ''/'' @ exp_name @ ''_'' @ str_int exp_id"

fun save_children :: "store \<Rightarrow> string \<Rightarrow> string \<Rightarrow> items \<Rightarrow> (unit, content node) act" where
  "save_children s path key [] = ret ()"
| "save_children s path key ((k, v) # rest) =
     andthen (case v of
                PFrame r \<Rightarrow> write_file (path @ ''/'' @ key @ ''_'' @ k @ ''.csv'') (CsvOf (frames s r))
              | PDict _ _ \<Rightarrow> dump_json (path @ ''/'' @ key @ ''_'' @ k @ ''.json'') v
              | _ \<Rightarrow> ret ())
       (\<lambda>_. save_children s path key rest)"

definition save_entry :: "store \<Rightarrow> string \<Rightarrow> string \<Rightarrow> obj \<Rightarrow> (unit, content node) act" where
  "save_entry s path key output =
     (case output of
        PFrame r \<Rightarrow> write_file (path @ ''/'' @ key @ ''.csv'') (CsvOf (frames s r))
      | PDict DataDict d \<Rightarrow> save_children s path key d
      | _ \<Rightarrow>
          (\<lambda>fs. case dump_json (path @ ''/'' @ key @ ''.json'') output fs of
                  (Inl TypeError, fs') \<Rightarrow> remove_file (path @ ''/'' @ key @ ''.json'') fs'
                | res \<Rightarrow> res))"

fun save_entries :: "store \<Rightarrow> string \<Rightarrow> items \<Rightarrow> (unit, content node) act" where
  "save_entries s path [] = ret ()"
| "save_entries s path ((key, output) # rest) =
     andthen (save_entry s path key output) (\<lambda>_. save_entries s path rest)"

definition save :: "store \<Rightarrow> items \<Rightarrow> string option \<Rightarrow> int option \<Rightarrow> string \<Rightarrow> (unit, content node) act" where
  "save s self exp_name exp_id path =
     andthen (\<lambda>fs. if path \<in> set (listdir_cwd fs) then (Inr (), fs) else makedirs path fs) (\<lambda>_.
     andthen (lift (case exp_name of None \<Rightarrow> default_exp_name self | Some n \<Rightarrow> Inr n)) (\<lambda>name.
     andthen (case exp_id of
                Some i \<Rightarrow> ret i
              | None \<Rightarrow>
                  (\<lambda>fs. (case last_exp_id fs (replace '' '' ''_'' name) path of
                          Inl e \<Rightarrow> Inl e
                        | Inr i \<Rightarrow> Inr (i + 1), fs))) (\<lambda>i.
     andthen (makedirs (exp_dir path (replace '' '' ''_'' name) i)) (\<lambda>_.
     save_entries s (exp_dir path (replace '' '' ''_'' name) i) self))))"

subsection \<open>Loading\<close>

text \<open>
  \<^verbatim>\<open>
  def load_file(path, file, display):
      i_cols = ['sample_id', 'iteration', 'obj_id', 't']
      ext = file.split(".")[-1]
      path = path + file
      try:
          if ext == 'csv':
              obj = pd.read_csv(path) # Convert .csv into DataFrane
              index = [i for i in i_cols if i in obj.columns]
              if index:  # Set potential index columns
                  obj = obj.set_index(index)
          elif ext == 'json':
              with open(path, 'r') as fp:
                  obj = json.load(fp)
              if isinstance(obj, dict):
                  obj = AttrDict(obj)
          else:
              raise ValueError(f"File type '{ext}' not supported")
          return obj
      except Exception as e:
          print(f'Error: {e}')
  \<close>
  What \<open>pd.read_csv\<close> makes of a file is the library's; \<open>json.load\<close> gives back the
  value of a file that \<open>json.dump\<close> wrote and is the library's on any other file.
\<close>

definition i_cols :: "string list" where
  "i_cols = [''sample_id'', ''iteration'', ''obj_id'', ''t'']"

definition parse_file :: "pandas \<Rightarrow> content node \<Rightarrow> string \<Rightarrow> string \<Rightarrow> error + (frame + obj)" where
  "parse_file P fs path file =
     (let ext = last (split_on CHR ''.'' file) in
      if ext = ''csv'' then
        (case read_file fs (path @ file) of
           Inl e \<Rightarrow> Inl e
         | Inr c \<Rightarrow>
             (case read_csv P c of
                Inl e \<Rightarrow> Inl e
              | Inr f \<Rightarrow>
                  (let index = filter (\<lambda>i. i \<in> set (column_names f)) i_cols in
                   if index \<noteq> [] then map_sum id Inl (set_index f (map Some index))
                   else Inr (Inl f))))
      else if ext = ''json'' then
        (case read_file fs (path @ file) of
           Inl e \<Rightarrow> Inl e
         | Inr c \<Rightarrow>
             (case (case c of JsonOf j \<Rightarrow> Inr (of_json j) | _ \<Rightarrow> json_load_other P c) of
                Inl e \<Rightarrow> Inl e
              | Inr (PDict _ d) \<Rightarrow> Inr (Inr (PDict AttrDict d))
              | Inr v \<Rightarrow> Inr (Inr v)))
      else Inl ValueError)"

definition load_file :: "pandas \<Rightarrow> content node \<Rightarrow> string \<Rightarrow> string \<Rightarrow> obj action" where
  "load_file P fs path file =
     (case parse_file P fs path file of
        Inl e \<Rightarrow> ret PNone
      | Inr (Inl f) \<Rightarrow> new_frame f
      | Inr (Inr v) \<Rightarrow> ret v)"

text \<open>
  \<^verbatim>\<open>
  for file in listdir(path):
      if 'variables_' in file:
          if 'variables' not in self:
              self['variables'] = DataDict()
          ext = file.split(".")[-1]
          key = file[:-(len(ext) + 1)].replace('variables_', '')
          self['variables'][key] = load_file(path, file, display)
      elif 'parameters_' in file:
          ext = file.split(".")[-1]
          key = file[:-(len(ext) + 1)].replace('parameters_', '')
          if 'parameters' not in self:
              self['parameters'] = DataDict()
          self['parameters'][key] = load_file(path, file, display)
      else:
          ext = file.split(".")[-1]
          key = file[:-(len(ext) + 1)]
          self[key] = load_file(path, file, display)
  return self
  \<close>
\<close>

definition file_key :: "string \<Rightarrow> string" where
  "file_key file = take (length file - (length (last (split_on CHR ''.'' file)) + 1)) file"

text \<open>\<open>self[section][key] = v\<close>.\<close>

definition setitem_child :: "pandas \<Rightarrow> items \<Rightarrow> string \<Rightarrow> string \<Rightarrow> obj \<Rightarrow> items action" where
  "setitem_child P self section key v =
     (case map_of self section of
        None \<Rightarrow> raise KeyError
      | Some (PDict kind d) \<Rightarrow> ret (AList.update section (PDict kind (AList.update key v d)) self)
      | Some (PFrame r) \<Rightarrow> andthen (update_frame (PFrame r) (\<lambda>f. setitem P f key v)) (\<lambda>_. ret self)
      | Some _ \<Rightarrow> raise TypeError)"

definition with_section :: "string \<Rightarrow> items \<Rightarrow> items" where
  "with_section section self =
     (if map_of self section = None then AList.update section (PDict DataDict []) self else self)"

definition load_step :: "pandas \<Rightarrow> content node \<Rightarrow> string \<Rightarrow> items \<Rightarrow> string \<Rightarrow> items action" where
  "load_step P fs path self file =
     (if sublist ''variables_'' file then
        andthen (load_file P fs path file) (\<lambda>v.
        setitem_child P (with_section ''variables'' self) ''variables''
          (replace ''variables_'' [] (file_key file)) v)
      else if sublist ''parameters_'' file then
        andthen (load_file P fs path file) (\<lambda>v.
        setitem_child P (with_section ''parameters'' self) ''parameters''
          (replace ''parameters_'' [] (file_key file)) v)
      else
        andthen (load_file P fs path file) (\<lambda>v.
        ret (AList.update (file_key file) v self)))"

fun load_files :: "pandas \<Rightarrow> content node \<Rightarrow> string \<Rightarrow> items \<Rightarrow> string list \<Rightarrow> items action" where
  "load_files P fs path self [] = ret self"
| "load_files P fs path self (file # files) =
     andthen (load_step P fs path self file) (\<lambda>self'. load_files P fs path self' files)"

text \<open>
  \<^verbatim>\<open>
  if exp_name is None:
      # Choose latest modified experiment
      exp_names = listdir(path)
      paths = [join(path, d) for d in exp_names]
      latest_exp = exp_names[paths.index(max(paths, key=getmtime))]
      exp_name = latest_exp.rsplit('_', 1)[0]
  exp_name = exp_name.replace(" ", "_")
  if not exp_id:
      exp_id = _last_exp_id(exp_name, path)
      if exp_id == 0:
          raise FileNotFoundError(...)
  path = f'{path}/{exp_name}_{exp_id}/'
  \<close>
  The modification times are a parameter, \<open>getmtime\<close>.
\<close>

definition join :: "string \<Rightarrow> string \<Rightarrow> string" where
  "join path d =
     (if path = [] then d
      else if last path = CHR ''/'' then path @ d
      else path @ ''/'' @ d)"

fun max_by :: "('a \<Rightarrow> int) \<Rightarrow> 'a \<Rightarrow> 'a list \<Rightarrow> 'a" where
  "max_by key best [] = best"
| "max_by key best (x # xs) = max_by key (if key best < key x then x else best) xs"

fun index_of :: "'a \<Rightarrow> 'a list \<Rightarrow> nat" where
  "index_of x [] = 0"
| "index_of x (y # ys) = (if x = y then 0 else Suc (index_of x ys))"

text \<open>\<open>s.rsplit('_', 1)[0]\<close>: what stands before the last \<open>_\<close>, or all of \<open>s\<close>.\<close>

definition rsplit_head :: "string \<Rightarrow> string" where
  "rsplit_head s =
     (if CHR ''_'' \<in> set s then rev (tl (dropWhile (\<lambda>c. c \<noteq> CHR ''_'') (rev s))) else s)"

definition latest_exp_name :: "(string \<Rightarrow> int) \<Rightarrow> 'c node \<Rightarrow> string \<Rightarrow> error + string" where
  "latest_exp_name getmtime fs path =
     (case listdir fs path of
        Inl e \<Rightarrow> Inl e
      | Inr exp_names \<Rightarrow>
          (let paths = map (join path) exp_names in
           if paths = [] then Inl ValueError
           else Inr (rsplit_head
                  (exp_names ! index_of (max_by getmtime (hd paths) (tl paths)) paths))))"

definition load_from ::
  "pandas \<Rightarrow> (string \<Rightarrow> int) \<Rightarrow> content node \<Rightarrow> items \<Rightarrow> string option \<Rightarrow> int option \<Rightarrow> string
     \<Rightarrow> items action" where
  "load_from P getmtime fs self exp_name exp_id path =
     andthen (lift (case exp_name of
                      None \<Rightarrow> latest_exp_name getmtime fs path
                    | Some n \<Rightarrow> Inr n)) (\<lambda>name.
     andthen (lift (if exp_id = None \<or> exp_id = Some 0
                    then (case last_exp_id fs (replace '' '' ''_'' name) path of
                            Inl e \<Rightarrow> Inl e
                          | Inr i \<Rightarrow> if i = 0 then Inl FileNotFoundError else Inr i)
                    else Inr (the exp_id))) (\<lambda>i.
     andthen (lift (listdir fs (exp_dir path (replace '' '' ''_'' name) i @ ''/''))) (\<lambda>files.
     load_files P fs (exp_dir path (replace '' '' ''_'' name) i @ ''/'') self files)))"

text \<open>\<open>load(...)\<close> is \<open>DataDict()._load(...)\<close>.\<close>

definition load ::
  "pandas \<Rightarrow> (string \<Rightarrow> int) \<Rightarrow> content node \<Rightarrow> string option \<Rightarrow> int option \<Rightarrow> string \<Rightarrow> items action" where
  "load P getmtime fs exp_name exp_id path = load_from P getmtime fs [] exp_name exp_id path"

section \<open>Reading results\<close>

text \<open>The table an action returns, read in the store the action leaves.\<close>

definition returned_frame :: "obj action \<Rightarrow> store \<Rightarrow> frame option" where
  "returned_frame m s = (case m s of (Inr (PFrame r), s') \<Rightarrow> Some (frames s' r) | _ \<Rightarrow> None)"

text \<open>A library whose open operations all raise.\<close>

definition plain_pandas :: pandas where
  "plain_pandas =
     \<lparr>concat_rows = (\<lambda>_. Inl Unmodelled),
      concat_keys = (\<lambda>_. Inl Unmodelled),
      concat_columns_unaligned = (\<lambda>_ _. Inl Unmodelled),
      reindex_level = (\<lambda>_ _ _. Inl Unmodelled),
      setitem_other = (\<lambda>_ _ _. Inl Unmodelled),
      make_column = (\<lambda>_. Inl Unmodelled),
      convert_objects = (\<lambda>_. Inl Unmodelled),
      series_getitem = (\<lambda>_ _ _. Inl Unmodelled),
      read_csv = (\<lambda>_. Inl Unmodelled),
      json_load_other = (\<lambda>_. Inl Unmodelled)\<rparr>"

section \<open>The scenario of a sampled experiment\<close>

text \<open>
  A record with \<open>log.sample_size = 4\<close>, \<open>parameters.sample\<close> a table of four rows of the
  parameter \<open>x\<close>, \<open>parameters.constants = {y: c}\<close>, and \<open>reporters\<close> a table of four rows
  with the column \<open>out\<close>; both tables are indexed by \<open>sample_id = 0 .. 3\<close>. The sample
  table is at address \<open>0\<close>, the reporters at \<open>1\<close>; the two columns are given with
  their dtypes.
\<close>

definition scenario_store :: "column \<Rightarrow> column \<Rightarrow> store" where
  "scenario_store xs outs =
     \<lparr>frames = (\<lambda>_. empty_frame)
        (0 := \<lparr>index_names = [Some ''sample_id''], index_dtypes = [Int64],
               index_rows = range_index 4, data = [(''x'', xs)]\<rparr>,
         1 := \<lparr>index_names = [Some ''sample_id''], index_dtypes = [Int64],
               index_rows = range_index 4, data = [(''out'', outs)]\<rparr>),
      lim = 2\<rparr>"

definition scenario_record :: "obj \<Rightarrow> items" where
  "scenario_record c =
     [(''log'', PDict PlainDict [(''sample_size'', PInt 4)]),
      (''parameters'', PDict DataDict [(''sample'', PFrame 0),
                                       (''constants'', PDict PlainDict [(''y'', c)])]),
      (''reporters'', PFrame 1)]"

section \<open>Notions used in the statements\<close>

text \<open>An action keeps the table at \<open>r\<close>: run in a store where \<open>r\<close> is allocated, it leaves
  that table as it was and frees nothing.\<close>

definition keeps :: "ref \<Rightarrow> 'a action \<Rightarrow> bool" where
  "keeps r m \<longleftrightarrow> (\<forall>s. r < lim s \<longrightarrow> frames (snd (m s)) r = frames s r \<and> lim s \<le> lim (snd (m s)))"


text \<open>
  Two values of one key are equal for the record's \<open>==\<close>: tables by \<open>equals\<close> (the
  same shape, labels and dtypes, and equal cells), everything else by Python's \<open>==\<close>. The record \<open>a\<close> is covered by \<open>b\<close> when every
  key of \<open>a\<close> is a key of \<open>b\<close> with an equal value.
\<close>

definition values_equal :: "store \<Rightarrow> obj \<Rightarrow> obj \<Rightarrow> bool" where
  "values_equal s v w =
     (case v of
        PFrame r \<Rightarrow>
          (case w of PFrame r' \<Rightarrow> frame_equals (frames s r) (frames s r') = Inr True | _ \<Rightarrow> False)
      | _ \<Rightarrow> py_eq s v w = Inr True)"

definition covered_by :: "store \<Rightarrow> items \<Rightarrow> items \<Rightarrow> bool" where
  "covered_by s a b =
     list_all (\<lambda>(key, item). case map_of b key of None \<Rightarrow> False | Some w \<Rightarrow> values_equal s item w) a"

text \<open>A scalar is a value that \<open>df[k] = v\<close> broadcasts with a dtype of the model:
  \<open>None\<close>, a boolean, an integer of 64 bits or a string.\<close>

definition scalar :: "obj \<Rightarrow> bool" where
  "scalar v = (scalar_dtype v \<noteq> None)"

text \<open>The table \<open>f\<close> after every constant of \<open>cs\<close> has been broadcast into a column of it,
  in the order of \<open>cs\<close>.\<close>

definition broadcast_all :: "frame \<Rightarrow> items \<Rightarrow> frame" where
  "broadcast_all f cs =
     foldl (\<lambda>f (k, v). set_column f k (the (scalar_dtype v), replicate (df_len f) v)) f cs"

section \<open>A record with the variables of two object types\<close>





section \<open>Three tables with the same cells\<close>

text \<open>Each table has one row, labelled \<open>0\<close>, and the column \<open>n\<close> with the cell \<open>1\<close>.
  The column is \<open>int64\<close> in the tables at the addresses \<open>0\<close> and \<open>2\<close>, and \<open>object\<close> in
  the table at \<open>1\<close>.\<close>

definition one_cell_frame :: "dtype \<Rightarrow> frame" where
  "one_cell_frame t =
     \<lparr>index_names = [None], index_dtypes = [Int64], index_rows = [[PInt 0]],
      data = [(''n'', (t, [PInt 1]))]\<rparr>"

definition three_tables_store :: store where
  "three_tables_store =
     \<lparr>frames = (\<lambda>_. empty_frame)
        (0 := one_cell_frame Int64, 1 := one_cell_frame Object, 2 := one_cell_frame Int64),
      lim = 3\<rparr>"

section \<open>Notions for the round trip through save and load\<close>

subsection \<open>The files of a record\<close>

text \<open>
  Writing a list of files into one directory, and the files \<open>save\<close> writes for an entry
  whose values are serialisable: one CSV file for a table, one JSON file for another
  value, and for a nested record one file for each child that is a table or a mapping.
\<close>

definition write_files :: "string \<Rightarrow> (string \<times> content) list \<Rightarrow> (unit, content node) act" where
  "write_files dir files = foldr (\<lambda>(f, c) m. andthen (write_file (dir @ ''/'' @ f) c) (\<lambda>_. m)) files (ret ())"

definition child_files :: "store \<Rightarrow> string \<Rightarrow> items \<Rightarrow> (string \<times> content) list" where
  "child_files s key d =
     concat (map (\<lambda>(k, v). case v of
                     PFrame a \<Rightarrow> [(key @ ''_'' @ k @ ''.csv'', CsvOf (frames s a))]
                   | PDict _ _ \<Rightarrow> (case to_json v of
                                    Some j \<Rightarrow> [(key @ ''_'' @ k @ ''.json'', JsonOf j)]
                                  | None \<Rightarrow> [])
                   | _ \<Rightarrow> []) d)"

definition entry_files :: "store \<Rightarrow> string \<times> obj \<Rightarrow> (string \<times> content) list" where
  "entry_files s e =
     (case e of (key, v) \<Rightarrow>
        (case v of
           PFrame a \<Rightarrow> [(key @ ''.csv'', CsvOf (frames s a))]
         | PDict kind d \<Rightarrow>
             if kind = DataDict then child_files s key d
             else (case to_json v of Some j \<Rightarrow> [(key @ ''.json'', JsonOf j)] | None \<Rightarrow> [])
         | _ \<Rightarrow> (case to_json v of Some j \<Rightarrow> [(key @ ''.json'', JsonOf j)] | None \<Rightarrow> [])))"

text \<open>The files of a directory that hold the given contents, as read at \<open>dir @ name\<close>.\<close>

definition readable :: "content node \<Rightarrow> string \<Rightarrow> (string \<times> content) list \<Rightarrow> bool" where
  "readable fs dir files = list_all (\<lambda>(f, c). read_file fs (dir @ f) = Inr c) files"

text \<open>
  What \<open>load\<close> makes of a file name: the top-level key it stores under, and the key
  inside the section for a file of \<open>variables_\<close> or \<open>parameters_\<close>.
\<close>

definition owner :: "string \<Rightarrow> string" where
  "owner f =
     (if sublist ''variables_'' f then ''variables''
      else if sublist ''parameters_'' f then ''parameters''
      else file_key f)"

definition child_key_of :: "string \<Rightarrow> string" where
  "child_key_of f =
     (if sublist ''variables_'' f then replace ''variables_'' [] (file_key f)
      else replace ''parameters_'' [] (file_key f))"

definition file_name_ok :: "string \<Rightarrow> bool" where
  "file_name_ok f \<longleftrightarrow> CHR ''/'' \<notin> set f \<and> f \<noteq> []"

subsection \<open>Records that can be stored\<close>

text \<open>
  JSON data: \<open>None\<close>, booleans, integers, strings, lists of JSON data, and plain mappings
  (not \<open>DataDict\<close>) of JSON data with distinct keys. Tuples are left out: JSON reads them
  back as lists.
\<close>

primrec json_stable :: "obj \<Rightarrow> bool" where
  "json_stable PNone = True"
| "json_stable (PBool b) = True"
| "json_stable (PInt i) = True"
| "json_stable (PStr x) = True"
| "json_stable (PList xs) = list_all (\<lambda>b. b) (map json_stable xs)"
| "json_stable (PTuple xs) = False"
| "json_stable (PDict k d) =
     (k \<noteq> DataDict \<and> distinct (map fst d) \<and> list_all (\<lambda>(key, b). b) (map (map_prod id json_stable) d))"
| "json_stable (PFrame r) = False"

text \<open>
  What \<open>load_file\<close> gives for the CSV file of a table \<open>f\<close> (the parsed table, indexed
  by those of \<open>sample_id\<close>, \<open>iteration\<close>, \<open>obj_id\<close>, \<open>t\<close> that are among its columns), and
  for the JSON file of a value (a mapping comes back as an \<open>AttrDict\<close>).
\<close>

definition read_back :: "pandas \<Rightarrow> frame \<Rightarrow> error + frame" where
  "read_back P f =
     (case read_csv P (CsvOf f) of
        Inl e \<Rightarrow> Inl e
      | Inr g \<Rightarrow>
          (let index = filter (\<lambda>i. i \<in> set (column_names g)) i_cols in
           if index \<noteq> [] then set_index g (map Some index) else Inr g))"

definition json_back :: "obj \<Rightarrow> obj" where
  "json_back v =
     (case to_json v of
        None \<Rightarrow> PNone
      | Some j \<Rightarrow> (case of_json j of PDict _ d \<Rightarrow> PDict AttrDict d | w \<Rightarrow> w))"

definition jv :: "obj \<Rightarrow> obj" where
  "jv v = of_json (the (to_json v))"

text \<open>
  A key is plain when it has no \<open>/\<close> and contains neither \<open>variables_\<close> nor
  \<open>parameters_\<close>. A record is storable when its keys are distinct and plain and every
  entry is
  \<^item> a table of the store that the library reads back as an equal table, or
  \<^item> JSON data, or
  \<^item> under the key \<open>variables\<close> or \<open>parameters\<close>, a non-empty nested record with distinct
    plain keys whose children are such tables or mappings of JSON data.
\<close>

definition plain_key :: "string \<Rightarrow> bool" where
  "plain_key k \<longleftrightarrow> CHR ''/'' \<notin> set k \<and> \<not> sublist ''variables_'' k \<and> \<not> sublist ''parameters_'' k"

definition storable_value :: "pandas \<Rightarrow> store \<Rightarrow> obj \<Rightarrow> bool" where
  "storable_value P s v =
     (case v of
        PFrame a \<Rightarrow>
          a < lim s \<and>
          (case read_back P (frames s a) of
             Inl e \<Rightarrow> False
           | Inr g \<Rightarrow> frame_equals (frames s a) g = Inr True)
      | _ \<Rightarrow> json_stable v)"

definition storable_child :: "pandas \<Rightarrow> store \<Rightarrow> string \<times> obj \<Rightarrow> bool" where
  "storable_child P s e =
     (case e of (k, v) \<Rightarrow>
        plain_key k \<and>
        (case v of PFrame _ \<Rightarrow> storable_value P s v | PDict _ _ \<Rightarrow> json_stable v | _ \<Rightarrow> False))"

definition storable_entry :: "pandas \<Rightarrow> store \<Rightarrow> string \<times> obj \<Rightarrow> bool" where
  "storable_entry P s e =
     (case e of (key, v) \<Rightarrow>
        plain_key key \<and>
        (case v of
           PDict kind d \<Rightarrow>
             if kind = DataDict
             then (key = ''variables'' \<or> key = ''parameters'') \<and> d \<noteq> [] \<and>
                  distinct (map fst d) \<and> list_all (storable_child P s) d
             else json_stable v
         | _ \<Rightarrow> storable_value P s v))"

definition storable :: "pandas \<Rightarrow> store \<Rightarrow> items \<Rightarrow> bool" where
  "storable P s r \<longleftrightarrow> distinct (map fst r) \<and> list_all (storable_entry P s) r"

subsection \<open>The record that load builds\<close>

text \<open>Reading the entries back one by one: every table becomes a new table of the store.\<close>

definition reload_value :: "pandas \<Rightarrow> store \<Rightarrow> obj \<Rightarrow> obj action" where
  "reload_value P s v =
     (case v of
        PFrame a \<Rightarrow> (case read_back P (frames s a) of Inl e \<Rightarrow> ret PNone | Inr g \<Rightarrow> new_frame g)
      | _ \<Rightarrow> ret (json_back v))"

fun reload_children :: "pandas \<Rightarrow> store \<Rightarrow> items \<Rightarrow> items action" where
  "reload_children P s [] = ret []"
| "reload_children P s ((k, v) # d) =
     andthen (reload_value P s v) (\<lambda>v'.
     andthen (reload_children P s d) (\<lambda>d'. ret ((k, v') # d')))"

definition reload_entry :: "pandas \<Rightarrow> store \<Rightarrow> obj \<Rightarrow> obj action" where
  "reload_entry P s v =
     (case v of
        PDict kind d \<Rightarrow>
          if kind = DataDict then andthen (reload_children P s d) (\<lambda>d'. ret (PDict DataDict d'))
          else reload_value P s v
      | _ \<Rightarrow> reload_value P s v)"

fun reload :: "pandas \<Rightarrow> store \<Rightarrow> items \<Rightarrow> items action" where
  "reload P s [] = ret []"
| "reload P s ((key, v) # r) =
     andthen (reload_entry P s v) (\<lambda>v'.
     andthen (reload P s r) (\<lambda>r'. ret ((key, v') # r')))"

text \<open>
  A store extends another when it keeps all its tables. A value \<open>v'\<close> is a good reading
  of \<open>v\<close>: for a table, a table of the current store equal to it; otherwise what JSON
  gives back.
\<close>

definition ext_store :: "store \<Rightarrow> store \<Rightarrow> bool" where
  "ext_store s0 s1 \<longleftrightarrow> lim s0 \<le> lim s1 \<and> (\<forall>a<lim s0. frames s1 a = frames s0 a)"

definition good :: "store \<Rightarrow> store \<Rightarrow> obj \<Rightarrow> obj \<Rightarrow> bool" where
  "good s sc v v' =
     (case v of
        PFrame a \<Rightarrow>
          (\<exists>b. v' = PFrame b \<and> b < lim sc \<and> frame_equals (frames s a) (frames sc b) = Inr True)
      | _ \<Rightarrow> v' = json_back v)"

definition good_pair :: "store \<Rightarrow> store \<Rightarrow> string \<times> obj \<Rightarrow> string \<times> obj \<Rightarrow> bool" where
  "good_pair s sc e e' \<longleftrightarrow> fst e' = fst e \<and> good s sc (snd e) (snd e')"

definition good_entry :: "store \<Rightarrow> store \<Rightarrow> string \<times> obj \<Rightarrow> string \<times> obj \<Rightarrow> bool" where
  "good_entry s sc e e' \<longleftrightarrow>
     fst e' = fst e \<and>
     (case snd e of
        PDict kind d \<Rightarrow>
          if kind = DataDict then (\<exists>d'. snd e' = PDict DataDict d' \<and> list_all2 (good_pair s sc) d d')
          else good s sc (snd e) (snd e')
      | _ \<Rightarrow> good s sc (snd e) (snd e'))"

subsection \<open>Two records and a library for the examples\<close>

text \<open>
  A library whose \<open>read_csv\<close> gives the table with its index levels as columns; a record
  with a nested record under the key \<open>info\<close>; a store without tables; constant
  modification times.
\<close>

definition faithful_pandas :: pandas where
  "faithful_pandas =
     plain_pandas\<lparr>read_csv := (\<lambda>c. case c of CsvOf f \<Rightarrow> reset_index plain_pandas f | _ \<Rightarrow> Inl ValueError)\<rparr>"

definition info_record :: items where
  "info_record = [(''info'', PDict DataDict [(''a'', PDict PlainDict [(''x'', PInt 1)])])]"

definition no_tables :: store where
  "no_tables = \<lparr>frames = (\<lambda>_. empty_frame), lim = 0\<rparr>"

definition epoch :: "string \<Rightarrow> int" where
  "epoch path = 0"

section \<open>Properties of experiment ids\<close>

lemma foldl_max_Max: "foldl max (a::int) xs = Max (insert a (set xs))"
proof (induction xs arbitrary: a)
  case Nil
  then show ?case by simp
next
  case (Cons x xs)
  have "Max (insert (max a x) (set xs)) = Max (insert a (insert x (set xs)))"
    by (cases "set xs = {}") (simp_all add: max.assoc max.commute)
  with Cons show ?case by simp
qed

lemma py_max_Max: "ids \<noteq> [] \<Longrightarrow> py_max ids = Max (set ids)"
  unfolding py_max_def
  by (cases ids) (simp_all add: foldl_max_Max)

lemma parse_all_Inr:
  "\<forall>s\<in>set ss. py_int (last (split_on CHR ''_'' s)) \<noteq> None \<Longrightarrow>
   parse_all ss = Inr (map (\<lambda>s. the (py_int (last (split_on CHR ''_'' s)))) ss)"
  by (induction ss) auto

lemma parse_all_Inl:
  "\<exists>s\<in>set ss. py_int (last (split_on CHR ''_'' s)) = None \<Longrightarrow> parse_all ss = Inl ValueError"
proof (induction ss)
  case Nil
  then show ?case by simp
next
  case (Cons s ss)
  show ?case
  proof (cases "py_int (last (split_on CHR ''_'' s))")
    case None
    then show ?thesis by simp
  next
    case (Some i)
    with Cons.prems have "\<exists>s\<in>set ss. py_int (last (split_on CHR ''_'' s)) = None" by auto
    from Cons.IH [OF this] Some show ?thesis by simp
  qed
qed

text \<open>
  C10 (as the code has it). Experiment-id resolution matches directory names by substring
  containment, not by name prefix. For every directory listing: when some directory whose
  name contains \<open>name\<close> anywhere (\<open>s = p @ name @ q\<close>) does not end, after its last
  underscore, in an integer, \<open>_last_exp_id\<close> raises \<open>ValueError\<close>; otherwise it returns
  the maximum of the integer suffixes of the directories that contain the name, and \<open>0\<close>
  when no directory contains it.
\<close>

theorem last_exp_id_substring:
  assumes "listdir fs path = Inr dirs"
  shows "last_exp_id fs name path =
     (if \<exists>s\<in>set dirs. (\<exists>p q. s = p @ name @ q) \<and> py_int (last (split_on CHR ''_'' s)) = None
      then Inl ValueError
      else if \<exists>s\<in>set dirs. \<exists>p q. s = p @ name @ q
      then Inr (Max ((\<lambda>s. the (py_int (last (split_on CHR ''_'' s)))) `
                  {s \<in> set dirs. \<exists>p q. s = p @ name @ q}))
      else Inr 0)"
proof -
  let ?m = "filter (\<lambda>s. sublist name s) dirs"
  have sub: "sublist name s \<longleftrightarrow> (\<exists>p q. s = p @ name @ q)" for s
    by (simp add: sublist_def)
  show ?thesis
  proof (cases "\<exists>s\<in>set dirs. (\<exists>p q. s = p @ name @ q) \<and> py_int (last (split_on CHR ''_'' s)) = None")
    case True
    then have bad: "\<exists>s\<in>set ?m. py_int (last (split_on CHR ''_'' s)) = None"
      by (auto simp: sub)
    then have "?m \<noteq> []" by (auto simp: filter_empty_conv)
    with parse_all_Inl [OF bad] assms True show ?thesis
      by (simp add: last_exp_id_def)
  next
    case good: False
    show ?thesis
    proof (cases "?m = []")
      case True
      then have "\<not> (\<exists>s\<in>set dirs. \<exists>p q. s = p @ name @ q)"
        by (auto simp: filter_empty_conv sub)
      with True assms good show ?thesis
        by (simp add: last_exp_id_def)
    next
      case False
      then have ex: "\<exists>s\<in>set dirs. \<exists>p q. s = p @ name @ q"
        by (auto simp: filter_empty_conv sub)
      have "\<forall>s\<in>set ?m. py_int (last (split_on CHR ''_'' s)) \<noteq> None"
        using good by (auto simp: sub)
      then have pa: "parse_all ?m = Inr (map (\<lambda>s. the (py_int (last (split_on CHR ''_'' s)))) ?m)"
        by (rule parse_all_Inr)
      have "set ?m = {s \<in> set dirs. \<exists>p q. s = p @ name @ q}"
        by (auto simp: sub)
      then have "py_max (map (\<lambda>s. the (py_int (last (split_on CHR ''_'' s)))) ?m) =
         Max ((\<lambda>s. the (py_int (last (split_on CHR ''_'' s)))) ` {s \<in> set dirs. \<exists>p q. s = p @ name @ q})"
        using False by (simp add: py_max_Max)
      with False ex pa assms good show ?thesis
        by (simp add: last_exp_id_def)
    qed
  qed
qed

text \<open>With directories \<open>ab_5\<close> and \<open>a_2\<close>, the name \<open>a\<close> resolves to \<open>5\<close>,
  the id of the experiment \<open>ab\<close>.\<close>

theorem last_exp_id_substring_witness:
  "last_exp_id (Dir [(''out'', Dir [(''ab_5'', Dir []), (''a_2'', Dir [])])] :: unit node) ''a'' ''out'' = Inr 5"
proof -
  let ?fs = "Dir [(''out'', Dir [(''ab_5'', Dir []), (''a_2'', Dir [])])] :: unit node"
  have l: "listdir ?fs ''out'' = Inr [''ab_5'', ''a_2'']"
    by (simp add: listdir_def components_def)
  have p: "\<not> (\<exists>s\<in>set [''ab_5'', ''a_2'']. (\<exists>p q. s = p @ ''a'' @ q) \<and> py_int (last (split_on CHR ''_'' s)) = None)"
    by (simp add: py_int_def strip_def is_space_def digits_value_def is_digit_def)
  have s1: "\<exists>p q. ''ab_5'' = p @ ''a'' @ q"
    by (rule exI[of _ "[]"], rule exI[of _ "''b_5''"]) simp
  have s2: "\<exists>p q. ''a_2'' = p @ ''a'' @ q"
    by (rule exI[of _ "[]"], rule exI[of _ "''_2''"]) simp
  have set_eq: "{s \<in> set [''ab_5'', ''a_2'']. \<exists>p q. s = p @ ''a'' @ q} = {''ab_5'', ''a_2''}"
    using s1 s2 by auto
  have v: "the (py_int (last (split_on CHR ''_'' ''ab_5''))) = 5" "the (py_int (last (split_on CHR ''_'' ''a_2''))) = 2"
    by (simp_all add: py_int_def strip_def is_space_def digits_value_def is_digit_def)
  have m: "Max ((\<lambda>s. the (py_int (last (split_on CHR ''_'' s)))) ` {s \<in> set [''ab_5'', ''a_2'']. \<exists>p q. s = p @ ''a'' @ q}) = 5"
    unfolding set_eq using v by simp
  have c: "\<exists>s\<in>set [''ab_5'', ''a_2'']. \<exists>p q. s = p @ ''a'' @ q"
    using s1 by simp
  from last_exp_id_substring [OF l, of "''a''"] show ?thesis
    unfolding if_not_P [OF p] if_P [OF c] m .
qed

text \<open>
  C10 as stated fails: with the directories \<open>ab_5\<close> and \<open>data\<close>, the name \<open>a\<close> is
  contained in \<open>data\<close>, which ends in no integer, and \<open>_last_exp_id\<close> raises
  \<open>ValueError\<close> instead of returning \<open>5\<close>.
\<close>

theorem last_exp_id_substring_counterexample:
  "last_exp_id (Dir [(''out'', Dir [(''ab_5'', Dir []), (''data'', Dir [])])] :: unit node) ''a'' ''out'' =
     Inl ValueError"
  by code_simp

section \<open>Properties of the arrangement\<close>

lemmas action_defs = ret_def raise_def lift_def andthen_def new_frame_def update_frame_def get_frame_def

lemma range_index_0: "range_index 0 = []"
  by (simp add: range_index_def)

lemma range_index_Suc: "range_index (Suc n) = range_index n @ [[PInt (int n)]]"
  by (simp add: range_index_def)

lemma range_index_4: "range_index 4 = [[PInt 0], [PInt 1], [PInt 2], [PInt 3]]"
  by (simp add: eval_nat_numeral range_index_0 range_index_Suc)

lemmas scenario_defs = scenario_record_def scenario_store_def returned_frame_def
  combine_pars_def mapping_items_def none_if_empty_def empty_frame_def
  setitem_def setitem_list_def scalar_dtype_def list_dtype_def int64_def
  set_column_def column_names_def df_len_def df_shape_def
  range_index_4 range_index_0 range_index_Suc

text \<open>
  C4 (as the code has it). In the scenario, whatever the cells and the dtypes of the
  columns \<open>x\<close> and \<open>out\<close> are, \<open>combine_parameters()\<close> returns a table of
  four rows with the columns \<open>x\<close> and \<open>y\<close>, \<open>y\<close> being \<open>1\<close> in every row, and
  \<open>arrange(reporters=True, parameters=True)\<close> returns a flattened table of four rows with
  the columns \<open>sample_id\<close>, \<open>out\<close> and \<open>x\<close>: with \<open>parameters=True\<close> the constants
  are left out, so there is no column \<open>y\<close>.
\<close>

theorem scenario_arrange_without_constants:
  "returned_frame (combine_pars P (scenario_record (PInt 1)) True True)
       (scenario_store (tx, [x1, x2, x3, x4]) (tout, [o1, o2, o3, o4])) =
     Some \<lparr>index_names = [Some ''sample_id''],
           index_dtypes = [Int64],
           index_rows = [[PInt 0], [PInt 1], [PInt 2], [PInt 3]],
           data = [(''x'', (tx, [x1, x2, x3, x4])),
                   (''y'', (Int64, [PInt 1, PInt 1, PInt 1, PInt 1]))]\<rparr> \<and>
   returned_frame (arrange P (scenario_record (PInt 1)) SelFalse SelTrue SelTrue All False)
       (scenario_store (tx, [x1, x2, x3, x4]) (tout, [o1, o2, o3, o4])) =
     Some \<lparr>index_names = [None],
           index_dtypes = [Int64],
           index_rows = [[PInt 0], [PInt 1], [PInt 2], [PInt 3]],
           data = [(''sample_id'', (Int64, [PInt 0, PInt 1, PInt 2, PInt 3])),
                   (''out'', (tout, [o1, o2, o3, o4])),
                   (''x'', (tx, [x1, x2, x3, x4]))]\<rparr>"
proof
  show "returned_frame (combine_pars P (scenario_record (PInt 1)) True True)
       (scenario_store (tx, [x1, x2, x3, x4]) (tout, [o1, o2, o3, o4])) =
     Some \<lparr>index_names = [Some ''sample_id''],
           index_dtypes = [Int64],
           index_rows = [[PInt 0], [PInt 1], [PInt 2], [PInt 3]],
           data = [(''x'', (tx, [x1, x2, x3, x4])),
                   (''y'', (Int64, [PInt 1, PInt 1, PInt 1, PInt 1]))]\<rparr>"
    by (simp add: scenario_defs action_defs)
  show "returned_frame (arrange P (scenario_record (PInt 1)) SelFalse SelTrue SelTrue All False)
       (scenario_store (tx, [x1, x2, x3, x4]) (tout, [o1, o2, o3, o4])) =
     Some \<lparr>index_names = [None],
           index_dtypes = [Int64],
           index_rows = [[PInt 0], [PInt 1], [PInt 2], [PInt 3]],
           data = [(''sample_id'', (Int64, [PInt 0, PInt 1, PInt 2, PInt 3])),
                   (''out'', (tout, [o1, o2, o3, o4])),
                   (''x'', (tx, [x1, x2, x3, x4]))]\<rparr>"
    by (simp add: scenario_defs action_defs arrange_def combine_with_vars_def combine_with_pars_def
        getattr_def concat_columns_def reset_index_def level_column_def level_labels_def)
qed

text \<open>C4 as stated fails: the arranged table of the scenario has no column \<open>y\<close>.\<close>

theorem scenario_arrange_counterexample:
  "map_option (\<lambda>f. ''y'' \<in> set (column_names f))
     (returned_frame (arrange plain_pandas (scenario_record (PInt 1)) SelFalse SelTrue SelTrue All False)
        (scenario_store (Int64, [PInt 10, PInt 20, PInt 30, PInt 40]) (Int64, [PInt 5, PInt 6, PInt 7, PInt 8])))
   = Some False"
  by (simp add: scenario_defs action_defs arrange_def combine_with_vars_def combine_with_pars_def
        getattr_def concat_columns_def reset_index_def level_column_def level_labels_def) 

text \<open>
  C3. \<open>combine_parameters(sample=True, constants=True)\<close> should give every constant a
  column with one value in all rows. With four samples and the constant
  \<open>y = [1, 2, 3, 4]\<close> the code spreads the list over the rows instead: the column \<open>y\<close>
  holds \<open>1, 2, 3, 4\<close>.
\<close>

theorem combine_pars_list_constant:
  "returned_frame (combine_pars P (scenario_record (PList [PInt 1, PInt 2, PInt 3, PInt 4])) True True)
       (scenario_store (tx, [x1, x2, x3, x4]) (tout, [o1, o2, o3, o4])) =
     Some \<lparr>index_names = [Some ''sample_id''],
           index_dtypes = [Int64],
           index_rows = [[PInt 0], [PInt 1], [PInt 2], [PInt 3]],
           data = [(''x'', (tx, [x1, x2, x3, x4])),
                   (''y'', (Int64, [PInt 1, PInt 2, PInt 3, PInt 4]))]\<rparr>"
  by (simp add: scenario_defs action_defs)

text \<open>
  C5. \<open>combine_parameters\<close> should raise a type error only when the parameters are
  neither a flat mapping nor a nested record. The code raises \<open>TypeError\<close> for every flat
  mapping when the constants are not requested.
\<close>

theorem combine_pars_flat_without_constants:
  assumes "map_of self ''parameters'' = Some (PDict k d)" and "k \<noteq> DataDict"
  shows "fst (combine_pars P self sample False s) = Inl TypeError"
  using assms by (cases k) (simp_all add: combine_pars_def action_defs)

theorem combine_pars_flat_without_constants_witness:
  "fst (combine_pars plain_pandas [(''parameters'', PDict PlainDict [(''x'', PInt 1)])] True False
          \<lparr>frames = (\<lambda>_. empty_frame), lim = 0\<rparr>) = Inl TypeError"
  by (rule combine_pars_flat_without_constants [where k = PlainDict and d = "[(''x'', PInt 1)]"]) simp_all

text \<open>
  C6. When the variables are a nested record with exactly one child, \<open>combine_variables\<close>
  returns that child and changes nothing, whatever \<open>obj_types\<close> and \<open>var_keys\<close> are.
\<close>

theorem combine_vars_single_child:
  assumes "map_of self ''variables'' = Some (PDict DataDict [(k, child)])"
  shows "combine_vars P self obj_types var_keys s = (Inr child, s)"
  using assms by (simp add: combine_vars_def action_defs)

theorem combine_vars_single_child_witness:
  "combine_vars plain_pandas [(''variables'', PDict DataDict [(''agent'', PFrame 0)])]
     (Only [''other'']) (Only [''wealth'']) \<lparr>frames = (\<lambda>_. empty_frame), lim = 1\<rparr> =
   (Inr (PFrame 0), \<lparr>frames = (\<lambda>_. empty_frame), lim = 1\<rparr>)"
  by (rule combine_vars_single_child) simp

section \<open>Properties of combining the variables\<close>

lemma keeps_ret: "keeps r (ret x)"
  by (simp add: keeps_def ret_def)

lemma keeps_raise: "keeps r (raise e)"
  by (simp add: keeps_def raise_def)

lemma keeps_lift: "keeps r (lift x)"
  by (simp add: keeps_def lift_def)

lemma keeps_get_frame: "keeps r (get_frame v)"
  by (simp add: keeps_def get_frame_def split: obj.splits)

lemma keeps_new_frame: "keeps r (new_frame f)"
  by (simp add: keeps_def new_frame_def)

lemma keeps_read: "keeps r (\<lambda>s. (g s, s))"
  by (simp add: keeps_def)

lemma keeps_andthen:
  assumes "keeps r m" and "\<And>x. keeps r (f x)"
  shows "keeps r (andthen m f)"
  unfolding keeps_def
proof (intro allI impI)
  fix s :: store assume r: "r < lim s"
  obtain res s1 where m: "m s = (res, s1)" by (cases "m s")
  from assms(1) r m have s1: "frames s1 r = frames s r" "lim s \<le> lim s1"
    by (auto simp: keeps_def)
  show "frames (snd (andthen m f s)) r = frames s r \<and> lim s \<le> lim (snd (andthen m f s))"
  proof (cases res)
    case (Inl e)
    with m s1 show ?thesis by (simp add: andthen_def)
  next
    case (Inr x)
    from assms(2) [of x] s1 r have "frames (snd (f x s1)) r = frames s1 r \<and> lim s1 \<le> lim (snd (f x s1))"
      by (auto simp: keeps_def)
    with Inr m s1 show ?thesis by (simp add: andthen_def)
  qed
qed

lemmas keeps_intros = keeps_andthen keeps_ret keeps_raise keeps_lift keeps_get_frame keeps_new_frame keeps_read

lemma keeps_concat_tail:
  "keeps r (if df_dict = [] then ret PNone
     else
       andthen (\<lambda>s. (case frames_of s df_dict of None \<Rightarrow> Inl Unmodelled | Some fs \<Rightarrow> concat_keys P fs, s)) (\<lambda>f.
       andthen (new_frame (f\<lparr>index_names := (index_names f)[0 := Some ''obj_type'']\<rparr>)) (\<lambda>df.
       case var_keys of
         All \<Rightarrow> ret df
       | Only keys \<Rightarrow>
           andthen (get_frame df) (\<lambda>g.
           andthen (lift (select_columns g keys)) new_frame))))"
  by (cases var_keys) (auto intro!: keeps_intros)


lemma snd_andthen:
  "snd (andthen m f s) = (case m s of (Inl e, s') \<Rightarrow> s' | (Inr x, s') \<Rightarrow> snd (f x s'))"
  by (simp add: andthen_def split: prod.splits sum.splits)







lemma map_of_filter_keys_None: "m \<notin> set ts \<Longrightarrow> map_of (filter (\<lambda>(k, v). k \<in> set ts) d) m = None"
  by (induction d) auto

lemma andthen_ret: "andthen (ret x) f = f x"
  by (simp add: andthen_def ret_def)

lemma andthen_lift_Inr: "andthen (lift (Inr x)) f = f x"
  by (simp add: andthen_def lift_def)

lemma add_obj_id_absent: "map_of d m = None \<Longrightarrow> add_obj_id P (PStr m) d = ret d"
  by (simp add: add_obj_id_def)

lemma combine_vars_dict_other_types:
  assumes mt: "log_model_type self = Inr (PStr m)" and m: "m \<notin> set ts"
  shows "combine_vars_dict P self vs (Only ts) var_keys =
      andthen (\<lambda>s. (case var_keys of All \<Rightarrow> Inr vs | Only keys \<Rightarrow> filter_var_keys s keys vs, s)) (\<lambda>d1.
         if filter (\<lambda>(k, v). k \<in> set ts) d1 = [] then ret PNone
         else
           andthen (\<lambda>s. (case frames_of s (filter (\<lambda>(k, v). k \<in> set ts) d1) of None \<Rightarrow> Inl Unmodelled | Some fs \<Rightarrow> concat_keys P fs, s)) (\<lambda>f.
           andthen (new_frame (f\<lparr>index_names := (index_names f)[0 := Some ''obj_type'']\<rparr>)) (\<lambda>df.
           case var_keys of
             All \<Rightarrow> ret df
           | Only keys \<Rightarrow>
               andthen (get_frame df) (\<lambda>g.
               andthen (lift (select_columns g keys)) new_frame))))"
  unfolding combine_vars_dict_def mt
  by (simp only: filter_arg.case andthen_ret andthen_lift_Inr
        add_obj_id_absent [OF map_of_filter_keys_None [OF m]])

text \<open>
  More generally, a call that selects object types without the model's type leaves every
  table of the store as it was.
\<close>

lemma combine_vars_other_types:
  assumes mt: "log_model_type self = Inr (PStr m)" and m: "m \<notin> set ts"
  shows "keeps r (combine_vars P self (Only ts) var_keys)"
proof (cases "map_of self ''variables''")
  case None
  then show ?thesis by (simp add: combine_vars_def keeps_ret)
next
  case (Some v)
  show ?thesis
  proof (cases v)
    case (PDict k vs)
    have "keeps r (combine_vars_dict P self vs (Only ts) var_keys)"
      unfolding combine_vars_dict_other_types [OF mt m]
      by (rule keeps_andthen, rule keeps_read, rule keeps_concat_tail)
    with Some PDict show ?thesis
      by (simp add: combine_vars_def keeps_ret)
  qed (use Some in \<open>simp_all add: combine_vars_def keeps_ret keeps_raise\<close>)
qed

section \<open>Properties of record equality\<close>

lemma py_eq_PFrame [simp]: "py_eq s (PFrame r) = (\<lambda>b. Inl ValueError)"
  by (simp add: py_eq_def)

lemma py_eq_PDict [simp]:
  "py_eq s (PDict k a) = (\<lambda>b.
     case b of
        PDict k' b' \<Rightarrow>
          if k = DataDict
          then (if k' = DataDict
                then datadict_eq (table_equals s) (zip a (map (map_prod id (py_eq s)) a)) b'
                else Inr False)
          else if k' = DataDict then Inr False
          else if length a \<noteq> length b' then Inr False
          else dict_eq (zip a (map (map_prod id (py_eq s)) a)) b'
      | PFrame _ \<Rightarrow> (if k = DataDict then Inr False else Inl ValueError)
      | _ \<Rightarrow> Inr False)"
  unfolding py_eq_def by simp

lemma py_eq_PList [simp]:
  "py_eq s (PList xs) = (\<lambda>b.
     case b of
        PList ys \<Rightarrow> if length xs \<noteq> length ys then Inr False else seq_eq (zip xs (map (py_eq s) xs)) ys
      | PFrame _ \<Rightarrow> Inl ValueError
      | _ \<Rightarrow> Inr False)"
  unfolding py_eq_def by simp

lemma py_eq_PTuple [simp]:
  "py_eq s (PTuple xs) = (\<lambda>b.
     case b of
        PTuple ys \<Rightarrow> seq_eq (zip xs (map (py_eq s) xs)) ys
      | PFrame _ \<Rightarrow> Inl ValueError
      | _ \<Rightarrow> Inr False)"
  unfolding py_eq_def by simp

lemma py_eq_PNone [simp]:
  "py_eq s PNone = (\<lambda>b. case b of PNone \<Rightarrow> Inr True | PFrame _ \<Rightarrow> Inl ValueError | _ \<Rightarrow> Inr False)"
  by (simp add: py_eq_def)

lemma py_eq_PStr [simp]:
  "py_eq s (PStr x) = (\<lambda>b. case b of PStr y \<Rightarrow> Inr (x = y) | PFrame _ \<Rightarrow> Inl ValueError | _ \<Rightarrow> Inr False)"
  by (simp add: py_eq_def)

lemma py_eq_PInt [simp]:
  "py_eq s (PInt i) = (\<lambda>b. case b of PFrame _ \<Rightarrow> Inl ValueError | _ \<Rightarrow> Inr (int_of_obj b = Some i))"
  by (simp add: py_eq_def)

lemma py_eq_PBool [simp]:
  "py_eq s (PBool x) = (\<lambda>b.
     case b of PFrame _ \<Rightarrow> Inl ValueError | _ \<Rightarrow> Inr (int_of_obj b = Some (if x then 1 else 0)))"
  by (simp add: py_eq_def)

lemma datadict_eq_covered:
  "datadict_eq (table_equals s) (zip a (map (map_prod id (py_eq s)) a)) b = Inr True \<longleftrightarrow> covered_by s a b"
proof (induction a)
  case Nil
  then show ?case by (simp add: covered_by_def)
next
  case (Cons p a)
  obtain key item where p: "p = (key, item)" by (cases p)
  show ?case
  proof (cases "map_of b key")
    case None
    with p show ?thesis by (simp add: covered_by_def)
  next
    case (Some w)
    show ?thesis
    proof (cases item)
      case (PFrame r)
      with Some p Cons.IH show ?thesis
        by (cases w) (auto simp add: covered_by_def values_equal_def table_equals_def split: sum.splits)
    qed (use Some p Cons.IH in \<open>auto simp add: covered_by_def values_equal_def split: sum.splits\<close>)
  qed
qed

text \<open>
  C8 (as the code has it). Record equality is subset-based: \<open>a == b\<close> is \<open>True\<close> exactly
  when every key of \<open>a\<close> is present in \<open>b\<close> with an equal value, whatever further keys
  \<open>b\<close> has; so \<open>a == b\<close> does not imply \<open>b == a\<close>. Two tables are equal values when
  \<open>equals\<close> holds of them: the same shape and labels, the same dtype in every column, and
  equal cells.
\<close>

theorem eq_subset_based:
  "eq s a (PDict DataDict b) = Inr True \<longleftrightarrow> covered_by s a b"
  by (simp add: eq_def datadict_eq_covered)

text \<open>\<open>{x: 1} == {x: 1, y: 2}\<close> holds and \<open>{x: 1, y: 2} == {x: 1}\<close> does not; a record
  with the table at \<open>0\<close> equals a record that has the table at \<open>2\<close> under the same key,
  and one key more.\<close>

theorem eq_subset_based_witness:
  "eq three_tables_store [(''x'', PInt 1)] (PDict DataDict [(''x'', PInt 1), (''y'', PInt 2)]) = Inr True \<and>
   eq three_tables_store [(''x'', PInt 1), (''y'', PInt 2)] (PDict DataDict [(''x'', PInt 1)]) = Inr False \<and>
   eq three_tables_store [(''t'', PFrame 0)] (PDict DataDict [(''t'', PFrame 2), (''y'', PInt 2)]) = Inr True \<and>
   eq three_tables_store [(''t'', PFrame 2), (''y'', PInt 2)] (PDict DataDict [(''t'', PFrame 0)]) = Inr False"
proof (intro conjI)
  show "eq three_tables_store [(''x'', PInt 1)] (PDict DataDict [(''x'', PInt 1), (''y'', PInt 2)]) = Inr True"
    unfolding eq_subset_based by (simp add: covered_by_def values_equal_def int_of_obj_def)
  show "eq three_tables_store [(''x'', PInt 1), (''y'', PInt 2)] (PDict DataDict [(''x'', PInt 1)]) = Inr False"
    by (simp add: eq_def int_of_obj_def)
  show "eq three_tables_store [(''t'', PFrame 0)] (PDict DataDict [(''t'', PFrame 2), (''y'', PInt 2)]) = Inr True"
    unfolding eq_subset_based by code_simp
  show "eq three_tables_store [(''t'', PFrame 2), (''y'', PInt 2)] (PDict DataDict [(''t'', PFrame 0)]) = Inr False"
    by code_simp
qed

text \<open>
  C8 as stated fails: the tables at \<open>0\<close> and \<open>1\<close> have the same labels and the same
  cells, one by one, but the column \<open>n\<close> is \<open>int64\<close> in one and \<open>object\<close> in the other,
  so \<open>equals\<close> is \<open>False\<close> and the two records are not equal.
\<close>

theorem eq_subset_based_counterexample:
  "index_rows (frames three_tables_store 0) = index_rows (frames three_tables_store 1) \<and>
   column_names (frames three_tables_store 0) = column_names (frames three_tables_store 1) \<and>
   column_cells (frames three_tables_store 0) = column_cells (frames three_tables_store 1) \<and>
   eq three_tables_store [(''t'', PFrame 0)] (PDict DataDict [(''t'', PFrame 1)]) = Inr False"
  by code_simp

text \<open>
  How \<open>equals\<close> compares two columns: the cells \<open>1\<close> and \<open>True\<close> are equal as Python
  objects, so two columns of dtype \<open>object\<close> that hold them are equal, while a column of
  dtype \<open>int64\<close> and a column of dtype \<open>bool\<close> are not.
\<close>

lemma frame_equals_examples:
  "frame_equals (one_cell_frame Int64) (one_cell_frame Int64) = Inr True \<and>
   frame_equals (one_cell_frame Int64) (one_cell_frame Object) = Inr False \<and>
   frame_equals (one_cell_frame Object)
     ((one_cell_frame Object)\<lparr>data := [(''n'', (Object, [PBool True]))]\<rparr>) = Inr True \<and>
   frame_equals (one_cell_frame Int64)
     ((one_cell_frame Int64)\<lparr>data := [(''n'', (Bool, [PBool True]))]\<rparr>) = Inr False"
  by code_simp

section \<open>Properties of the sensitivity analysis and of saving\<close>

text \<open>
  C1. \<open>calc_sobol\<close> should store the tables \<open>sensitivity\<close> and \<open>sensitivity_conf\<close> in
  the record and return it. In the module as it stands, every call raises \<open>NameError\<close> at
  the first statement that reads a global name, \<open>param_tuples_to_salib\<close>, which
  \<open>datadict.py\<close> does not import (nor does it bind \<open>output\<close>, \<open>sobol\<close> or
  \<open>_sobol_set_df_index\<close>); the record and the store are left as they were.
\<close>

theorem calc_sobol_name_error:
  "calc_sobol module_globals L P self param_ranges reporters calc_second_order s =
     (Inl (NameError ''param_tuples_to_salib''), s)"
  by (simp add: calc_sobol_def global_ref_def module_globals_def andthen_def raise_def)

lemma replace_exp: "replace '' '' ''_'' ''exp'' = ''exp''"
  by code_simp

lemma str_int_1: "str_int 1 = ''1''"
  by code_simp

lemma str_int_2: "str_int 2 = ''2''"
  by code_simp


lemma components_res_out: "components ''res/out'' = [''res'', ''out'']"
  by (simp add: components_def)

lemma components_exp1: "components ''res/out/exp_1'' = [''res'', ''out'', ''exp_1'']"
  by (simp add: components_def)

lemma components_rep: "components ''res/out/exp_1/reporters.csv'' = [''res'', ''out'', ''exp_1'', ''reporters.csv'']"
  by (simp add: components_def)

lemma save_nested_first:
  "save s [(''reporters'', PFrame r)] (Some ''exp'') None ''res/out'' (Dir []) =
     (Inr (), Dir [(''res'', Dir [(''out'', Dir [(''exp_1'',
        Dir [(''reporters.csv'', File (CsvOf (frames s r)))])])])])"
  by (simp add: save_def andthen_def lift_def ret_def listdir_cwd_def makedirs_def
      replace_exp last_exp_id_def listdir_def exp_dir_def str_int_1 components_res_out components_exp1 components_rep
      save_entry_def write_file_def)

text \<open>
  C7. A second save without an id should create \<open>{path}/{name}_2/\<close>. With the path
  \<open>res/out\<close> the first save creates \<open>res/out/exp_1/reporters.csv\<close>; the second finds
  that \<open>res/out\<close> is not among the names of the working directory, calls
  \<open>makedirs\<close> on it again and raises \<open>FileExistsError\<close>.
\<close>

theorem save_twice_nested_path:
  "fst (save s [(''reporters'', PFrame r)] (Some ''exp'') None ''res/out'' (Dir [])) = Inr () \<and>
   fst (save s [(''reporters'', PFrame r)] (Some ''exp'') None ''res/out''
          (snd (save s [(''reporters'', PFrame r)] (Some ''exp'') None ''res/out'' (Dir [])))) =
     Inl FileExistsError"
  by (simp add: save_nested_first)
     (simp add: save_def andthen_def lift_def ret_def listdir_cwd_def makedirs_def components_res_out)

section \<open>Properties of saving and loading\<close>

text \<open>
  C2. A record that is saved to a fresh experiment directory should come back equal when
  that directory is loaded. Saved with the id \<open>0\<close>, the record of the scenario is written
  to \<open>out/exp_0/\<close>; \<open>load\<close> with the same name, id and path takes the id \<open>0\<close> for no
  id, looks for the highest id, finds \<open>0\<close> and raises \<open>FileNotFoundError\<close>, whatever
  the library and the store are.
\<close>

theorem save_load_id_zero:
  "fst (save (scenario_store (Int64, [PInt 10, PInt 20, PInt 30, PInt 40]) (Int64, [PInt 5, PInt 6, PInt 7, PInt 8]))
          (scenario_record (PInt 1)) (Some ''exp'') (Some 0) ''out'' (Dir [])) = Inr () \<and>
   listdir (snd (save (scenario_store (Int64, [PInt 10, PInt 20, PInt 30, PInt 40]) (Int64, [PInt 5, PInt 6, PInt 7, PInt 8]))
                   (scenario_record (PInt 1)) (Some ''exp'') (Some 0) ''out'' (Dir []))) ''out/exp_0/'' =
     Inr [''log.json'', ''parameters_sample.csv'', ''parameters_constants.json'', ''reporters.csv''] \<and>
   load P getmtime
     (snd (save (scenario_store (Int64, [PInt 10, PInt 20, PInt 30, PInt 40]) (Int64, [PInt 5, PInt 6, PInt 7, PInt 8]))
             (scenario_record (PInt 1)) (Some ''exp'') (Some 0) ''out'' (Dir [])))
     (Some ''exp'') (Some 0) ''out'' s = (Inl FileNotFoundError, s)"
proof -
  let ?fs = "snd (save (scenario_store (Int64, [PInt 10, PInt 20, PInt 30, PInt 40]) (Int64, [PInt 5, PInt 6, PInt 7, PInt 8]))
                   (scenario_record (PInt 1)) (Some ''exp'') (Some 0) ''out'' (Dir []))"
  have sv: "fst (save (scenario_store (Int64, [PInt 10, PInt 20, PInt 30, PInt 40]) (Int64, [PInt 5, PInt 6, PInt 7, PInt 8]))
          (scenario_record (PInt 1)) (Some ''exp'') (Some 0) ''out'' (Dir [])) = Inr ()"
    by code_simp
  have ls: "listdir ?fs ''out/exp_0/'' =
      Inr [''log.json'', ''parameters_sample.csv'', ''parameters_constants.json'', ''reporters.csv'']"
    by code_simp
  have last: "last_exp_id ?fs ''exp'' ''out'' = Inr 0"
    by code_simp
  have "load P getmtime ?fs (Some ''exp'') (Some 0) ''out'' s = (Inl FileNotFoundError, s)"
    by (simp add: load_def load_from_def andthen_def lift_def replace_exp last)
  with sv ls show ?thesis by simp
qed

text \<open>
  When the directory holds an earlier experiment of the name, \<open>load\<close> with the id \<open>0\<close>
  returns that one: the record \<open>{log: {n: 0}}\<close> is saved with the id \<open>0\<close> next to the
  experiment \<open>exp_3\<close>, and what is loaded is the record of \<open>exp_3\<close>.
\<close>

lemma load_id_zero_other_experiment:
  "fst (save no_tables [(''log'', PDict PlainDict [(''n'', PInt 0)])] (Some ''exp'') (Some 0) ''out''
          (Dir [(''out'', Dir [(''exp_3'', Dir [(''log.json'', File (JsonOf (JObj [(''n'', JInt 3)])))])])])) =
     Inr () \<and>
   fst (load plain_pandas epoch
          (snd (save no_tables [(''log'', PDict PlainDict [(''n'', PInt 0)])] (Some ''exp'') (Some 0) ''out''
             (Dir [(''out'', Dir [(''exp_3'', Dir [(''log.json'', File (JsonOf (JObj [(''n'', JInt 3)])))])])])))
          (Some ''exp'') (Some 0) ''out'' no_tables) =
     Inr [(''log'', PDict AttrDict [(''n'', PInt 3)])]"
  by code_simp

subsection \<open>Strings and paths\<close>

lemma split_on_nonempty: "split_on c s \<noteq> []"
  by (induction s) (auto split: list.splits)

lemma split_on_no_sep: "c \<notin> set s \<Longrightarrow> split_on c s = [s]"
  by (induction s) auto

lemma split_on_append_sep: "split_on c (p @ c # x) = split_on c p @ split_on c x"
proof (induction p)
  case Nil
  then show ?case by simp
next
  case (Cons a p)
  obtain w ws where "split_on c p = w # ws"
    using split_on_nonempty [of c p] by (cases "split_on c p") auto
  with Cons show ?case by auto
qed

lemma last_split_on_append: "c \<notin> set x \<Longrightarrow> last (split_on c (p @ c # x)) = x"
  by (simp add: split_on_append_sep split_on_no_sep)

lemma components_append:
  assumes "CHR ''/'' \<notin> set x" and "x \<noteq> []"
  shows "components (p @ CHR ''/'' # x) = components p @ [x]"
  using assms by (simp add: components_def split_on_append_sep split_on_no_sep)

lemma components_slash: "components (p @ [CHR ''/'']) = components p"
  by (simp add: components_def split_on_append_sep)

lemma file_key_ext:
  assumes "CHR ''.'' \<notin> set e"
  shows "file_key (k @ CHR ''.'' # e) = k" and "last (split_on CHR ''.'' (k @ CHR ''.'' # e)) = e"
  using assms by (simp_all add: file_key_def last_split_on_append)

lemma sublist_append_tail:
  assumes "sublist p (k @ e)" and "p \<noteq> []" and "last p \<notin> set e"
  shows "sublist p k"
proof -
  from assms(1) obtain a b where ab: "k @ e = a @ p @ b" by (auto simp: sublist_def)
  then have "k @ e = (a @ p) @ b" by simp
  then have "\<exists>us. k = (a @ p) @ us \<and> us @ e = b \<or> k @ us = a @ p \<and> e = us @ b"
    by (simp only: append_eq_append_conv2)
  then obtain us where "(k = (a @ p) @ us \<and> us @ e = b) \<or> (k @ us = a @ p \<and> e = us @ b)"
    by blast
  then show ?thesis
  proof
    assume "k = (a @ p) @ us \<and> us @ e = b"
    then show ?thesis by (auto simp: sublist_def)
  next
    assume h: "k @ us = a @ p \<and> e = us @ b"
    show ?thesis
    proof (cases "us = []")
      case True
      with h show ?thesis by (auto simp: sublist_def intro: exI[of _ a] exI[of _ "[]"])
    next
      case False
      from h have "last (k @ us) = last (a @ p)" by simp
      with False assms(2) have "last us = last p" by simp
      moreover from False h have "last us \<in> set e" by auto
      ultimately show ?thesis using assms(3) by simp
    qed
  qed
qed

lemma sublist_append_head:
  assumes "sublist p (q @ k)" and "p \<noteq> []" and "hd p \<notin> set q"
  shows "sublist p k"
proof -
  from assms(1) obtain a b where ab: "q @ k = a @ p @ b" by (auto simp: sublist_def)
  then have "\<exists>us. q = a @ us \<and> us @ k = p @ b \<or> q @ us = a \<and> k = us @ p @ b"
    by (simp only: append_eq_append_conv2)
  then obtain us where "(q = a @ us \<and> us @ k = p @ b) \<or> (q @ us = a \<and> k = us @ p @ b)"
    by blast
  then show ?thesis
  proof
    assume h: "q = a @ us \<and> us @ k = p @ b"
    show ?thesis
    proof (cases "us = []")
      case True
      with h show ?thesis by (auto simp: sublist_def intro: exI[of _ "[]"])
    next
      case False
      from h have "hd (us @ k) = hd (p @ b)" by simp
      with False assms(2) have "hd us = hd p" by simp
      moreover from False h have "hd us \<in> set q" by auto
      ultimately show ?thesis using assms(3) by simp
    qed
  next
    assume "q @ us = a \<and> k = us @ p @ b"
    then show ?thesis by (auto simp: sublist_def)
  qed
qed

lemma replace_absent:
  assumes "\<not> sublist old s" and "old \<noteq> []"
  shows "replace old new s = s"
  using assms
proof (induction s)
  case Nil
  then show ?case by (simp add: replace.simps)
next
  case (Cons a s)
  from Cons.prems have np: "\<not> prefix old (a # s)"
    using prefix_imp_sublist by blast
  from Cons.prems have "\<not> sublist old s"
    by (auto simp: sublist_Cons_right)
  with Cons have "replace old new s = s" by simp
  with np Cons.prems show ?case
    by (subst replace.simps) simp
qed

lemma replace_prefix:
  assumes "\<not> sublist old s" and "old \<noteq> []"
  shows "replace old [] (old @ s) = s"
proof -
  have "replace old [] (old @ s) = replace old [] s"
    using assms(2) by (subst replace.simps) simp
  with assms show ?thesis by (simp add: replace_absent)
qed

lemma andthen_ret_left [simp]: "andthen (ret x) f = f x"
  by (simp add: andthen_def ret_def)

lemma andthen_ret_right [simp]: "andthen m (\<lambda>x. ret x) = m"
  by (auto simp add: andthen_def ret_def fun_eq_iff split: prod.splits sum.splits)

lemma andthen_assoc: "andthen (andthen m f) g = andthen m (\<lambda>x. andthen (f x) g)"
  by (auto simp add: andthen_def fun_eq_iff split: prod.splits sum.splits)

lemma write_files_Nil [simp]: "write_files dir [] = ret ()"
  by (simp add: write_files_def)

lemma write_files_Cons [simp]:
  "write_files dir ((f, c) # files) = andthen (write_file (dir @ ''/'' @ f) c) (\<lambda>_. write_files dir files)"
  by (simp add: write_files_def)

lemma write_files_append:
  "write_files dir (xs @ ys) = andthen (write_files dir xs) (\<lambda>_. write_files dir ys)"
  by (induction xs) (auto simp: andthen_assoc)

lemma lookup_empty_dirs: "lookup (empty_dirs cs) cs = Some (Dir [])"
  by (induction cs) auto

lemma mkdirs_lookup: "mkdirs fs cs = Inr fs' \<Longrightarrow> lookup fs' cs = Some (Dir [])"
proof (induction fs cs arbitrary: fs' rule: mkdirs.induct)
  case (1 n)
  then show ?case by simp
next
  case (2 uu c cs)
  then show ?case by simp
next
  case (3 es c cs)
  show ?case
  proof (cases "map_of es c")
    case None
    with "3.prems" show ?thesis by (auto simp: lookup_empty_dirs map_add_def)
  next
    case (Some n)
    with "3.prems" obtain n' where n': "mkdirs n cs = Inr n'" and fs': "fs' = Dir (AList.update c n' es)"
      by (auto split: sum.splits)
    from "3.IH" [OF Some n'] fs' show ?thesis by (simp add: update_conv')
  qed
qed

lemma write_at_Cons:
  "ys \<noteq> [] \<Longrightarrow> write_at (Dir es) (x # ys) c =
     (case map_of es x of
        None \<Rightarrow> Inl FileNotFoundError
      | Some n \<Rightarrow> (case write_at n ys c of Inl e \<Rightarrow> Inl e | Inr n' \<Rightarrow> Inr (Dir (AList.update x n' es))))"
proof -
  assume "ys \<noteq> []"
  then obtain y ys' where "ys = y # ys'" by (cases ys) auto
  then show ?thesis by (cases "map_of es x") simp_all
qed

lemma update_fresh: "map_of es f = None \<Longrightarrow> AList.update f v es = es @ [(f, v)]"
  by (induction es) (auto split: if_splits)

lemma write_at_dir:
  assumes "lookup fs cs = Some (Dir es)" and "map_of es f = None"
  shows "\<exists>fs'. write_at fs (cs @ [f]) c = Inr fs' \<and> lookup fs' cs = Some (Dir (es @ [(f, File c)]))"
  using assms
proof (induction cs arbitrary: fs)
  case Nil
  then show ?case by (simp add: update_fresh)
next
  case (Cons c0 cs)
  from Cons.prems(1) obtain es0 n where fs: "fs = Dir es0" and n: "map_of es0 c0 = Some n"
    and l: "lookup n cs = Some (Dir es)"
    by (cases fs) (auto split: option.splits)
  from Cons.IH [OF l Cons.prems(2)] obtain n' where w: "write_at n (cs @ [f]) c = Inr n'"
    and l': "lookup n' cs = Some (Dir (es @ [(f, File c)]))" by blast
  from fs n w l' show ?case by (simp add: write_at_Cons update_conv')
qed

lemma write_files_dir:
  assumes "lookup fs (components dir) = Some (Dir es)"
    and "distinct (map fst es @ map fst files)"
    and "list_all (\<lambda>(f, c). CHR ''/'' \<notin> set f \<and> f \<noteq> []) files"
  shows "\<exists>fs'. write_files dir files fs = (Inr (), fs') \<and>
           lookup fs' (components dir) = Some (Dir (es @ map (\<lambda>(f, c). (f, File c)) files))"
  using assms
proof (induction files arbitrary: fs es)
  case Nil
  then show ?case by (simp add: ret_def)
next
  case (Cons p files)
  obtain f c where p: "p = (f, c)" by (cases p)
  from Cons.prems p have f: "CHR ''/'' \<notin> set f" "f \<noteq> []" and nf: "map_of es f = None"
    by (auto simp: map_of_eq_None_iff)
  from write_at_dir [OF Cons.prems(1) nf] obtain fs1 where w: "write_at fs (components dir @ [f]) c = Inr fs1"
    and l1: "lookup fs1 (components dir) = Some (Dir (es @ [(f, File c)]))" by blast
  have d1: "distinct (map fst (es @ [(f, File c)]) @ map fst files)"
    using Cons.prems(2) p by auto
  have a1: "list_all (\<lambda>(f, c). CHR ''/'' \<notin> set f \<and> f \<noteq> []) files"
    using Cons.prems(3) by simp
  from Cons.IH [OF l1 d1 a1] obtain fs' where w': "write_files dir files fs1 = (Inr (), fs')"
    and l': "lookup fs' (components dir) = Some (Dir ((es @ [(f, File c)]) @ map (\<lambda>(f, c). (f, File c)) files))"
    by blast
  have "write_file (dir @ ''/'' @ f) c fs = (Inr (), fs1)"
    using w f by (simp add: write_file_def components_append)
  with w' l' p show ?case by (simp add: andthen_def)
qed

lemma json_stable_PList [simp]: "json_stable (PList xs) = list_all json_stable xs"
  by (simp add: list.pred_map comp_def)

lemma json_stable_PDict [simp]:
  "json_stable (PDict k d) = (k \<noteq> DataDict \<and> distinct (map fst d) \<and> list_all (\<lambda>(key, v). json_stable v) d)"
  by (simp add: list.pred_map comp_def case_prod_unfold)

declare json_stable.simps(5) [simp del] json_stable.simps(7) [simp del]

lemma those_map_Some:
  "list_all (\<lambda>x. f x \<noteq> None) xs \<Longrightarrow> those (map f xs) = Some (map (\<lambda>x. the (f x)) xs)"
  by (induction xs) auto

lemma those_items_Some:
  "list_all (\<lambda>(k, v). f v \<noteq> None) d \<Longrightarrow>
   those_items (map (map_prod id f) d) = Some (map (\<lambda>(k, v). (k, the (f v))) d)"
  unfolding those_items_def
  by (induction d) auto

lemma json_stable_to_json: "json_stable v \<Longrightarrow> to_json v \<noteq> None"
proof (induction v)
  case (PList xs)
  then have "list_all (\<lambda>x. to_json x \<noteq> None) xs"
    by (auto simp: list_all_iff)
  then show ?case by (simp add: those_map_Some)
next
  case (PDict k d)
  then have "list_all (\<lambda>(k, v). to_json v \<noteq> None) d"
    by (fastforce simp: list_all_iff)
  then show ?case by (simp add: those_items_Some)
qed simp_all

lemma andthen_unit [simp]: "andthen (m :: (unit, 's) act) (\<lambda>_. ret ()) = m"
  by (auto simp add: andthen_def ret_def fun_eq_iff split: prod.splits sum.splits)

lemma write_at_no_TypeError: "write_at fs cs c \<noteq> Inl TypeError"
  by (induction fs cs c rule: write_at.induct) (auto split: option.splits node.splits sum.splits)

lemma write_file_no_TypeError: "fst (write_file p c fs) \<noteq> Inl TypeError"
  using write_at_no_TypeError [of fs "components p" c]
  by (auto simp: write_file_def split: sum.splits)

lemma save_children_files:
  assumes "list_all (storable_child P s) d"
  shows "save_children s dir key d = write_files dir (child_files s key d)"
  using assms
proof (induction d)
  case Nil
  then show ?case by (simp add: child_files_def)
next
  case (Cons p d)
  obtain k v where p: "p = (k, v)" by (cases p)
  from Cons have IH: "save_children s dir key d = write_files dir (child_files s key d)" by simp
  have cf: "child_files s key (p # d) = child_files s key [p] @ child_files s key d"
    by (simp add: child_files_def)
  from Cons.prems p have sc: "storable_child P s (k, v)" by simp
  show ?case
  proof (cases v)
    case (PFrame a)
    with p IH show ?thesis
      by (simp add: child_files_def)
  next
    case (PDict kind d')
    with sc have "json_stable v" by (simp add: storable_child_def)
    then have "to_json v \<noteq> None" by (rule json_stable_to_json)
    then obtain j where "to_json v = Some j" by auto
    with p IH PDict show ?thesis
      by (simp add: child_files_def dump_json_def del: to_json.simps)
  qed (use sc in \<open>simp_all add: storable_child_def\<close>)
qed

lemma no_TypeError_case:
  "(case write_file p c fs of (Inl TypeError, fs') \<Rightarrow> remove_file q fs' | res \<Rightarrow> res) = write_file p c fs"
  for fs :: "content node"
  using write_file_no_TypeError [of p c fs]
  by (auto split: prod.splits sum.splits error.splits)

lemma save_entry_json:
  assumes "to_json v = Some j" and "case v of PDict kind _ \<Rightarrow> kind \<noteq> DataDict | _ \<Rightarrow> True"
  shows "save_entry s dir key v = write_files dir (entry_files s (key, v))"
proof (cases v)
  case (PDict kind d)
  with assms show ?thesis
    by (cases kind)
       (simp_all add: save_entry_def entry_files_def dump_json_def no_TypeError_case
          del: to_json.simps)
qed (use assms in \<open>simp_all add: save_entry_def entry_files_def dump_json_def no_TypeError_case
          del: to_json.simps\<close>)

lemma save_entry_files:
  assumes "storable_entry P s (key, v)"
  shows "save_entry s dir key v = write_files dir (entry_files s (key, v))"
proof (cases v)
  case (PFrame a)
  then show ?thesis by (simp add: save_entry_def entry_files_def)
next
  case (PDict kind d)
  show ?thesis
  proof (cases "kind = DataDict")
    case True
    from PDict True assms have "list_all (storable_child P s) d"
      by (simp add: storable_entry_def)
    then have "save_children s dir key d = write_files dir (child_files s key d)"
      by (rule save_children_files)
    with PDict True show ?thesis
      by (simp add: save_entry_def entry_files_def)
  next
    case False
    with PDict assms have "json_stable v" by (simp add: storable_entry_def)
    then obtain j where "to_json v = Some j" using json_stable_to_json by fastforce
    then show ?thesis using PDict False by (intro save_entry_json) simp_all
  qed
next
  case PNone
  then show ?thesis by (intro save_entry_json) simp_all
next
  case (PBool x)
  then show ?thesis by (intro save_entry_json) simp_all
next
  case (PInt x)
  then show ?thesis by (intro save_entry_json) simp_all
next
  case (PStr x)
  then show ?thesis by (intro save_entry_json) simp_all
next
  case (PList xs)
  with assms have "json_stable v" by (simp add: storable_entry_def storable_value_def)
  then obtain j where "to_json v = Some j" using json_stable_to_json by fastforce
  then show ?thesis using PList by (intro save_entry_json) simp_all
next
  case (PTuple xs)
  with assms show ?thesis by (simp add: storable_entry_def storable_value_def)
qed

lemma save_entries_files:
  assumes "list_all (storable_entry P s) r"
  shows "save_entries s dir r = write_files dir (concat (map (entry_files s) r))"
  using assms
proof (induction r)
  case Nil
  then show ?case by simp
next
  case (Cons e r)
  obtain key v where e: "e = (key, v)" by (cases e)
  from Cons.prems e have "save_entry s dir key v = write_files dir (entry_files s (key, v))"
    by (intro save_entry_files [of P]) simp
  with Cons e show ?case
    by (simp add: write_files_append)
qed

lemma ext_csv: "last (split_on CHR ''.'' (k @ ''.csv'')) = ''csv''" "file_key (k @ ''.csv'') = k"
  using file_key_ext [of "''csv''" k] by simp_all

lemma ext_json: "last (split_on CHR ''.'' (k @ ''.json'')) = ''json''" "file_key (k @ ''.json'') = k"
  using file_key_ext [of "''json''" k] by simp_all

lemma no_marker_ext:
  assumes "\<not> sublist m k" and "m \<noteq> []" and "last m = CHR ''_''"
  shows "\<not> sublist m (k @ ''.csv'')" and "\<not> sublist m (k @ ''.json'')"
  using assms sublist_append_tail [of m k "''.csv''"] sublist_append_tail [of m k "''.json''"]
  by auto

lemma plain_key_top:
  assumes "plain_key key"
  shows "\<not> sublist ''variables_'' (key @ ''.csv'')" "\<not> sublist ''parameters_'' (key @ ''.csv'')"
    "\<not> sublist ''variables_'' (key @ ''.json'')" "\<not> sublist ''parameters_'' (key @ ''.json'')"
  using assms no_marker_ext [of "''variables_''" key] no_marker_ext [of "''parameters_''" key]
  by (simp_all add: plain_key_def)

lemma variables_child:
  "sublist ''variables_'' (''variables'' @ ''_'' @ k @ e)"
  using sublist_append_rightI [of "''variables_''" "k @ e"] by simp

lemma parameters_child:
  assumes "plain_key k"
  shows "sublist ''parameters_'' (''parameters'' @ ''_'' @ k @ e)"
    and "\<not> sublist ''variables_'' (''parameters'' @ ''_'' @ k @ ''.csv'')"
    and "\<not> sublist ''variables_'' (''parameters'' @ ''_'' @ k @ ''.json'')"
proof -
  show "sublist ''parameters_'' (''parameters'' @ ''_'' @ k @ e)"
    using sublist_append_rightI [of "''parameters_''" "k @ e"] by simp
  have nk: "\<not> sublist ''variables_'' k" using assms by (simp add: plain_key_def)
  have "\<not> sublist ''variables_'' (''parameters_'' @ k)"
    using nk sublist_append_head [of "''variables_''" "''parameters_''" k] by auto
  from no_marker_ext [OF this]
  show "\<not> sublist ''variables_'' (''parameters'' @ ''_'' @ k @ ''.csv'')"
    and "\<not> sublist ''variables_'' (''parameters'' @ ''_'' @ k @ ''.json'')"
    by simp_all
qed

lemma child_key:
  assumes "plain_key k"
  shows "replace ''variables_'' [] (''variables'' @ ''_'' @ k) = k"
    and "replace ''parameters_'' [] (''parameters'' @ ''_'' @ k) = k"
  using assms replace_prefix [of "''variables_''" k] replace_prefix [of "''parameters_''" k]
  by (simp_all add: plain_key_def)

lemma load_file_csv:
  assumes "read_file fs (dir @ name @ ''.csv'') = Inr (CsvOf g0)"
  shows "load_file P fs dir (name @ ''.csv'') =
           (case read_back P g0 of Inl e \<Rightarrow> ret PNone | Inr g \<Rightarrow> new_frame g)"
  using assms
  by (auto simp add: load_file_def parse_file_def ext_csv read_back_def Let_def split: sum.splits)

lemma load_file_json:
  assumes "read_file fs (dir @ name @ ''.json'') = Inr (JsonOf j)"
  shows "load_file P fs dir (name @ ''.json'') =
           ret (case of_json j of PDict _ d \<Rightarrow> PDict AttrDict d | w \<Rightarrow> w)"
  using assms
  by (auto simp add: load_file_def parse_file_def ext_json Let_def split: sum.splits obj.splits)

lemma readable_append [simp]: "readable fs dir (xs @ ys) \<longleftrightarrow> readable fs dir xs \<and> readable fs dir ys"
  by (simp add: readable_def)

lemma load_files_append:
  "load_files P fs dir self (xs @ ys) =
     andthen (load_files P fs dir self xs) (\<lambda>self'. load_files P fs dir self' ys)"
  by (induction xs arbitrary: self) (simp_all add: andthen_assoc)

lemma json_back_of:
  "to_json v = Some j \<Longrightarrow> (case of_json j of PDict _ d \<Rightarrow> PDict AttrDict d | w \<Rightarrow> w) = json_back v"
  by (simp add: json_back_def)

lemma load_top_level:
  assumes key: "plain_key key" and fresh: "key \<notin> set (map fst self)"
    and val: "case v of PDict kind _ \<Rightarrow> kind \<noteq> DataDict | PFrame _ \<Rightarrow> True | _ \<Rightarrow> True"
    and js: "case v of PFrame _ \<Rightarrow> True | _ \<Rightarrow> to_json v \<noteq> None"
    and rd: "readable fs dir (entry_files s (key, v))"
  shows "load_files P fs dir self (map fst (entry_files s (key, v))) =
           andthen (reload_value P s v) (\<lambda>v'. ret (self @ [(key, v')]))"
proof -
  have upd: "AList.update key v' self = self @ [(key, v')]" for v'
    using fresh by (intro update_fresh) (simp add: map_of_eq_None_iff)
  show ?thesis
  proof (cases "\<exists>a. v = PFrame a")
    case True
    then obtain a where v: "v = PFrame a" by blast
    with rd have "read_file fs (dir @ key @ ''.csv'') = Inr (CsvOf (frames s a))"
      by (simp add: readable_def entry_files_def)
    from load_file_csv [OF this, of P] v show ?thesis
      using plain_key_top [OF key]
      by (simp add: entry_files_def load_step_def ext_csv reload_value_def upd)
  next
    case False
    with js obtain j where j: "to_json v = Some j" by (cases v) auto
    from False val have ef: "entry_files s (key, v) = [(key @ ''.json'', JsonOf j)]"
      using j by (cases v) (simp_all add: entry_files_def del: to_json.simps)
    with rd have "read_file fs (dir @ key @ ''.json'') = Inr (JsonOf j)"
      by (simp add: readable_def)
    from load_file_json [OF this, of P] have lf: "load_file P fs dir (key @ ''.json'') = ret (json_back v)"
      by (simp add: json_back_of [OF j])
    from False have rv: "reload_value P s v = ret (json_back v)"
      by (cases v) (simp_all add: reload_value_def)
    show ?thesis
      using plain_key_top [OF key]
      by (simp add: ef load_step_def ext_json lf rv upd)
  qed
qed

lemma update_last:
  "k \<notin> set (map fst xs) \<Longrightarrow> AList.update k v (xs @ [(k, w)]) = xs @ [(k, v)]"
  by (induction xs) auto

lemma map_of_last:
  "k \<notin> set (map fst xs) \<Longrightarrow> map_of (xs @ [(k, w)]) k = Some w"
  by (induction xs) auto

lemma load_step_child_gen:
  assumes sec: "sec = ''variables'' \<or> sec = ''parameters''" and k: "plain_key k"
    and fresh: "sec \<notin> set (map fst self)" and new: "k \<notin> set (map fst acc)"
    and e: "e = ''.csv'' \<or> e = ''.json''"
    and ws: "with_section sec self0 = self @ [(sec, PDict DataDict acc)]"
  shows "load_step P fs dir self0 (sec @ ''_'' @ k @ e) =
           andthen (load_file P fs dir (sec @ ''_'' @ k @ e))
             (\<lambda>v'. ret (self @ [(sec, PDict DataDict (acc @ [(k, v')]))]))"
proof -
  have fk: "file_key (sec @ ''_'' @ k @ e) = sec @ ''_'' @ k"
    using e ext_csv(2) [of "sec @ ''_'' @ k"] ext_json(2) [of "sec @ ''_'' @ k"] by auto
  have upd: "AList.update k v' acc = acc @ [(k, v')]" for v'
    using new by (intro update_fresh) (simp add: map_of_eq_None_iff)
  have ml: "map_of (self @ [(sec, PDict DataDict acc)]) sec = Some (PDict DataDict acc)"
    using fresh by (rule map_of_last)
  have ul: "AList.update sec w (self @ [(sec, PDict DataDict acc)]) = self @ [(sec, w)]" for w
    using fresh by (rule update_last)
  have si: "setitem_child P (self @ [(sec, PDict DataDict acc)]) sec k v' =
      ret (self @ [(sec, PDict DataDict (acc @ [(k, v')]))])" for v'
    unfolding setitem_child_def ml ul by (simp add: upd)
  have si': "setitem_child P (self @ [(sec, PDict DataDict acc)]) sec k =
      (\<lambda>v'. ret (self @ [(sec, PDict DataDict (acc @ [(k, v')]))]))"
    by (rule ext) (rule si)
  from sec show ?thesis
  proof
    assume v: "sec = ''variables''"
    have "sublist ''variables_'' (sec @ ''_'' @ k @ e)"
      unfolding v by (rule variables_child)
    moreover have "replace ''variables_'' [] (sec @ ''_'' @ k) = k"
      unfolding v using child_key(1) [OF k] .
    ultimately show ?thesis
      unfolding load_step_def fk using ws si' by (simp add: v)
  next
    assume p: "sec = ''parameters''"
    have "sublist ''parameters_'' (sec @ ''_'' @ k @ e)"
      unfolding p by (rule parameters_child(1) [OF k])
    moreover have "\<not> sublist ''variables_'' (sec @ ''_'' @ k @ e)"
      unfolding p using e parameters_child(2,3) [OF k] by auto
    moreover have "replace ''parameters_'' [] (sec @ ''_'' @ k) = k"
      unfolding p using child_key(2) [OF k] .
    ultimately show ?thesis
      unfolding load_step_def fk using ws si' by (simp add: p)
  qed
qed

lemma with_section_present:
  "sec \<notin> set (map fst self) \<Longrightarrow>
   with_section sec (self @ [(sec, PDict DataDict acc)]) = self @ [(sec, PDict DataDict acc)]"
  unfolding with_section_def by (simp add: map_of_last)

lemma with_section_absent:
  "sec \<notin> set (map fst self) \<Longrightarrow> with_section sec self = self @ [(sec, PDict DataDict [])]"
  unfolding with_section_def by (simp add: map_of_eq_None_iff update_fresh)

lemma load_step_child:
  assumes sec: "sec = ''variables'' \<or> sec = ''parameters''" and k: "plain_key k"
    and fresh: "sec \<notin> set (map fst self)" and new: "k \<notin> set (map fst acc)"
    and e: "e = ''.csv'' \<or> e = ''.json''"
  shows "load_step P fs dir (self @ [(sec, PDict DataDict acc)]) (sec @ ''_'' @ k @ e) =
           andthen (load_file P fs dir (sec @ ''_'' @ k @ e))
             (\<lambda>v'. ret (self @ [(sec, PDict DataDict (acc @ [(k, v')]))]))"
  by (rule load_step_child_gen [OF sec k fresh new e with_section_present [OF fresh]])

lemma load_step_first_child:
  assumes sec: "sec = ''variables'' \<or> sec = ''parameters''" and k: "plain_key k"
    and fresh: "sec \<notin> set (map fst self)"
    and e: "e = ''.csv'' \<or> e = ''.json''"
  shows "load_step P fs dir self (sec @ ''_'' @ k @ e) =
         load_step P fs dir (self @ [(sec, PDict DataDict [])]) (sec @ ''_'' @ k @ e)"
  using load_step_child_gen [OF sec k fresh _ e with_section_absent [OF fresh], of P fs dir]
    load_step_child [OF sec k fresh _ e, of "[]" P fs dir]
  by simp

lemma load_children:
  assumes sec: "sec = ''variables'' \<or> sec = ''parameters''"
    and fresh: "sec \<notin> set (map fst self)"
    and ch: "list_all (storable_child P s) d"
    and dist: "distinct (map fst acc @ map fst d)"
    and rd: "readable fs dir (child_files s sec d)"
  shows "load_files P fs dir (self @ [(sec, PDict DataDict acc)]) (map fst (child_files s sec d)) =
           andthen (reload_children P s d) (\<lambda>d'. ret (self @ [(sec, PDict DataDict (acc @ d'))]))"
  using ch dist rd
proof (induction d arbitrary: acc)
  case Nil
  then show ?case by (simp add: child_files_def)
next
  case (Cons p d)
  obtain k v where p: "p = (k, v)" by (cases p)
  have cf: "child_files s sec (p # d) = child_files s sec [p] @ child_files s sec d"
    by (simp add: child_files_def)
  from Cons.prems p have sc: "storable_child P s (k, v)" and ch': "list_all (storable_child P s) d"
    by simp_all
  from sc have k: "plain_key k" by (simp add: storable_child_def)
  from Cons.prems(2) p have new: "k \<notin> set (map fst acc)" by auto
  from Cons.prems(2) p have dist': "distinct (map fst (acc @ [(k, v')]) @ map fst d)" for v'
    by auto
  from Cons.prems(3) cf have rd1: "readable fs dir (child_files s sec [p])"
    and rd': "readable fs dir (child_files s sec d)" by simp_all
  have IH: "load_files P fs dir (self @ [(sec, PDict DataDict (acc @ [(k, v')]))]) (map fst (child_files s sec d)) =
           andthen (reload_children P s d) (\<lambda>d'. ret (self @ [(sec, PDict DataDict ((acc @ [(k, v')]) @ d'))]))" for v'
    by (rule Cons.IH [OF ch' dist' rd'])
  have step: "load_files P fs dir (self @ [(sec, PDict DataDict acc)]) (map fst (child_files s sec [p])) =
      andthen (reload_value P s v) (\<lambda>v'. ret (self @ [(sec, PDict DataDict (acc @ [(k, v')]))]))"
  proof (cases "\<exists>a. v = PFrame a")
    case True
    then obtain a where v: "v = PFrame a" by blast
    with rd1 p have "read_file fs (dir @ (sec @ ''_'' @ k) @ ''.csv'') = Inr (CsvOf (frames s a))"
      by (simp add: readable_def child_files_def)
    from load_file_csv [OF this, of P] have "load_file P fs dir (sec @ ''_'' @ k @ ''.csv'') = reload_value P s v"
      by (simp add: v reload_value_def)
    with load_step_child [OF sec k fresh new, of "''.csv''" P fs dir] v p show ?thesis
      by (simp add: child_files_def)
  next
    case False
    with sc obtain kind d0 where v: "v = PDict kind d0" and js: "json_stable v"
      by (cases v) (auto simp: storable_child_def)
    from js obtain j where j: "to_json v = Some j" using json_stable_to_json by fastforce
    have cf1: "child_files s sec [p] = [(sec @ ''_'' @ k @ ''.json'', JsonOf j)]"
      using p v j by (simp add: child_files_def del: to_json.simps)
    with rd1 have "read_file fs (dir @ (sec @ ''_'' @ k) @ ''.json'') = Inr (JsonOf j)"
      by (simp add: readable_def)
    from load_file_json [OF this, of P] have "load_file P fs dir (sec @ ''_'' @ k @ ''.json'') = ret (json_back v)"
      by (simp add: json_back_of [OF j])
    moreover have "reload_value P s v = ret (json_back v)"
      using v by (simp add: reload_value_def)
    ultimately show ?thesis
      using load_step_child [OF sec k fresh new, of "''.json''" P fs dir]
      by (simp add: cf1)
  qed
  show ?case
    unfolding cf map_append load_files_append step
    by (simp add: p andthen_assoc IH)
qed

lemma first_child_file:
  assumes "storable_child P s (k, v)"
  shows "\<exists>e c. (e = ''.csv'' \<or> e = ''.json'') \<and> child_files s sec ((k, v) # d) = (sec @ ''_'' @ k @ e, c) # child_files s sec d"
proof (cases "\<exists>a. v = PFrame a")
  case True
  then show ?thesis by (auto simp: child_files_def)
next
  case False
  with assms obtain kind d0 where v: "v = PDict kind d0" and js: "json_stable v"
    by (cases v) (auto simp: storable_child_def)
  from js obtain j where j: "to_json v = Some j" using json_stable_to_json by fastforce
  with v show ?thesis by (simp add: child_files_def del: to_json.simps)
qed

lemma load_section:
  assumes sec: "sec = ''variables'' \<or> sec = ''parameters''"
    and fresh: "sec \<notin> set (map fst self)"
    and ch: "list_all (storable_child P s) d" and ne: "d \<noteq> []"
    and dist: "distinct (map fst d)"
    and rd: "readable fs dir (child_files s sec d)"
  shows "load_files P fs dir self (map fst (child_files s sec d)) =
           andthen (reload_children P s d) (\<lambda>d'. ret (self @ [(sec, PDict DataDict d')]))"
proof -
  from ne obtain k v d1 where d: "d = (k, v) # d1" by (cases d) auto
  with ch have sc: "storable_child P s (k, v)" by simp
  then have k: "plain_key k" by (simp add: storable_child_def)
  from first_child_file [OF sc, of sec d1] obtain e c where e: "e = ''.csv'' \<or> e = ''.json''"
    and cf: "child_files s sec d = (sec @ ''_'' @ k @ e, c) # child_files s sec d1"
    unfolding d by blast
  have "load_files P fs dir self (map fst (child_files s sec d)) =
        load_files P fs dir (self @ [(sec, PDict DataDict [])]) (map fst (child_files s sec d))"
    unfolding cf using load_step_first_child [OF sec k fresh e, of P fs dir] by simp
  also have "\<dots> = andthen (reload_children P s d) (\<lambda>d'. ret (self @ [(sec, PDict DataDict ([] @ d'))]))"
    using dist by (intro load_children [OF sec fresh ch _ rd]) simp
  finally show ?thesis by simp
qed

lemma load_entries:
  assumes "list_all (storable_entry P s) r"
    and "distinct (map fst self @ map fst r)"
    and "readable fs dir (concat (map (entry_files s) r))"
  shows "load_files P fs dir self (map fst (concat (map (entry_files s) r))) =
           andthen (reload P s r) (\<lambda>r'. ret (self @ r'))"
  using assms
proof (induction r arbitrary: self)
  case Nil
  then show ?case by simp
next
  case (Cons p r)
  obtain key v where p: "p = (key, v)" by (cases p)
  from Cons.prems p have se: "storable_entry P s (key, v)" and sr: "list_all (storable_entry P s) r"
    by simp_all
  from Cons.prems(2) p have fresh: "key \<notin> set (map fst self)"
    and dist': "distinct (map fst (self @ [(key, v')]) @ map fst r)" for v'
    by auto
  from Cons.prems(3) p have rd1: "readable fs dir (entry_files s (key, v))"
    and rd': "readable fs dir (concat (map (entry_files s) r))" by simp_all
  from se have key: "plain_key key" by (simp add: storable_entry_def)
  have IH: "load_files P fs dir (self @ [(key, v')]) (map fst (concat (map (entry_files s) r))) =
           andthen (reload P s r) (\<lambda>r'. ret ((self @ [(key, v')]) @ r'))" for v'
    by (rule Cons.IH [OF sr dist' rd'])
  have step: "load_files P fs dir self (map fst (entry_files s (key, v))) =
      andthen (reload_entry P s v) (\<lambda>v'. ret (self @ [(key, v')]))"
  proof (cases "\<exists>d. v = PDict DataDict d")
    case True
    then obtain d where v: "v = PDict DataDict d" by blast
    with se have sec: "key = ''variables'' \<or> key = ''parameters''" and ne: "d \<noteq> []"
      and dd: "distinct (map fst d)" and ch: "list_all (storable_child P s) d"
      by (simp_all add: storable_entry_def)
    from rd1 v have rdc: "readable fs dir (child_files s key d)" by (simp add: entry_files_def)
    from load_section [OF sec fresh ch ne dd rdc] v show ?thesis
      by (simp add: entry_files_def reload_entry_def andthen_assoc)
  next
    case False
    then have val: "case v of PDict kind _ \<Rightarrow> kind \<noteq> DataDict | PFrame _ \<Rightarrow> True | _ \<Rightarrow> True"
      by (cases v) auto
    have js: "case v of PFrame _ \<Rightarrow> True | _ \<Rightarrow> to_json v \<noteq> None"
    proof (cases "\<exists>a. v = PFrame a")
      case True
      then show ?thesis by auto
    next
      case nf: False
      with se False have "json_stable v"
        by (cases v) (auto simp: storable_entry_def storable_value_def)
      then have "to_json v \<noteq> None" by (rule json_stable_to_json)
      with nf show ?thesis by (cases v) (simp_all del: to_json.simps)
    qed
    have "reload_entry P s v = reload_value P s v"
      using False by (cases v) (auto simp: reload_entry_def)
    with load_top_level [OF key fresh val js rd1] show ?thesis by simp
  qed
  show ?case
    unfolding p list.map concat.simps map_append load_files_append step
    by (simp add: andthen_assoc IH)
qed

lemma not_frame_item: "json_stable x \<Longrightarrow> py_eq_item x c y = c y"
  by (cases x) (simp_all add: py_eq_item_def)

lemma seq_eq_json:
  assumes "\<And>x. x \<in> set xs \<Longrightarrow> json_stable x \<and> py_eq s x (jv x) = Inr True"
  shows "seq_eq (zip xs (map (py_eq s) xs)) (map jv xs) = Inr True"
  using assms by (induction xs) (simp_all add: not_frame_item)

lemma dict_eq_json:
  assumes "\<And>k v. (k, v) \<in> set a \<Longrightarrow> map_of d' k = Some (jv v) \<and> json_stable v \<and> py_eq s v (jv v) = Inr True"
  shows "dict_eq (zip a (map (map_prod id (py_eq s)) a)) d' = Inr True"
  using assms
proof (induction a)
  case Nil
  then show ?case by simp
next
  case (Cons p a)
  obtain k v where p: "p = (k, v)" by (cases p)
  from Cons.prems [of k v] p have h: "map_of d' k = Some (jv v)" "json_stable v" "py_eq s v (jv v) = Inr True"
    by simp_all
  have "dict_eq (zip a (map (map_prod id (py_eq s)) a)) d' = Inr True"
    using Cons.prems by (intro Cons.IH) auto
  with h p show ?case by (simp add: not_frame_item id_def)
qed

lemma map_of_map_values:
  "distinct (map fst d) \<Longrightarrow> (k, v) \<in> set d \<Longrightarrow> map_of (map (\<lambda>(k, v). (k, f v)) d) k = Some (f v)"
  by (induction d) (auto simp: rev_image_eqI)

lemma to_json_PList:
  "list_all json_stable xs \<Longrightarrow> to_json (PList xs) = Some (JArr (map (\<lambda>x. the (to_json x)) xs))"
  using those_map_Some [of to_json xs] json_stable_to_json
  by (simp add: list_all_iff)

lemma to_json_PDict:
  "list_all (\<lambda>(k, v). json_stable v) d \<Longrightarrow>
   to_json (PDict kind d) = Some (JObj (map (\<lambda>(k, v). (k, the (to_json v))) d))"
proof -
  assume "list_all (\<lambda>(k, v). json_stable v) d"
  then have "list_all (\<lambda>(k, v). to_json v \<noteq> None) d"
    using json_stable_to_json by (fastforce simp: list_all_iff)
  then show ?thesis by (simp add: those_items_Some)
qed

lemma jv_PList: "list_all json_stable xs \<Longrightarrow> jv (PList xs) = PList (map jv xs)"
  by (simp add: jv_def to_json_PList comp_def del: to_json.simps)

lemma jv_PDict:
  "list_all (\<lambda>(k, v). json_stable v) d \<Longrightarrow> jv (PDict kind d) = PDict PlainDict (map (\<lambda>(k, v). (k, jv v)) d)"
  by (simp add: jv_def to_json_PDict comp_def case_prod_unfold map_prod_def del: to_json.simps)

lemma json_roundtrip: "json_stable v \<Longrightarrow> py_eq s v (jv v) = Inr True"
proof (induction v)
  case (PList xs)
  then have st: "list_all json_stable xs" by simp
  have "seq_eq (zip xs (map (py_eq s) xs)) (map jv xs) = Inr True"
    using PList st by (intro seq_eq_json) (auto simp: list_all_iff)
  with st show ?case by (simp add: jv_PList)
next
  case (PDict kind d)
  then have k: "kind \<noteq> DataDict" and dist: "distinct (map fst d)"
    and st: "list_all (\<lambda>(k, v). json_stable v) d" by simp_all
  have "dict_eq (zip d (map (map_prod id (py_eq s)) d)) (map (\<lambda>(k, v). (k, jv v)) d) = Inr True"
  proof (intro dict_eq_json conjI)
    fix k v assume kv: "(k, v) \<in> set d"
    show "map_of (map (\<lambda>(k, v). (k, jv v)) d) k = Some (jv v)"
      using dist kv by (rule map_of_map_values)
    from st kv show js: "json_stable v" by (auto simp: list_all_iff)
    from PDict.IH [of "(k, v)" v] kv js show "py_eq s v (jv v) = Inr True" by simp
  qed
  with k st show ?case by (simp add: jv_PDict)
qed (simp_all add: jv_def int_of_obj_def)

lemma json_back_roundtrip:
  assumes "json_stable v"
  shows "py_eq s v (json_back v) = Inr True"
proof -
  from assms obtain j where j: "to_json v = Some j" using json_stable_to_json by fastforce
  show ?thesis
  proof (cases "\<exists>kind d. v = PDict kind d")
    case True
    then obtain kind d where v: "v = PDict kind d" by blast
    with assms have k: "kind \<noteq> DataDict" and st: "list_all (\<lambda>(k, v). json_stable v) d" by simp_all
    from json_roundtrip [OF assms, of s] have "py_eq s v (PDict PlainDict (map (\<lambda>(k, v). (k, jv v)) d)) = Inr True"
      by (simp add: v jv_PDict [OF st])
    moreover have "json_back v = PDict AttrDict (map (\<lambda>(k, v). (k, jv v)) d)"
      using jv_PDict [OF st, of kind] j by (simp add: json_back_def jv_def v del: to_json.simps)
    ultimately show ?thesis using k by (simp add: v)
  next
    case False
    have "json_back v = jv v"
    proof (cases v)
      case (PList xs)
      with assms have "list_all json_stable xs" by simp
      from jv_PList [OF this] j PList show ?thesis
        by (simp add: json_back_def jv_def del: to_json.simps)
    qed (use False assms in \<open>simp_all add: json_back_def jv_def\<close>)
    with json_roundtrip [OF assms] show ?thesis by simp
  qed
qed

lemma ext_store_refl [simp]: "ext_store s s"
  by (simp add: ext_store_def)

lemma ext_store_trans: "ext_store a b \<Longrightarrow> ext_store b c \<Longrightarrow> ext_store a c"
  by (auto simp: ext_store_def)

lemma good_ext: "good s sc v v' \<Longrightarrow> ext_store sc sc' \<Longrightarrow> good s sc' v v'"
  by (cases v) (auto simp: good_def ext_store_def)

lemma good_pair_ext: "good_pair s sc e e' \<Longrightarrow> ext_store sc sc' \<Longrightarrow> good_pair s sc' e e'"
  by (auto simp: good_pair_def intro: good_ext)

lemma good_pairs_ext:
  "list_all2 (good_pair s sc) d d' \<Longrightarrow> ext_store sc sc' \<Longrightarrow> list_all2 (good_pair s sc') d d'"
  by (erule list_all2_mono) (rule good_pair_ext)

lemma good_entry_ext: "good_entry s sc e e' \<Longrightarrow> ext_store sc sc' \<Longrightarrow> good_entry s sc' e e'"
  unfolding good_entry_def
  using good_pairs_ext [of s sc _ _ sc'] good_ext [of s sc _ _ sc']
  by (cases "snd e") (auto split: if_splits)

lemma good_entries_ext:
  "list_all2 (good_entry s sc) d d' \<Longrightarrow> ext_store sc sc' \<Longrightarrow> list_all2 (good_entry s sc') d d'"
  by (erule list_all2_mono) (rule good_entry_ext)

lemma reload_value_good:
  assumes "case v of PFrame _ \<Rightarrow> storable_value P s v | _ \<Rightarrow> True"
  shows "\<exists>v' s1. reload_value P s v s0 = (Inr v', s1) \<and> ext_store s0 s1 \<and> good s s1 v v'"
proof (cases v)
  case (PFrame a)
  with assms obtain g where g: "read_back P (frames s a) = Inr g" and eq: "frame_equals (frames s a) g = Inr True"
    by (auto simp: storable_value_def split: sum.splits)
  have "reload_value P s v s0 = (Inr (PFrame (lim s0)), s0\<lparr>frames := (frames s0)(lim s0 := g), lim := Suc (lim s0)\<rparr>)"
    by (simp add: PFrame reload_value_def g new_frame_def)
  moreover have "ext_store s0 (s0\<lparr>frames := (frames s0)(lim s0 := g), lim := Suc (lim s0)\<rparr>)"
    by (simp add: ext_store_def)
  moreover have "good s (s0\<lparr>frames := (frames s0)(lim s0 := g), lim := Suc (lim s0)\<rparr>) v (PFrame (lim s0))"
    using eq by (simp add: good_def PFrame)
  ultimately show ?thesis by blast
qed (simp_all add: reload_value_def ret_def good_def)

lemma reload_children_good:
  assumes "list_all (storable_child P s) d"
  shows "\<exists>d' s1. reload_children P s d s0 = (Inr d', s1) \<and> ext_store s0 s1 \<and>
           list_all2 (good_pair s s1) d d'"
  using assms
proof (induction d arbitrary: s0)
  case Nil
  then show ?case by (simp add: ret_def)
next
  case (Cons p d)
  obtain k v where p: "p = (k, v)" by (cases p)
  from Cons.prems p have "case v of PFrame _ \<Rightarrow> storable_value P s v | _ \<Rightarrow> True"
    by (cases v) (simp_all add: storable_child_def)
  from reload_value_good [OF this, of s0] obtain v' s1 where
    r1: "reload_value P s v s0 = (Inr v', s1)" and e1: "ext_store s0 s1" and g1: "good s s1 v v'"
    by blast
  from Cons.prems have "list_all (storable_child P s) d" by simp
  from Cons.IH [OF this, of s1] obtain d' s2 where
    r2: "reload_children P s d s1 = (Inr d', s2)" and e2: "ext_store s1 s2"
    and g2: "list_all2 (good_pair s s2) d d'" by blast
  have "reload_children P s (p # d) s0 = (Inr ((k, v') # d'), s2)"
    using r1 r2 by (simp add: p andthen_def ret_def)
  moreover have "ext_store s0 s2" using e1 e2 by (rule ext_store_trans)
  moreover have "list_all2 (good_pair s s2) (p # d) ((k, v') # d')"
    using g2 good_ext [OF g1 e2] by (simp add: p good_pair_def)
  ultimately show ?case by blast
qed

lemma reload_entry_good:
  assumes "storable_entry P s (key, v)"
  shows "\<exists>v' s1. reload_entry P s v s0 = (Inr v', s1) \<and> ext_store s0 s1 \<and>
           good_entry s s1 (key, v) (key, v')"
proof (cases "\<exists>d. v = PDict DataDict d")
  case True
  then obtain d where v: "v = PDict DataDict d" by blast
  with assms have "list_all (storable_child P s) d" by (simp add: storable_entry_def)
  from reload_children_good [OF this, of s0] obtain d' s1 where
    "reload_children P s d s0 = (Inr d', s1)" "ext_store s0 s1" "list_all2 (good_pair s s1) d d'"
    by blast
  then show ?thesis
    by (auto simp: v reload_entry_def andthen_def ret_def good_entry_def)
next
  case False
  then have re: "reload_entry P s v = reload_value P s v"
    by (cases v) (auto simp: reload_entry_def)
  from False assms have "case v of PFrame _ \<Rightarrow> storable_value P s v | _ \<Rightarrow> True"
    by (cases v) (simp_all add: storable_entry_def)
  from reload_value_good [OF this, of s0] obtain v' s1 where
    "reload_value P s v s0 = (Inr v', s1)" "ext_store s0 s1" "good s s1 v v'" by blast
  with re False show ?thesis
    by (cases v) (auto simp: good_entry_def)
qed

lemma reload_good:
  assumes "list_all (storable_entry P s) r"
  shows "\<exists>r' s1. reload P s r s0 = (Inr r', s1) \<and> ext_store s0 s1 \<and>
           list_all2 (good_entry s s1) r r'"
  using assms
proof (induction r arbitrary: s0)
  case Nil
  then show ?case by (simp add: ret_def)
next
  case (Cons p r)
  obtain key v where p: "p = (key, v)" by (cases p)
  from Cons.prems p have "storable_entry P s (key, v)" by simp
  from reload_entry_good [OF this, of s0] obtain v' s1 where
    r1: "reload_entry P s v s0 = (Inr v', s1)" and e1: "ext_store s0 s1"
    and g1: "good_entry s s1 (key, v) (key, v')" by blast
  from Cons.prems have "list_all (storable_entry P s) r" by simp
  from Cons.IH [OF this, of s1] obtain r' s2 where
    r2: "reload P s r s1 = (Inr r', s2)" and e2: "ext_store s1 s2"
    and g2: "list_all2 (good_entry s s2) r r'" by blast
  have "reload P s (p # r) s0 = (Inr ((key, v') # r'), s2)"
    using r1 r2 by (simp add: p andthen_def ret_def)
  moreover have "ext_store s0 s2" using e1 e2 by (rule ext_store_trans)
  moreover have "list_all2 (good_entry s s2) (p # r) ((key, v') # r')"
    using g2 good_entry_ext [OF g1 e2] by (simp add: p)
  ultimately show ?case by blast
qed

lemma child_name:
  assumes sec: "sec = ''variables'' \<or> sec = ''parameters''" and k: "plain_key k"
    and e: "e = ''.csv'' \<or> e = ''.json''"
  shows "owner (sec @ ''_'' @ k @ e) = sec" and "child_key_of (sec @ ''_'' @ k @ e) = k"
    and "file_name_ok (sec @ ''_'' @ k @ e)"
proof -
  have fk: "file_key (sec @ ''_'' @ k @ e) = sec @ ''_'' @ k"
    using e ext_csv(2) [of "sec @ ''_'' @ k"] ext_json(2) [of "sec @ ''_'' @ k"] by auto
  from sec show "owner (sec @ ''_'' @ k @ e) = sec" and "child_key_of (sec @ ''_'' @ k @ e) = k"
  proof -
    show "owner (sec @ ''_'' @ k @ e) = sec"
    proof (rule disjE [OF sec])
      assume v: "sec = ''variables''"
      show ?thesis unfolding owner_def v using variables_child [of k e] by simp
    next
      assume p: "sec = ''parameters''"
      have "\<not> sublist ''variables_'' (sec @ ''_'' @ k @ e)"
        unfolding p using e parameters_child(2,3) [OF k] by auto
      then show ?thesis unfolding owner_def using parameters_child(1) [OF k, of e] by (simp add: p)
    qed
    show "child_key_of (sec @ ''_'' @ k @ e) = k"
    proof (rule disjE [OF sec])
      assume v: "sec = ''variables''"
      show ?thesis unfolding child_key_of_def fk using variables_child [of k e] child_key(1) [OF k]
        by (simp add: v)
    next
      assume p: "sec = ''parameters''"
      have "\<not> sublist ''variables_'' (sec @ ''_'' @ k @ e)"
        unfolding p using e parameters_child(2,3) [OF k] by auto
      then show ?thesis unfolding child_key_of_def fk using child_key(2) [OF k] by (simp add: p)
    qed
  qed
  show "file_name_ok (sec @ ''_'' @ k @ e)"
    using sec k e by (auto simp: file_name_ok_def plain_key_def)
qed

lemma top_name:
  assumes key: "plain_key key" and e: "e = ''.csv'' \<or> e = ''.json''"
  shows "owner (key @ e) = key" and "file_name_ok (key @ e)"
proof -
  have fk: "file_key (key @ e) = key"
    using e ext_csv(2) [of key] ext_json(2) [of key] by auto
  have "\<not> sublist ''variables_'' (key @ e)" "\<not> sublist ''parameters_'' (key @ e)"
    using e plain_key_top [OF key] by auto
  then show "owner (key @ e) = key" by (simp add: owner_def fk)
  show "file_name_ok (key @ e)" using key e by (auto simp: file_name_ok_def plain_key_def)
qed

lemma child_files_single:
  assumes "storable_child P s (k, v)"
  shows "\<exists>e c. (e = ''.csv'' \<or> e = ''.json'') \<and> child_files s sec [(k, v)] = [(sec @ ''_'' @ k @ e, c)]"
  using first_child_file [OF assms, of sec "[]"] by (simp add: child_files_def)

lemma child_files_names:
  assumes sec: "sec = ''variables'' \<or> sec = ''parameters''"
    and ch: "list_all (storable_child P s) d" and dist: "distinct (map fst d)"
  shows "distinct (map fst (child_files s sec d)) \<and>
         (\<forall>f\<in>set (map fst (child_files s sec d)).
            owner f = sec \<and> child_key_of f \<in> set (map fst d) \<and> file_name_ok f)"
  using ch dist
proof (induction d)
  case Nil
  then show ?case by (simp add: child_files_def)
next
  case (Cons p d)
  obtain k v where p: "p = (k, v)" by (cases p)
  from Cons.prems p have sc: "storable_child P s (k, v)" and k: "plain_key k"
    by (simp_all add: storable_child_def)
  from child_files_single [OF sc, of sec] obtain e c where e: "e = ''.csv'' \<or> e = ''.json''"
    and one: "child_files s sec [(k, v)] = [(sec @ ''_'' @ k @ e, c)]" by blast
  have cf: "child_files s sec (p # d) = (sec @ ''_'' @ k @ e, c) # child_files s sec d"
    using one by (simp add: child_files_def p)
  from Cons have IH: "distinct (map fst (child_files s sec d))"
    "\<forall>f\<in>set (map fst (child_files s sec d)). owner f = sec \<and> child_key_of f \<in> set (map fst d) \<and> file_name_ok f"
    by simp_all
  note cn = child_name [OF sec k e]
  have "sec @ ''_'' @ k @ e \<notin> set (map fst (child_files s sec d))"
  proof
    assume "sec @ ''_'' @ k @ e \<in> set (map fst (child_files s sec d))"
    with IH(2) have "child_key_of (sec @ ''_'' @ k @ e) \<in> set (map fst d)" by blast
    with cn(2) Cons.prems(2) p show False by simp
  qed
  with IH cn show ?case unfolding cf by (auto simp: p)
qed

lemma entry_files_names:
  assumes "storable_entry P s (key, v)"
  shows "distinct (map fst (entry_files s (key, v))) \<and>
         (\<forall>f\<in>set (map fst (entry_files s (key, v))). owner f = key \<and> file_name_ok f)"
proof (cases "\<exists>d. v = PDict DataDict d")
  case True
  then obtain d where v: "v = PDict DataDict d" by blast
  with assms have sec: "key = ''variables'' \<or> key = ''parameters''"
    and dd: "distinct (map fst d)" and ch: "list_all (storable_child P s) d"
    by (simp_all add: storable_entry_def)
  from child_files_names [OF sec ch dd] v show ?thesis by (simp add: entry_files_def)
next
  case False
  from assms have key: "plain_key key" by (simp add: storable_entry_def)
  have "\<exists>e c. (e = ''.csv'' \<or> e = ''.json'') \<and> entry_files s (key, v) = [(key @ e, c)]"
  proof (cases "\<exists>a. v = PFrame a")
    case True
    then show ?thesis by (auto simp: entry_files_def)
  next
    case nf: False
    with assms False have "json_stable v"
      by (cases v) (auto simp: storable_entry_def storable_value_def)
    then obtain j where j: "to_json v = Some j" using json_stable_to_json by fastforce
    with nf False show ?thesis
      by (cases v) (auto simp add: entry_files_def simp del: to_json.simps)
  qed
  then obtain e c where e: "e = ''.csv'' \<or> e = ''.json''" and ef: "entry_files s (key, v) = [(key @ e, c)]"
    by blast
  from top_name [OF key e] show ?thesis by (simp add: ef)
qed

lemma files_names:
  assumes "list_all (storable_entry P s) r" and "distinct (map fst r)"
  shows "distinct (map fst (concat (map (entry_files s) r))) \<and>
         (\<forall>f\<in>set (map fst (concat (map (entry_files s) r))). owner f \<in> set (map fst r) \<and> file_name_ok f)"
  using assms
proof (induction r)
  case Nil
  then show ?case by simp
next
  case (Cons p r)
  obtain key v where p: "p = (key, v)" by (cases p)
  from Cons.prems p have se: "storable_entry P s (key, v)" by simp
  note en = entry_files_names [OF se]
  from Cons have IH: "distinct (map fst (concat (map (entry_files s) r)))"
    "\<forall>f\<in>set (map fst (concat (map (entry_files s) r))). owner f \<in> set (map fst r) \<and> file_name_ok f"
    by simp_all
  have disj: "set (map fst (entry_files s (key, v))) \<inter> set (map fst (concat (map (entry_files s) r))) = {}"
  proof (rule ccontr)
    assume "\<not> ?thesis"
    then obtain f where f1: "f \<in> set (map fst (entry_files s (key, v)))"
      and f2: "f \<in> set (map fst (concat (map (entry_files s) r)))" by blast
    from en f1 have "owner f = key" by blast
    moreover from IH(2) f2 have "owner f \<in> set (map fst r)" by blast
    ultimately show False using Cons.prems(2) p by simp
  qed
  from en IH disj show ?case
    unfolding p by (auto simp del: set_map)
qed

lemma good_values_equal:
  assumes "good s sc v v'" and "ext_store s sc"
    and "case v of PFrame a \<Rightarrow> a < lim s | _ \<Rightarrow> json_stable v"
  shows "values_equal sc v v'"
proof (cases v)
  case (PFrame a)
  with assms(1) obtain b where b: "v' = PFrame b" "frame_equals (frames s a) (frames sc b) = Inr True"
    by (auto simp: good_def)
  from assms(2,3) PFrame have "frames sc a = frames s a" by (simp add: ext_store_def)
  with b PFrame show ?thesis by (simp add: values_equal_def)
qed (use assms json_back_roundtrip [of v sc] in \<open>simp_all add: good_def values_equal_def\<close>)

lemma list_all2_memD: "list_all2 R xs ys \<Longrightarrow> x \<in> set xs \<Longrightarrow> \<exists>y\<in>set ys. R x y"
  by (induction rule: list_all2_induct) auto

lemma pairs_covered:
  assumes "list_all2 (\<lambda>e e'. fst e' = fst e \<and> values_equal sc (snd e) (snd e')) d d'"
    and "distinct (map fst d)"
  shows "covered_by sc d d'"
proof -
  have keys: "map fst d' = map fst d"
    using assms(1) by (induction rule: list_all2_induct) auto
  have "\<exists>w. map_of d' k = Some w \<and> values_equal sc v w" if "(k, v) \<in> set d" for k v
  proof -
    from list_all2_memD [OF assms(1) that] obtain e' where e': "e' \<in> set d'" "fst e' = k" "values_equal sc v (snd e')"
      by auto
    from keys assms(2) have dd: "distinct (map fst d')" by simp
    from e' have "(k, snd e') \<in> set d'" by (cases e') auto
    with dd have "map_of d' k = Some (snd e')" by (rule map_of_is_SomeI)
    with e' show ?thesis by blast
  qed
  then show ?thesis
    by (fastforce simp: covered_by_def list_all_iff)
qed

lemma good_pairs_covered:
  assumes "list_all2 (good_pair s sc) d d'" and "ext_store s sc"
    and "list_all (storable_child P s) d" and "distinct (map fst d)"
  shows "covered_by sc d d'"
proof (rule pairs_covered [OF _ assms(4)])
  show "list_all2 (\<lambda>e e'. fst e' = fst e \<and> values_equal sc (snd e) (snd e')) d d'"
  proof (rule list.rel_mono_strong [OF assms(1)])
    fix e e' assume e: "e \<in> set d" and g: "good_pair s sc e e'"
    from assms(3) e have sc: "storable_child P s e" by (simp add: list_all_iff)
    then have "case snd e of PFrame a \<Rightarrow> a < lim s | _ \<Rightarrow> json_stable (snd e)"
      by (cases e; cases "snd e") (auto simp: storable_child_def storable_value_def)
    with g assms(2) show "fst e' = fst e \<and> values_equal sc (snd e) (snd e')"
      by (auto simp: good_pair_def intro: good_values_equal)
  qed
qed

lemma good_entry_values_equal:
  assumes g: "good_entry s sc (key, v) e'" and ex: "ext_store s sc"
    and se: "storable_entry P s (key, v)"
  shows "fst e' = key \<and> values_equal sc v (snd e')"
proof (cases "\<exists>d. v = PDict DataDict d")
  case True
  then obtain d where v: "v = PDict DataDict d" by blast
  with g obtain d' where d': "snd e' = PDict DataDict d'" "list_all2 (good_pair s sc) d d'" "fst e' = key"
    by (auto simp: good_entry_def)
  from se v have "list_all (storable_child P s) d" "distinct (map fst d)"
    by (simp_all add: storable_entry_def)
  from good_pairs_covered [OF d'(2) ex this] have "covered_by sc d d'" .
  then have "py_eq sc (PDict DataDict d) (PDict DataDict d') = Inr True"
    by (simp add: datadict_eq_covered)
  with d' v show ?thesis by (simp add: values_equal_def)
next
  case False
  with g have gg: "good s sc v (snd e')" and k: "fst e' = key"
    by (cases v; auto simp: good_entry_def)+
  from False se have "case v of PFrame a \<Rightarrow> a < lim s | _ \<Rightarrow> json_stable v"
    by (cases v) (auto simp: storable_entry_def storable_value_def)
  from good_values_equal [OF gg ex this] k show ?thesis by simp
qed

lemma good_entries_eq:
  assumes "list_all2 (good_entry s sc) r r'" and "ext_store s sc" and "storable P s r"
  shows "eq sc r (PDict DataDict r') = Inr True"
proof -
  have "list_all2 (\<lambda>e e'. fst e' = fst e \<and> values_equal sc (snd e) (snd e')) r r'"
  proof (rule list.rel_mono_strong [OF assms(1)])
    fix e e' assume e: "e \<in> set r" and g: "good_entry s sc e e'"
    from assms(3) e have "storable_entry P s (fst e, snd e)" by (simp add: storable_def list_all_iff)
    from good_entry_values_equal [OF _ assms(2) this, of e'] g
    show "fst e' = fst e \<and> values_equal sc (snd e) (snd e')" by simp
  qed
  with assms(3) have "covered_by sc r r'"
    by (intro pairs_covered) (simp_all add: storable_def)
  then show ?thesis by (simp add: eq_def datadict_eq_covered)
qed

lemma andthen_InrE:
  assumes "andthen m f s = (Inr x, s')"
  obtains y s1 where "m s = (Inr y, s1)" and "f y s1 = (Inr x, s')"
  using assms by (auto simp: andthen_def split: prod.splits sum.splits)

declare andthen_lift_Inr [simp]

lemma lookup_append:
  "lookup fs (cs @ ds) = (case lookup fs cs of None \<Rightarrow> None | Some n \<Rightarrow> lookup n ds)"
proof (induction cs arbitrary: fs)
  case Nil
  then show ?case by simp
next
  case (Cons c cs)
  then show ?case by (cases fs) (auto split: option.splits)
qed

lemma read_written:
  assumes dir: "lookup fs (components dir) = Some (Dir (map (\<lambda>(f, c). (f, File c)) files))"
    and dist: "distinct (map fst files)"
    and ok: "\<forall>f\<in>set (map fst files). file_name_ok f"
  shows "readable fs (dir @ ''/'') files"
  unfolding readable_def list_all_iff
proof (intro ballI, clarify)
  fix f c assume fc: "(f, c) \<in> set files"
  with ok have f: "CHR ''/'' \<notin> set f" "f \<noteq> []" by (auto simp: file_name_ok_def)
  have "(f, File c) \<in> set (map (\<lambda>(f, c). (f, File c)) files)"
    using fc by force
  moreover have "distinct (map fst (map (\<lambda>(f, c). (f, File c)) files))"
    using dist by (simp add: comp_def case_prod_unfold)
  ultimately have "map_of (map (\<lambda>(f, c). (f, File c)) files) f = Some (File c)"
    by (rule map_of_is_SomeI [rotated])
  with dir f show "read_file fs ((dir @ ''/'') @ f) = Inr c"
    by (simp add: read_file_def components_append lookup_append)
qed

text \<open>
  The way of a record through the files. For every storable record \<open>r\<close>: when \<open>save\<close>
  with a name and an id other than \<open>0\<close> succeeds (so that the experiment directory is
  new), \<open>load\<close> with the same name, id and path returns a record \<open>r'\<close> with
  \<open>r == r'\<close>. That the library reads the CSV file of every table back as an equal table
  is part of what storable means.
\<close>

lemma save_load_roundtrip:
  assumes st: "storable P s r" and i: "i \<noteq> 0"
    and sv: "save s r (Some name) (Some i) path fs = (Inr (), fs')"
  shows "\<exists>r' s'. load P getmtime fs' (Some name) (Some i) path s = (Inr r', s') \<and>
                  eq s' r (PDict DataDict r') = Inr True"
proof -
  define dir where "dir = exp_dir path (replace '' '' ''_'' name) i"
  define files where "files = concat (map (entry_files s) r)"
  from st have ents: "list_all (storable_entry P s) r" and dist: "distinct (map fst r)"
    by (simp_all add: storable_def)
  have "save s r (Some name) (Some i) path =
      andthen (\<lambda>fs. if path \<in> set (listdir_cwd fs) then (Inr (), fs) else makedirs path fs)
        (\<lambda>_. andthen (makedirs dir) (\<lambda>_. save_entries s dir r))"
    by (simp add: save_def dir_def)
  with sv obtain u fs1 where "andthen (makedirs dir) (\<lambda>_. save_entries s dir r) fs1 = (Inr (), fs')"
    by (auto elim: andthen_InrE)
  then obtain u' fs2 where mk0: "makedirs dir fs1 = (Inr u', fs2)"
    and se: "save_entries s dir r fs2 = (Inr (), fs')"
    by (rule andthen_InrE)
  then have mk: "makedirs dir fs1 = (Inr (), fs2)" by simp
  from mk have dne: "dir \<noteq> []" and "mkdirs fs1 (components dir) = Inr fs2"
    by (auto simp: makedirs_def split: if_splits sum.splits)
  then have l2: "lookup fs2 (components dir) = Some (Dir [])" by (simp add: mkdirs_lookup)
  note fn = files_names [OF ents dist, folded files_def]
  from fn have ok: "list_all (\<lambda>(f, c). CHR ''/'' \<notin> set f \<and> f \<noteq> []) files"
    by (auto simp: list_all_iff file_name_ok_def)
  from fn have d0: "distinct (map fst [] @ map fst files)" by simp
  from write_files_dir [OF l2 d0 ok] obtain fs3 where
    w: "write_files dir files fs2 = (Inr (), fs3)"
    and l3: "lookup fs3 (components dir) = Some (Dir ([] @ map (\<lambda>(f, c). (f, File c)) files))" by blast
  from se w have fs3: "fs3 = fs'"
    by (simp add: save_entries_files [OF ents] files_def)
  from l3 fs3 have l': "lookup fs' (components dir) = Some (Dir (map (\<lambda>(f, c). (f, File c)) files))"
    by simp
  have rd: "readable fs' (dir @ ''/'') files"
    using l' fn by (intro read_written) auto
  have ls: "listdir fs' (dir @ ''/'') = Inr (map fst files)"
    using l' components_slash [of dir] by (simp add: listdir_def comp_def case_prod_unfold)
  have "load_files P fs' (dir @ ''/'') [] (map fst files) = andthen (reload P s r) (\<lambda>r'. ret ([] @ r'))"
    unfolding files_def using dist rd
    by (intro load_entries [OF ents]) (simp_all add: files_def)
  then have lf: "load_files P fs' (dir @ ''/'') [] (map fst files) = reload P s r" by simp
  from reload_good [OF ents, of s] obtain r' s' where
    rl: "reload P s r s = (Inr r', s')" and ex: "ext_store s s'"
    and gd: "list_all2 (good_entry s s') r r'" by blast
  have "load P getmtime fs' (Some name) (Some i) path s = (Inr r', s')"
    using i ls lf rl
    by (simp add: load_def load_from_def andthen_def lift_def dir_def [symmetric])
  moreover have "eq s' r (PDict DataDict r') = Inr True"
    using gd ex st by (rule good_entries_eq)
  ultimately show ?thesis by blast
qed

lemma storable_scenario:
  "storable faithful_pandas (scenario_store (Int64, [PInt 10, PInt 20, PInt 30, PInt 40]) (Int64, [PInt 5, PInt 6, PInt 7, PInt 8]))
     (scenario_record (PInt 1))"
  by code_simp

lemma save_scenario:
  "fst (save (scenario_store (Int64, [PInt 10, PInt 20, PInt 30, PInt 40]) (Int64, [PInt 5, PInt 6, PInt 7, PInt 8]))
     (scenario_record (PInt 1)) (Some ''exp'') (Some 1) ''out'' (Dir [])) = Inr ()"
  by code_simp

text \<open>The record of the scenario is storable and comes back equal.\<close>

lemma save_load_roundtrip_example:
  "\<exists>r' s'.
     load faithful_pandas epoch
       (snd (save (scenario_store (Int64, [PInt 10, PInt 20, PInt 30, PInt 40]) (Int64, [PInt 5, PInt 6, PInt 7, PInt 8]))
               (scenario_record (PInt 1)) (Some ''exp'') (Some 1) ''out'' (Dir [])))
       (Some ''exp'') (Some 1) ''out''
       (scenario_store (Int64, [PInt 10, PInt 20, PInt 30, PInt 40]) (Int64, [PInt 5, PInt 6, PInt 7, PInt 8])) = (Inr r', s') \<and>
     eq s' (scenario_record (PInt 1)) (PDict DataDict r') = Inr True"
proof (rule save_load_roundtrip [OF storable_scenario])
  show "(1::int) \<noteq> 0" by simp
  show "save (scenario_store (Int64, [PInt 10, PInt 20, PInt 30, PInt 40]) (Int64, [PInt 5, PInt 6, PInt 7, PInt 8]))
          (scenario_record (PInt 1)) (Some ''exp'') (Some 1) ''out'' (Dir []) =
        (Inr (), snd (save (scenario_store (Int64, [PInt 10, PInt 20, PInt 30, PInt 40]) (Int64, [PInt 5, PInt 6, PInt 7, PInt 8]))
               (scenario_record (PInt 1)) (Some ''exp'') (Some 1) ''out'' (Dir [])))"
    using save_scenario by (simp add: prod_eq_iff)
qed

text \<open>
  A nested record under another key than \<open>variables\<close> or \<open>parameters\<close> does not come
  back: the record \<open>{info: DataDict({a: {x: 1}})}\<close> is saved as the file
  \<open>info_a.json\<close> and loaded as \<open>{info_a: {x: 1}}\<close>, which lacks the key \<open>info\<close>.
\<close>

lemma save_load_nested_example:
  "fst (save no_tables info_record (Some ''exp'') (Some 1) ''out'' (Dir [])) = Inr () \<and>
   fst (load plain_pandas epoch
          (snd (save no_tables info_record (Some ''exp'') (Some 1) ''out'' (Dir [])))
          (Some ''exp'') (Some 1) ''out'' no_tables) =
     Inr [(''info_a'', PDict AttrDict [(''x'', PInt 1)])] \<and>
   eq (snd (load plain_pandas epoch
          (snd (save no_tables info_record (Some ''exp'') (Some 1) ''out'' (Dir [])))
          (Some ''exp'') (Some 1) ''out'' no_tables))
      info_record (PDict DataDict [(''info_a'', PDict AttrDict [(''x'', PInt 1)])]) = Inr False"
  by code_simp

section \<open>Further properties of saving and of experiment ids\<close>

lemma replace_no_space: "CHR '' '' \<notin> set name \<Longrightarrow> replace '' '' ''_'' name = name"
proof (rule replace_absent)
  assume "CHR '' '' \<notin> set name"
  then show "\<not> sublist '' '' name" by (auto simp: sublist_def)
qed simp

lemma components_single: "CHR ''/'' \<notin> set p \<Longrightarrow> p \<noteq> [] \<Longrightarrow> components p = [p]"
  by (simp add: components_def split_on_no_sep)

lemma py_int_1: "py_int ''1'' = Some 1"
  by code_simp

lemma suffix_field: "last (split_on CHR ''_'' (name @ ''_1'')) = ''1''"
  using last_split_on_append [of "CHR ''_''" "''1''" name] by simp

text \<open>
  When the path is a single directory name that is not yet in the working directory, and the
  name of the experiment has neither a slash nor a space, the first save writes into
  \<open>{path}/{name}_1/\<close> and a second save of the same record writes into
  \<open>{path}/{name}_2/\<close>, next to the first.
\<close>

lemma save_twice_simple_path:
  assumes p: "path \<noteq> []" "CHR ''/'' \<notin> set path"
    and n: "CHR ''/'' \<notin> set name" "CHR '' '' \<notin> set name"
    and fresh: "map_of es path = None"
  shows "save s [(''reporters'', PFrame r)] (Some name) None path (Dir es) =
           (Inr (), Dir (es @ [(path, Dir [(name @ ''_1'',
               Dir [(''reporters.csv'', File (CsvOf (frames s r)))])])]))"
    and "save s [(''reporters'', PFrame r)] (Some name) None path
           (Dir (es @ [(path, Dir [(name @ ''_1'',
               Dir [(''reporters.csv'', File (CsvOf (frames s r)))])])])) =
           (Inr (), Dir (es @ [(path, Dir [(name @ ''_1'',
               Dir [(''reporters.csv'', File (CsvOf (frames s r)))]),
                                          (name @ ''_2'',
               Dir [(''reporters.csv'', File (CsvOf (frames s r)))])])]))"
proof -
  have cp: "components path = [path]" using p by (simp add: components_single)
  have c1: "components (path @ ''/'' @ name @ ''_1'') = [path, name @ ''_1'']"
    using n components_append [of "name @ ''_1''" path] cp by simp
  have c2: "components (path @ ''/'' @ name @ ''_2'') = [path, name @ ''_2'']"
    using n components_append [of "name @ ''_2''" path] cp by simp
  have f1: "components ((path @ ''/'' @ name @ ''_1'') @ ''/'' @ ''reporters.csv'') = [path, name @ ''_1'', ''reporters.csv'']"
    using components_append [of "''reporters.csv''" "path @ ''/'' @ name @ ''_1''"] c1 by simp
  have f2: "components ((path @ ''/'' @ name @ ''_2'') @ ''/'' @ ''reporters.csv'') = [path, name @ ''_2'', ''reporters.csv'']"
    using components_append [of "''reporters.csv''" "path @ ''/'' @ name @ ''_2''"] c2 by simp
  have notin: "path \<notin> fst ` set es" using fresh by (simp add: map_of_eq_None_iff)
  have ml: "map_of (es @ [(path, X)]) path = Some X" for X :: "content node"
    using notin by (intro map_of_last) simp
  have ul: "AList.update path Y (es @ [(path, X)]) = es @ [(path, Y)]" for X Y :: "content node"
    using notin by (intro update_last) simp
  have sub: "sublist name (name @ ''_1'')" by simp
  show "save s [(''reporters'', PFrame r)] (Some name) None path (Dir es) =
           (Inr (), Dir (es @ [(path, Dir [(name @ ''_1'',
               Dir [(''reporters.csv'', File (CsvOf (frames s r)))])])]))"
    using p notin
    unfolding save_def exp_dir_def
    by (simp del: map_of_append add: replace_no_space [OF n(2)] andthen_def lift_def ret_def listdir_cwd_def makedirs_def cp fresh
        last_exp_id_def listdir_def ml ul str_int_1 c1 [simplified] f1 [simplified] save_entry_def write_file_def)
  show "save s [(''reporters'', PFrame r)] (Some name) None path
           (Dir (es @ [(path, Dir [(name @ ''_1'',
               Dir [(''reporters.csv'', File (CsvOf (frames s r)))])])])) =
           (Inr (), Dir (es @ [(path, Dir [(name @ ''_1'',
               Dir [(''reporters.csv'', File (CsvOf (frames s r)))]),
                                          (name @ ''_2'',
               Dir [(''reporters.csv'', File (CsvOf (frames s r)))])])]))"
    using p notin sub
    unfolding save_def exp_dir_def
    by (simp del: map_of_append add: replace_no_space [OF n(2)] andthen_def lift_def ret_def listdir_cwd_def makedirs_def cp
        last_exp_id_def listdir_def ml ul suffix_field [simplified] py_int_1 py_max_def
        str_int_2 c2 [simplified] f2 [simplified] save_entry_def write_file_def)
qed

text \<open>
  The directory \<open>ab_5\<close> of another experiment sets the next id of the experiment
  \<open>a\<close> to \<open>6\<close>.
\<close>

lemma save_substring_example:
  "save no_tables [] (Some ''a'') None ''out'' (Dir [(''out'', Dir [(''ab_5'', Dir [])])]) =
     (Inr (), Dir [(''out'', Dir [(''ab_5'', Dir []), (''a_6'', Dir [])])])"
  by code_simp

text \<open>
  With the directories \<open>a_1\<close> and \<open>ab_5\<close>, loading the latest run of \<open>ab\<close>
  reads \<open>ab_5\<close>; loading the latest run of \<open>a\<close> looks for \<open>a_5\<close>, which is
  not there.
\<close>

lemma load_substring_example:
  "fst (load plain_pandas epoch
          (Dir [(''out'', Dir [(''a_1'', Dir [(''log.json'', File (JsonOf (JObj [])))]),
                               (''ab_5'', Dir [(''log.json'', File (JsonOf (JObj [(''n'', JInt 5)])))])])])
          (Some ''ab'') None ''out'' no_tables) = Inr [(''log'', PDict AttrDict [(''n'', PInt 5)])] \<and>
   fst (load plain_pandas epoch
          (Dir [(''out'', Dir [(''a_1'', Dir [(''log.json'', File (JsonOf (JObj [])))]),
                               (''ab_5'', Dir [(''log.json'', File (JsonOf (JObj [(''n'', JInt 5)])))])])])
          (Some ''a'') None ''out'' no_tables) = Inl FileNotFoundError"
  by code_simp

section \<open>Further properties of combining the parameters\<close>

lemma setitem_scalar:
  "scalar v \<Longrightarrow>
   setitem P f k v = Inr (set_column f k (the (scalar_dtype v), replicate (df_len f) v))"
  by (cases v) (auto simp add: scalar_def setitem_def scalar_dtype_def)

lemma map_of_relabel:
  "map_of (map (\<lambda>(c, ys). if c = k then (c, xs) else (c, ys)) d) k' =
     (if k' = k then map_option (\<lambda>_. xs) (map_of d k) else map_of d k')"
  by (induction d) auto

lemma map_of_set_column:
  "map_of (data (set_column f k xs)) k' = (if k' = k then Some xs else map_of (data f) k')"
proof (cases "k \<in> set (column_names f)")
  case True
  then obtain ys where "map_of (data f) k = Some ys"
    by (cases "map_of (data f) k") (auto simp: column_names_def map_of_eq_None_iff)
  with True show ?thesis by (simp add: set_column_def map_of_relabel)
next
  case False
  then have "map_of (data f) k = None" by (simp add: column_names_def map_of_eq_None_iff)
  with False show ?thesis by (simp add: set_column_def map_add_def split: option.splits)
qed

lemma index_rows_set_column [simp]: "index_rows (set_column f k xs) = index_rows f"
  by (simp add: set_column_def)

lemma df_len_set_column [simp]: "df_len (set_column f k xs) = df_len f"
  by (simp add: df_len_def)

lemma add_constants_scalar:
  "list_all (\<lambda>(k, v). scalar v) cs \<Longrightarrow>
   add_constants P (PFrame r) cs s = (Inr (), s\<lparr>frames := (frames s)(r := broadcast_all (frames s r) cs)\<rparr>)"
proof (induction cs arbitrary: s)
  case Nil
  then show ?case by (simp add: ret_def broadcast_all_def)
next
  case (Cons c cs)
  obtain k v where c: "c = (k, v)" by (cases c)
  with Cons.prems have sc: "scalar v" and rest: "list_all (\<lambda>(k, v). scalar v) cs" by simp_all
  let ?g = "set_column (frames s r) k (the (scalar_dtype v), replicate (df_len (frames s r)) v)"
  let ?s1 = "s\<lparr>frames := (frames s)(r := ?g)\<rparr>"
  have step: "update_frame (PFrame r) (\<lambda>f. setitem P f k v) s = (Inr (), ?s1)"
    by (simp add: update_frame_def setitem_scalar [OF sc])
  have fr: "frames ?s1 r = ?g" by simp
  have upd: "?s1\<lparr>frames := (frames ?s1)(r := X)\<rparr> = s\<lparr>frames := (frames s)(r := X)\<rparr>" for X
    by simp
  have "add_constants P (PFrame r) (c # cs) s = add_constants P (PFrame r) cs ?s1"
    unfolding c by (simp add: andthen_def step)
  also have "\<dots> = (Inr (), ?s1\<lparr>frames := (frames ?s1)(r := broadcast_all (frames ?s1 r) cs)\<rparr>)"
    by (rule Cons.IH [OF rest])
  also have "\<dots> = (Inr (), s\<lparr>frames := (frames s)(r := broadcast_all ?g cs)\<rparr>)"
    unfolding fr upd ..
  also have "broadcast_all ?g cs = broadcast_all (frames s r) (c # cs)"
    unfolding c by (simp add: broadcast_all_def)
  finally show ?case .
qed

lemma index_rows_broadcast_all [simp]: "index_rows (broadcast_all f cs) = index_rows f"
  unfolding broadcast_all_def by (induction cs arbitrary: f) (auto)

lemma broadcast_all_other:
  "k \<notin> fst ` set cs \<Longrightarrow> map_of (data (broadcast_all f cs)) k = map_of (data f) k"
  unfolding broadcast_all_def by (induction cs arbitrary: f) (auto simp: map_of_set_column)

lemma broadcast_all_column:
  "distinct (map fst cs) \<Longrightarrow> (k, v) \<in> set cs \<Longrightarrow>
   map_of (data (broadcast_all f cs)) k = Some (the (scalar_dtype v), replicate (df_len f) v)"
proof (induction cs arbitrary: f)
  case Nil
  then show ?case by simp
next
  case (Cons c cs)
  obtain k' v' where c: "c = (k', v')" by (cases c)
  show ?case
  proof (cases "(k, v) = (k', v')")
    case True
    with Cons.prems c have "k \<notin> fst ` set cs" by auto
    from broadcast_all_other [OF this] True c show ?thesis
      by (simp add: broadcast_all_def map_of_set_column)
  next
    case False
    with Cons.prems c have "(k, v) \<in> set cs" "distinct (map fst cs)" by auto
    from Cons.IH [OF this(2,1)] c show ?thesis
      by (simp add: broadcast_all_def)
  qed
qed

text \<open>
  When the parameters hold a sample table and constants that are all scalars, the combined
  table has the rows of the sample, and every constant has a column, of the dtype of its
  value, that holds the value in each row.
\<close>

lemma combine_pars_scalar_constants:
  assumes par: "map_of self ''parameters'' = Some (PDict DataDict ps)"
    and sam: "map_of ps ''sample'' = Some (PFrame a)"
    and con: "map_of ps ''constants'' = Some (PDict kind cs)"
    and sc: "list_all (\<lambda>(k, v). scalar v) cs" and dist: "distinct (map fst cs)"
    and kv: "(k, v) \<in> set cs"
    and a: "a < lim s"
  shows "\<exists>g. returned_frame (combine_pars P self True True) s = Some g \<and>
             index_rows g = index_rows (frames s a) \<and>
             map_of (data g) k = Some (the (scalar_dtype v), replicate (df_len (frames s a)) v)"
proof -
  let ?g = "broadcast_all (frames s a) cs"
  from broadcast_all_column [OF dist kv]
  have col: "map_of (data ?g) k = Some (the (scalar_dtype v), replicate (df_len (frames s a)) v)" .
  then have "data ?g \<noteq> []" by auto
  then have ne: "df_shape ?g \<noteq> (0, 0)" by (simp add: df_shape_def)
  have "returned_frame (combine_pars P self True True) s = Some ?g"
    using a ne
    by (simp add: combine_pars_def par sam con returned_frame_def andthen_def new_frame_def
        get_frame_def lift_def mapping_items_def add_constants_scalar [OF sc] none_if_empty_def ret_def)
  with col show ?thesis by simp
qed

end
